theory Spec2Isabelle
  imports Complex_Main
begin

section \<open>JavaScript values\<close>

text \<open>
  The client reads the Generation Service's replies with \<^verbatim>\<open>JSON.parse\<close> and then uses
  the fields of the untyped result with \<^verbatim>\<open>||\<close>, so the model keeps run-time values.
  A number is an IEEE 754 double: \<open>JNum r\<close> is the finite double whose value is the
  rational \<open>r\<close>, \<open>JInf\<close> and \<open>JNegInf\<close> are the two infinities, \<open>JNaN\<close> is not-a-number.
  The two zeros are one value: the program never divides by a score, and \<^verbatim>\<open>||\<close> and
  \<^verbatim>\<open>JSON.stringify\<close> treat them alike. \<open>JUndefined\<close> is a missing property. \<open>JObj\<close> lists
  the own properties of an object, each key once.
\<close>

datatype js_value =
    JUndefined
  | JNull
  | JBool bool
  | JNum rat
  | JInf
  | JNegInf
  | JNaN
  | JStr string
  | JArr "js_value list"
  | JObj "(string \<times> js_value) list"

datatype js_error = TypeError | SyntaxError

fun truthy :: "js_value \<Rightarrow> bool" where
  "truthy JUndefined = False"
| "truthy JNull = False"
| "truthy (JBool b) = b"
| "truthy (JNum r) = (r \<noteq> 0)"
| "truthy JInf = True"
| "truthy JNegInf = True"
| "truthy JNaN = False"
| "truthy (JStr s) = (s \<noteq> [])"
| "truthy (JArr xs) = True"
| "truthy (JObj kvs) = True"

text \<open>\<^verbatim>\<open>a || b\<close>\<close>

definition js_or :: "js_value \<Rightarrow> js_value \<Rightarrow> js_value" where
  "js_or a b = (if truthy a then a else b)"

text \<open>
  \<^verbatim>\<open>v.k\<close> for the keys the program reads (\<^verbatim>\<open>feedback\<close>, \<^verbatim>\<open>score\<close>, \<^verbatim>\<open>overallScore\<close>,
  \<^verbatim>\<open>strengths\<close>, \<^verbatim>\<open>improvements\<close>, \<^verbatim>\<open>choices\<close>, \<^verbatim>\<open>message\<close>, \<^verbatim>\<open>content\<close>): a
  TypeError on \<^verbatim>\<open>null\<close> and \<^verbatim>\<open>undefined\<close>, the own property of an object, and
  \<^verbatim>\<open>undefined\<close> on every other value, none of whose prototypes has one of these keys.
\<close>

fun get_prop :: "js_value \<Rightarrow> string \<Rightarrow> js_error + js_value" where
  "get_prop JUndefined k = Inl TypeError"
| "get_prop JNull k = Inl TypeError"
| "get_prop (JObj kvs) k = Inr (case map_of kvs k of None \<Rightarrow> JUndefined | Some v \<Rightarrow> v)"
| "get_prop v k = Inr JUndefined"

text \<open>
  The parts of the run time that the program relies on and that are not code of the
  repository. Of JavaScript: \<^verbatim>\<open>JSON.parse\<close> (\<open>None\<close> when it throws a SyntaxError), and
  the two string coercions that \<^verbatim>\<open>+\<close> and \<^verbatim>\<open>/\<close> apply when an operand is not a number.
  Of the database, which receives the fields of a row as JSON: how it reads a text as a
  \<^verbatim>\<open>numeric\<close> (\<open>None\<close> when it rejects the text; a number, which is then exact, or
  \<open>JNaN\<close>), the text it stores for a value that is not a string, and what a column of type
  \<^verbatim>\<open>TEXT[]\<close> holds after a value that is not a list of strings (\<open>None\<close> when it rejects the
  value).
\<close>

record js_runtime =
  JSON_parse :: "string \<Rightarrow> js_value option"
  string_concat :: "js_value \<Rightarrow> js_value \<Rightarrow> string"
  string_to_number :: "string \<Rightarrow> js_value"
  numeric_in :: "string \<Rightarrow> js_value option"
  json_text :: "js_value \<Rightarrow> string"
  text_array_in :: "js_value \<Rightarrow> js_value option"

section \<open>Numbers\<close>

text \<open>
  The arithmetic of doubles: the exact result, rounded to the nearest double, a tie to the
  one with the even significand. \<open>ilog2 x\<close> is the exponent of \<open>x\<close>, the integer \<open>e\<close>
  with \<open>pow2 e \<le> x < pow2 (e + 1)\<close>, for a positive \<open>x\<close>. A double has a significand of
  53 bits and an exponent of at least \<open>-1022\<close>, so the doubles around \<open>x\<close> are the
  multiples of \<open>pow2 (max (ilog2 \<bar>x\<bar> - 52) (-1074))\<close>; \<open>binary64 x\<close> is the nearest of
  them. A result of magnitude \<open>2 ^ 1024\<close> or more is an infinity.
\<close>

function ilog2 :: "rat \<Rightarrow> int" where
  "ilog2 x =
     (if x \<le> 0 then 0
      else if 2 \<le> x then ilog2 (x / 2) + 1
      else if x < 1 then ilog2 (x * 2) - 1
      else 0)"
  by pat_completeness auto
termination
proof (relation "measure (\<lambda>x. if 1 \<le> x then nat \<lfloor>x\<rfloor> else nat \<lfloor>1 / x\<rfloor> + 1)")
  have half: "\<lfloor>t / 2\<rfloor> < \<lfloor>t\<rfloor>" if "1 \<le> t" for t :: rat
  proof -
    from that have "1 \<le> \<lfloor>t\<rfloor>" by linarith
    moreover have "t < of_int \<lfloor>t\<rfloor> + 1" by linarith
    ultimately have "t / 2 < of_int \<lfloor>t\<rfloor>" by linarith
    then show ?thesis by (simp add: floor_less_iff)
  qed
  show "wf (measure (\<lambda>x::rat. if 1 \<le> x then nat \<lfloor>x\<rfloor> else nat \<lfloor>1 / x\<rfloor> + 1))" by simp
  show "(x / 2, x) \<in> measure (\<lambda>x. if 1 \<le> x then nat \<lfloor>x\<rfloor> else nat \<lfloor>1 / x\<rfloor> + 1)"
    if a: "\<not> x \<le> 0" "2 \<le> x" for x :: rat
  proof -
    have "\<lfloor>x / 2\<rfloor> < \<lfloor>x\<rfloor>" using a by (intro half) simp
    moreover have "0 \<le> \<lfloor>x / 2\<rfloor>" using a by simp
    ultimately show ?thesis using a by simp
  qed
  show "(x * 2, x) \<in> measure (\<lambda>x. if 1 \<le> x then nat \<lfloor>x\<rfloor> else nat \<lfloor>1 / x\<rfloor> + 1)"
    if a: "\<not> x \<le> 0" "\<not> 2 \<le> x" "x < 1" for x :: rat
  proof -
    from a have t: "1 \<le> 1 / x" by simp
    have h: "\<lfloor>1 / x / 2\<rfloor> < \<lfloor>1 / x\<rfloor>" using t by (rule half)
    have e: "1 / (x * 2) = 1 / x / 2" by (simp add: field_simps)
    have "0 \<le> 1 / x / 2" using a by simp
    then have p: "0 \<le> \<lfloor>1 / x / 2\<rfloor>" by (simp only: zero_le_floor)
    show ?thesis
    proof (cases "1 \<le> x * 2")
      case True
      have "x * 2 < 2" using a by linarith
      then have "\<lfloor>x * 2\<rfloor> = 1" using True by linarith
      moreover have "1 \<le> \<lfloor>1 / x\<rfloor>" using t by linarith
      moreover have "\<not> 1 \<le> x" using a by linarith
      ultimately show ?thesis using True by (simp del: One_nat_def)
    next
      case False
      moreover have "\<not> 1 \<le> x" using a by linarith
      ultimately show ?thesis using h p unfolding in_measure e by (simp only: if_False)
    qed
  qed
qed

declare ilog2.simps [simp del]

definition pow2 :: "int \<Rightarrow> rat" where
  "pow2 e = (if 0 \<le> e then 2 ^ nat e else 1 / 2 ^ nat (- e))"

text \<open>The nearest integer, a tie to the even one.\<close>

definition nearest_even :: "rat \<Rightarrow> int" where
  "nearest_even y =
     (let f = \<lfloor>y\<rfloor>; d = y - of_int f
      in if d < 1 / 2 then f else if 1 / 2 < d then f + 1 else if even f then f else f + 1)"

definition binary64 :: "rat \<Rightarrow> rat" where
  "binary64 x =
     (let e = max (ilog2 \<bar>x\<bar> - 52) (- 1074)
      in of_int (nearest_even (x / pow2 e)) * pow2 e)"

text \<open>The double for an exact result.\<close>

definition number :: "rat \<Rightarrow> js_value" where
  "number x =
     (if 2 ^ 1024 \<le> binary64 x then JInf
      else if binary64 x \<le> - (2 ^ 1024) then JNegInf
      else JNum (binary64 x))"

text \<open>\<^verbatim>\<open>typeof v === 'number'\<close>\<close>

fun is_number :: "js_value \<Rightarrow> bool" where
  "is_number (JNum a) = True"
| "is_number JInf = True"
| "is_number JNegInf = True"
| "is_number JNaN = True"
| "is_number v = False"

fun is_stringy :: "js_value \<Rightarrow> bool" where
  "is_stringy (JStr s) = True"
| "is_stringy (JArr xs) = True"
| "is_stringy (JObj kvs) = True"
| "is_stringy v = False"

fun to_number :: "js_runtime \<Rightarrow> js_value \<Rightarrow> js_value" where
  "to_number rt JUndefined = JNaN"
| "to_number rt JNull = JNum 0"
| "to_number rt (JBool b) = JNum (if b then 1 else 0)"
| "to_number rt (JNum r) = JNum r"
| "to_number rt JInf = JInf"
| "to_number rt JNegInf = JNegInf"
| "to_number rt JNaN = JNaN"
| "to_number rt (JStr s) = string_to_number rt s"
| "to_number rt v = string_to_number rt (string_concat rt (JStr []) v)"

text \<open>The sum of two numbers.\<close>

fun num_plus :: "js_value \<Rightarrow> js_value \<Rightarrow> js_value" where
  "num_plus (JNum a) (JNum b) = number (a + b)"
| "num_plus JInf (JNum b) = JInf"
| "num_plus (JNum a) JInf = JInf"
| "num_plus JInf JInf = JInf"
| "num_plus JNegInf (JNum b) = JNegInf"
| "num_plus (JNum a) JNegInf = JNegInf"
| "num_plus JNegInf JNegInf = JNegInf"
| "num_plus a b = JNaN"

text \<open>\<^verbatim>\<open>a + b\<close>\<close>

definition js_plus :: "js_runtime \<Rightarrow> js_value \<Rightarrow> js_value \<Rightarrow> js_value" where
  "js_plus rt a b =
     (if is_stringy a \<or> is_stringy b then JStr (string_concat rt a b)
      else num_plus (to_number rt a) (to_number rt b))"

text \<open>
  \<^verbatim>\<open>a * c\<close> and \<^verbatim>\<open>a / c\<close> for a number \<open>a\<close> and a constant or a length \<open>c\<close>, which is
  finite and not negative; \<^verbatim>\<open>Math.round\<close>, which rounds a half up and is exact.
\<close>

fun js_times :: "js_value \<Rightarrow> rat \<Rightarrow> js_value" where
  "js_times (JNum a) c = number (a * c)"
| "js_times JInf c = (if c = 0 then JNaN else JInf)"
| "js_times JNegInf c = (if c = 0 then JNaN else JNegInf)"
| "js_times v c = JNaN"

fun js_divide :: "js_value \<Rightarrow> rat \<Rightarrow> js_value" where
  "js_divide (JNum a) c =
     (if c = 0 then (if a = 0 then JNaN else if 0 < a then JInf else JNegInf)
      else number (a / c))"
| "js_divide JInf c = JInf"
| "js_divide JNegInf c = JNegInf"
| "js_divide v c = JNaN"

fun Math_round :: "js_value \<Rightarrow> js_value" where
  "Math_round (JNum a) = JNum (of_int \<lfloor>a + 1 / 2\<rfloor>)"
| "Math_round JInf = JInf"
| "Math_round JNegInf = JNegInf"
| "Math_round v = JNaN"

text \<open>
  Rounding to one decimal place, a half up, in exact arithmetic: the rounded mean of the
  specification.
\<close>

definition round1 :: "rat \<Rightarrow> rat" where
  "round1 x = of_int \<lfloor>x * 10 + 1 / 2\<rfloor> / 10"

section \<open>Strings\<close>

text \<open>
  Strings are lists of 8-bit characters; \<^verbatim>\<open>trim\<close> removes the white space and line
  terminators of JavaScript that fit in 8 bits from both ends.
\<close>

definition is_space :: "char \<Rightarrow> bool" where
  "is_space c = (c \<in> set [CHR 0x09, CHR 0x0A, CHR 0x0B, CHR 0x0C, CHR 0x0D, CHR 0x20, CHR 0xA0])"

definition trim :: "string \<Rightarrow> string" where
  "trim s = rev (dropWhile is_space (rev (dropWhile is_space s)))"

definition digit_char :: "nat \<Rightarrow> char" where
  "digit_char d = ''0123456789'' ! d"

fun show_nat :: "nat \<Rightarrow> string" where
  "show_nat n = (if n < 10 then [digit_char n] else show_nat (n div 10) @ [digit_char (n mod 10)])"

section \<open>The store\<close>

text \<open>
  The tables of the migration, with the columns the client reads or writes; \<open>JNull\<close> is
  NULL. The client sends the fields of a row as JSON, and each column converts what it is
  sent to its type. \<^verbatim>\<open>JSON.stringify\<close> leaves out a field that is \<^verbatim>\<open>undefined\<close> and writes
  \<^verbatim>\<open>null\<close> for a number that is not finite. It writes a finite number as the shortest
  decimal that reads back as the same double.
\<close>

datatype interview_status = in_progress | completed | cancelled
datatype difficulty_level = junior | mid | senior
datatype interview_type = technical | behavioral | case_study

record interview_row =
  i_id :: string
  user_id :: string
  job_role :: string
  difficulty :: difficulty_level
  interview_type :: interview_type
  total_questions :: int
  status :: interview_status
  overall_score :: js_value
  strengths :: js_value
  improvements :: js_value
  created_at :: string
  completed_at :: js_value

record question_row =
  q_id :: string
  interview_id :: string
  question_text :: string
  question_order :: int

record answer_row =
  a_id :: string
  question_id :: string
  answer_text :: string
  ai_feedback :: js_value
  score :: js_value

record db =
  interviews :: "interview_row list"
  questions :: "question_row list"
  answers :: "answer_row list"

text \<open>The result of a call: \<^verbatim>\<open>{ data, error }\<close> with \<^verbatim>\<open>error\<close> set, or the data.\<close>

datatype 'a outcome = Failed | Ok 'a

text \<open>\<^verbatim>\<open>.from('interviews').select('*').eq('id', id).single()\<close>: an error unless one row matches.\<close>

definition select_interview :: "db \<Rightarrow> string \<Rightarrow> interview_row outcome" where
  "select_interview d i =
     (case filter (\<lambda>r. i_id r = i) (interviews d) of [r] \<Rightarrow> Ok r | _ \<Rightarrow> Failed)"

text \<open>
  \<^verbatim>\<open>.from('questions').select('*, answers(*)').eq('interview_id', id).order('question_order')\<close>:
  the questions of the interview by ascending order index, each with its answers.
\<close>

definition select_questions :: "db \<Rightarrow> string \<Rightarrow> (question_row \<times> answer_row list) list" where
  "select_questions d i =
     map (\<lambda>q. (q, filter (\<lambda>a. question_id a = q_id q) (answers d)))
       (sort_key question_order (filter (\<lambda>q. interview_id q = i) (questions d)))"

text \<open>
  The inserts append a row. The primary key rejects an identifier that is taken, the
  foreign key a parent row that does not exist.
\<close>

definition insert_interview :: "db \<Rightarrow> interview_row \<Rightarrow> db outcome" where
  "insert_interview d r =
     (if i_id r \<in> set (map i_id (interviews d)) then Failed
      else Ok (d\<lparr>interviews := interviews d @ [r]\<rparr>))"

definition insert_question :: "db \<Rightarrow> question_row \<Rightarrow> db outcome" where
  "insert_question d q =
     (if q_id q \<in> set (map q_id (questions d)) \<or> interview_id q \<notin> set (map i_id (interviews d))
      then Failed
      else Ok (d\<lparr>questions := questions d @ [q]\<rparr>))"

text \<open>
  The decimal that a column rounds when it is sent the double \<open>d\<close>. The column rounds the
  decimal that was written, not the double: \<^verbatim>\<open>8.35\<close> is a double below 8.35, is written as
  \<^verbatim>\<open>8.35\<close> and is rounded to 8.4. When a decimal of two places reads back as \<open>d\<close>, it is
  the decimal written. When none does, the decimal written and \<open>d\<close> round to the same
  tenth: a tie of that rounding has two places, so none lies between them.
\<close>

definition two_places :: "rat \<Rightarrow> rat" where
  "two_places d = of_int \<lfloor>d * 100 + 1 / 2\<rfloor> / 100"

definition json_number :: "rat \<Rightarrow> rat" where
  "json_number d = (if binary64 (two_places d) = d then two_places d else d)"

text \<open>
  The type \<^verbatim>\<open>DECIMAL(3,1)\<close> of \<^verbatim>\<open>answers.score\<close> and \<^verbatim>\<open>interviews.overall_score\<close>: a
  number is rounded to one decimal place, a half away from zero, and rejected when the
  result does not fit in three digits.
\<close>

definition numeric_3_1 :: "rat \<Rightarrow> js_value option" where
  "numeric_3_1 q =
     (let k = (if 0 \<le> q then \<lfloor>q * 10 + 1 / 2\<rfloor> else - \<lfloor>- q * 10 + 1 / 2\<rfloor>)
      in if \<bar>k\<bar> < 1000 then Some (JNum (of_int k / 10)) else None)"

text \<open>
  What the columns make of a field of an insert. A field that is \<^verbatim>\<open>undefined\<close> is left
  out, and the column takes its default, NULL. \<open>None\<close> is a value that the column
  rejects, which fails the whole write: a boolean, a list or an object for a
  \<^verbatim>\<open>DECIMAL\<close>, or a text that is not a number. The value of a \<^verbatim>\<open>DECIMAL\<close> is exact. A
  column of type \<^verbatim>\<open>TEXT\<close> takes every value.
\<close>

fun decimal_3_1 :: "js_runtime \<Rightarrow> js_value \<Rightarrow> js_value option" where
  "decimal_3_1 rt (JNum d) = numeric_3_1 (json_number d)"
| "decimal_3_1 rt (JStr s) =
     (case numeric_in rt s of
        Some (JNum q) \<Rightarrow> numeric_3_1 q
      | Some JNaN \<Rightarrow> Some JNaN
      | other \<Rightarrow> None)"
| "decimal_3_1 rt (JBool b) = None"
| "decimal_3_1 rt (JArr xs) = None"
| "decimal_3_1 rt (JObj kvs) = None"
| "decimal_3_1 rt v = Some JNull"

fun text_column :: "js_runtime \<Rightarrow> js_value \<Rightarrow> js_value" where
  "text_column rt (JStr s) = JStr s"
| "text_column rt (JBool b) = JStr (json_text rt (JBool b))"
| "text_column rt (JNum a) = JStr (json_text rt (JNum a))"
| "text_column rt (JArr xs) = JStr (json_text rt (JArr xs))"
| "text_column rt (JObj kvs) = JStr (json_text rt (JObj kvs))"
| "text_column rt v = JNull"

fun is_string :: "js_value \<Rightarrow> bool" where
  "is_string (JStr s) = True"
| "is_string v = False"

fun text_array :: "js_runtime \<Rightarrow> js_value \<Rightarrow> js_value option" where
  "text_array rt JUndefined = Some JNull"
| "text_array rt JNull = Some JNull"
| "text_array rt JNaN = Some JNull"
| "text_array rt JInf = Some JNull"
| "text_array rt JNegInf = Some JNull"
| "text_array rt (JArr xs) =
     (if list_all is_string xs then Some (JArr xs) else text_array_in rt (JArr xs))"
| "text_array rt v = text_array_in rt v"

text \<open>
  A field of an update: \<open>Some None\<close> for a field that is \<^verbatim>\<open>undefined\<close> and so left out,
  whose column keeps its value.
\<close>

definition field :: "(js_value \<Rightarrow> js_value option) \<Rightarrow> js_value \<Rightarrow> js_value option option" where
  "field column v = (if v = JUndefined then Some None else map_option Some (column v))"

text \<open>
  What the client reads back from a \<^verbatim>\<open>DECIMAL\<close>: the double nearest to the number, and
  the string \<^verbatim>\<open>NaN\<close>, which is how a \<^verbatim>\<open>numeric\<close> that is not a number is written in JSON.
\<close>

fun read_decimal :: "js_value \<Rightarrow> js_value" where
  "read_decimal (JNum q) = number q"
| "read_decimal JNaN = JStr ''NaN''"
| "read_decimal v = v"

text \<open>
  \<^verbatim>\<open>.from('answers').insert({question_id, answer_text, ai_feedback, score})\<close>, with the
  identifier that the database gives the row.
\<close>

definition insert_answer :: "js_runtime \<Rightarrow> db \<Rightarrow> answer_row \<Rightarrow> db outcome" where
  "insert_answer rt d a =
     (case decimal_3_1 rt (score a) of
        None \<Rightarrow> Failed
      | Some sc \<Rightarrow>
          if a_id a \<in> set (map a_id (answers d)) \<or> question_id a \<notin> set (map q_id (questions d))
          then Failed
          else Ok (d\<lparr>answers := answers d @
                       [a\<lparr>ai_feedback := text_column rt (ai_feedback a), score := sc\<rparr>]\<rparr>))"

text \<open>The rows with the identifier \<open>i\<close> take the values of the fields that were sent.\<close>

definition set_interview ::
  "db \<Rightarrow> string \<Rightarrow> interview_status \<Rightarrow> js_value option \<Rightarrow> js_value option \<Rightarrow> js_value option \<Rightarrow>
   js_value \<Rightarrow> db" where
  "set_interview d i st sc str imp ts =
     d\<lparr>interviews :=
         map (\<lambda>r. if i_id r = i
                   then r\<lparr>status := st,
                          overall_score := (case sc of None \<Rightarrow> overall_score r | Some v \<Rightarrow> v),
                          strengths := (case str of None \<Rightarrow> strengths r | Some v \<Rightarrow> v),
                          improvements := (case imp of None \<Rightarrow> improvements r | Some v \<Rightarrow> v),
                          completed_at := ts\<rparr>
                   else r)
           (interviews d)\<rparr>"

text \<open>
  \<^verbatim>\<open>.from('interviews').update({status, overall_score, strengths, improvements,
  completed_at}).eq('id', id)\<close>: one statement, on every row with that identifier, or on
  none when a column rejects its value. The time of completion is a string.
\<close>

definition update_interview ::
  "js_runtime \<Rightarrow> db \<Rightarrow> string \<Rightarrow> interview_status \<Rightarrow> js_value \<Rightarrow> js_value \<Rightarrow> js_value \<Rightarrow> string \<Rightarrow>
   db outcome" where
  "update_interview rt d i st sc str imp ts =
     (case field (decimal_3_1 rt) sc of
        None \<Rightarrow> Failed
      | Some sc' \<Rightarrow>
          (case field (text_array rt) str of
             None \<Rightarrow> Failed
           | Some str' \<Rightarrow>
               (case field (text_array rt) imp of
                  None \<Rightarrow> Failed
                | Some imp' \<Rightarrow> Ok (set_interview d i st sc' str' imp' (JStr ts)))))"

section \<open>The Generation Service, as the client calls it\<close>

text \<open>The body of \<^verbatim>\<open>supabase.functions.invoke('interview-ai', { body })\<close>.\<close>

datatype ai_request =
    generate_question string difficulty_level interview_type nat int "string list"
  | evaluate_answer string difficulty_level interview_type string string
  | generate_feedback string difficulty_level interview_type "(string \<times> string \<times> js_value) list"

text \<open>
  What the outside world answers during one operation: the reply of the service to the
  request (\<^verbatim>\<open>data.result\<close>, or an error), the outcome of the write that follows (the
  identifier the database gives the new row, or an error), and the clock.
\<close>

record reply =
  invoke :: "ai_request \<Rightarrow> string outcome"
  written :: "string outcome"
  now :: string

section \<open>The interview page\<close>

record QA =
  question :: string
  questionId :: string
  answer :: string
  answerId :: "string option"
  feedback :: js_value
  qa_score :: js_value

record page =
  interview :: "interview_row option"
  qaHistory :: "QA list"
  currentQuestion :: string
  currentQuestionId :: string
  userAnswer :: string
  isLoading :: bool
  isGenerating :: bool
  isSubmitting :: bool
  questionNumber :: nat

definition initial_page :: page where
  "initial_page =
     \<lparr>interview = None, qaHistory = [], currentQuestion = [], currentQuestionId = [],
      userAnswer = [], isLoading = True, isGenerating = False, isSubmitting = False,
      questionNumber = 1\<rparr>"

datatype route = DashboardRoute | SetupRoute | InterviewRoute string | ResultsRoute string

record setup_form =
  jobRole :: string
  customRole :: string
  interviewType :: interview_type
  difficulty_state :: difficulty_level
  questionCount :: int

text \<open>
  The browser of the signed-in user: the store, the route, the state of the mounted
  page and the last notification shown.
\<close>

record world =
  store :: db
  location :: route
  form :: setup_form
  view :: page
  toast :: "string option"
  user :: string

text \<open>
  \<^verbatim>\<open>handleSubmitAnswer\<close>, the parsing of the evaluation: \<^verbatim>\<open>feedback\<close> and \<^verbatim>\<open>score\<close>
  start as \<^verbatim>\<open>''\<close> and \<^verbatim>\<open>5\<close>; the \<^verbatim>\<open>try\<close> block parses the reply and assigns both; the
  \<^verbatim>\<open>catch\<close> block assigns the reply to \<^verbatim>\<open>feedback\<close>.
\<close>

definition evaluation :: "js_runtime \<Rightarrow> string \<Rightarrow> js_value \<times> js_value" where
  "evaluation rt result =
     (case JSON_parse rt result of
        None \<Rightarrow> (JStr result, JNum 5)
      | Some parsed \<Rightarrow>
          (case get_prop parsed ''feedback'' of
             Inl e \<Rightarrow> (JStr result, JNum 5)
           | Inr f \<Rightarrow>
               (case get_prop parsed ''score'' of
                  Inl e \<Rightarrow> (JStr result, JNum 5)
                | Inr sc \<Rightarrow> (js_or f (JStr result), js_or sc (JNum 5)))))"

text \<open>
  \<^verbatim>\<open>history.reduce((sum, qa) => sum + (qa.score || 5), 0) / history.length\<close>. The
  division turns a sum that is a string into a number.
\<close>

definition sum_scores :: "js_runtime \<Rightarrow> QA list \<Rightarrow> js_value" where
  "sum_scores rt history =
     foldl (\<lambda>sum qa. js_plus rt sum (js_or (qa_score qa) (JNum 5))) (JNum 0) history"

definition avgScore :: "js_runtime \<Rightarrow> QA list \<Rightarrow> js_value" where
  "avgScore rt history =
     js_divide (to_number rt (sum_scores rt history)) (of_nat (length history))"

text \<open>\<^verbatim>\<open>Math.round(avgScore * 10) / 10\<close>\<close>

definition rounded :: "js_value \<Rightarrow> js_value" where
  "rounded v = js_divide (Math_round (js_times v 10)) 10"

text \<open>
  \<^verbatim>\<open>generateFinalFeedback\<close>, the parsing of the aggregate feedback: the three variables
  start as \<^verbatim>\<open>5\<close>, \<^verbatim>\<open>[]\<close> and \<^verbatim>\<open>[]\<close> and are assigned one after the other in the
  \<^verbatim>\<open>try\<close> block; the \<^verbatim>\<open>catch\<close> block assigns the rounded mean to \<^verbatim>\<open>overallScore\<close>.
\<close>

definition final_feedback ::
  "js_runtime \<Rightarrow> string \<Rightarrow> QA list \<Rightarrow> js_value \<times> js_value \<times> js_value" where
  "final_feedback rt result history =
     (case JSON_parse rt result of
        None \<Rightarrow> (rounded (avgScore rt history), JArr [], JArr [])
      | Some parsed \<Rightarrow>
          (case get_prop parsed ''overallScore'' of
             Inl e \<Rightarrow> (rounded (avgScore rt history), JArr [], JArr [])
           | Inr ov \<Rightarrow>
               (case get_prop parsed ''strengths'' of
                  Inl e \<Rightarrow> (rounded (avgScore rt history), JArr [], JArr [])
                | Inr st \<Rightarrow>
                    (case get_prop parsed ''improvements'' of
                       Inl e \<Rightarrow> (rounded (avgScore rt history), js_or st (JArr []), JArr [])
                     | Inr im \<Rightarrow>
                         (js_or ov (JNum 5), js_or st (JArr []), js_or im (JArr []))))))"

definition generateNextQuestion :: "reply \<Rightarrow> interview_row \<Rightarrow> QA list \<Rightarrow> world \<Rightarrow> world" where
  "generateNextQuestion r interviewData history w =
     (let failed = w\<lparr>toast := Some ''Failed to generate question. Please try again.'',
                     view := (view w)\<lparr>isGenerating := False\<rparr>\<rparr>
      in case invoke r (generate_question (job_role interviewData) (difficulty interviewData)
                          (interview_type interviewData) (length history + 1)
                          (total_questions interviewData) (map question history)) of
           Failed \<Rightarrow> failed
         | Ok result \<Rightarrow>
             (let questionText = trim result
              in case written r of
                   Failed \<Rightarrow> failed
                 | Ok new_id \<Rightarrow>
                     (case insert_question (store w)
                             \<lparr>q_id = new_id, interview_id = i_id interviewData,
                              question_text = questionText,
                              question_order = int (length history) + 1\<rparr> of
                        Failed \<Rightarrow> failed
                      | Ok d \<Rightarrow>
                          w\<lparr>store := d,
                            view := (view w)\<lparr>currentQuestion := questionText,
                                             currentQuestionId := new_id,
                                             questionNumber := length history + 1,
                                             isGenerating := False\<rparr>\<rparr>)))"

definition generateFinalFeedback ::
  "js_runtime \<Rightarrow> reply \<Rightarrow> interview_row \<Rightarrow> QA list \<Rightarrow> world \<Rightarrow> world" where
  "generateFinalFeedback rt r interviewData history w =
     (let failed = w\<lparr>toast := Some ''Failed to complete interview. Please try again.'',
                     view := (view w)\<lparr>isGenerating := False\<rparr>\<rparr>
      in case invoke r (generate_feedback (job_role interviewData) (difficulty interviewData)
                          (interview_type interviewData)
                          (map (\<lambda>qa. (question qa, answer qa, js_or (qa_score qa) (JNum 5))) history)) of
           Failed \<Rightarrow> failed
         | Ok result \<Rightarrow>
             (case final_feedback rt result history of
                (overallScore, strengths_v, improvements_v) \<Rightarrow>
                  (case written r of
                     Failed \<Rightarrow> failed
                   | Ok u \<Rightarrow>
                       (case update_interview rt (store w) (i_id interviewData) completed
                               overallScore strengths_v improvements_v (now r) of
                          Failed \<Rightarrow> failed
                        | Ok d \<Rightarrow>
                            w\<lparr>store := d, location := ResultsRoute (i_id interviewData),
                              view := (view w)\<lparr>isGenerating := False\<rparr>\<rparr>))))"

text \<open>
  \<^verbatim>\<open>handleSubmitAnswer\<close>: \<open>r\<close> answers the evaluation and the insert of the answer,
  \<open>r'\<close> the call that follows (the next question or the final feedback).
\<close>

definition handleSubmitAnswer :: "js_runtime \<Rightarrow> reply \<Rightarrow> reply \<Rightarrow> world \<Rightarrow> world" where
  "handleSubmitAnswer rt r r' w =
     (case interview (view w) of
        None \<Rightarrow> w
      | Some iv \<Rightarrow>
          if trim (userAnswer (view w)) = [] then w
          else
            (let failed = w\<lparr>toast := Some ''Failed to submit answer. Please try again.'',
                            view := (view w)\<lparr>isSubmitting := False\<rparr>\<rparr>
             in case invoke r (evaluate_answer (job_role iv) (difficulty iv) (interview_type iv)
                                 (currentQuestion (view w)) (userAnswer (view w))) of
                  Failed \<Rightarrow> failed
                | Ok result \<Rightarrow>
                    (case evaluation rt result of
                       (feedback_v, score_v) \<Rightarrow>
                         (case written r of
                            Failed \<Rightarrow> failed
                          | Ok new_id \<Rightarrow>
                              (case insert_answer rt (store w)
                                      \<lparr>a_id = new_id, question_id = currentQuestionId (view w),
                                       answer_text = userAnswer (view w),
                                       ai_feedback = feedback_v, score = score_v\<rparr> of
                                 Failed \<Rightarrow> failed
                               | Ok d \<Rightarrow>
                                   (let newQA = \<lparr>question = currentQuestion (view w),
                                                 questionId = currentQuestionId (view w),
                                                 answer = userAnswer (view w),
                                                 answerId = Some new_id,
                                                 feedback = feedback_v,
                                                 qa_score = score_v\<rparr>;
                                        updatedHistory = qaHistory (view w) @ [newQA];
                                        w1 = w\<lparr>store := d,
                                               view := (view w)\<lparr>qaHistory := updatedHistory,
                                                                userAnswer := [],
                                                                currentQuestion := [],
                                                                isSubmitting := False\<rparr>\<rparr>
                                    in if total_questions iv \<le> int (length updatedHistory)
                                       then generateFinalFeedback rt r' iv updatedHistory w1
                                       else generateNextQuestion r' iv updatedHistory w1))))))"

text \<open>\<^verbatim>\<open>fetchInterview\<close>, the entry of \<^verbatim>\<open>existingQA\<close> for one question and its answers.\<close>

definition existingQA :: "question_row \<times> answer_row list \<Rightarrow> QA" where
  "existingQA qa =
     (case qa of
        (q, []) \<Rightarrow>
          \<lparr>question = question_text q, questionId = q_id q, answer = [], answerId = None,
           feedback = JUndefined, qa_score = JUndefined\<rparr>
      | (q, a # as) \<Rightarrow>
          \<lparr>question = question_text q, questionId = q_id q, answer = answer_text a,
           answerId = Some (a_id a), feedback = js_or (ai_feedback a) JUndefined,
           qa_score = js_or (read_decimal (score a)) JUndefined\<rparr>)"

text \<open>
  \<^verbatim>\<open>fetchInterview\<close>, run when the page is mounted for the interview \<open>i\<close>. The two
  reads can fail (\<open>interview_read\<close>, \<open>questions_read\<close>); the error of the first is
  thrown, the second read takes \<^verbatim>\<open>data\<close> only, which is \<^verbatim>\<open>null\<close> after an error.
\<close>

record fetch_env =
  interview_read :: bool
  questions_read :: bool
  follow :: reply

definition fetchInterview :: "js_runtime \<Rightarrow> fetch_env \<Rightarrow> string \<Rightarrow> world \<Rightarrow> world" where
  "fetchInterview rt e i w =
     (let failed = w\<lparr>toast := Some ''Failed to load interview'', location := DashboardRoute,
                     view := (view w)\<lparr>isLoading := False\<rparr>\<rparr>
      in case (if interview_read e then select_interview (store w) i else Failed) of
           Failed \<Rightarrow> failed
         | Ok interviewData \<Rightarrow>
             if status interviewData = completed
             then w\<lparr>location := ResultsRoute i, view := (view w)\<lparr>isLoading := False\<rparr>\<rparr>
             else
               (let w1 = w\<lparr>view := (view w)\<lparr>interview := Some interviewData, isLoading := False\<rparr>\<rparr>;
                    data = (if questions_read e then Some (select_questions (store w) i) else None)
                in case data of
                     None \<Rightarrow> generateNextQuestion (follow e) interviewData [] w1
                   | Some questionsData \<Rightarrow>
                       if questionsData \<noteq> []
                       then
                         (let history = map existingQA questionsData;
                              lastQuestion = last questionsData
                          in if snd lastQuestion = []
                             then w1\<lparr>view := (view w1)\<lparr>qaHistory := butlast history,
                                                         currentQuestion := question_text (fst lastQuestion),
                                                         currentQuestionId := q_id (fst lastQuestion),
                                                         questionNumber := length questionsData\<rparr>\<rparr>
                             else
                               (let w2 = w1\<lparr>view := (view w1)\<lparr>qaHistory := history,
                                                                questionNumber := length questionsData + 1\<rparr>\<rparr>
                                in if int (length questionsData) < total_questions interviewData
                                   then generateNextQuestion (follow e) interviewData history w2
                                   else generateFinalFeedback rt (follow e) interviewData history w2))
                       else generateNextQuestion (follow e) interviewData [] w1))"

section \<open>The setup page\<close>

definition jobRoles :: "string list" where
  "jobRoles =
     [''Software Engineer'', ''Product Manager'', ''Data Scientist'', ''UX Designer'',
      ''DevOps Engineer'', ''Marketing Manager'', ''Sales Representative'', ''Business Analyst'']"

definition questionCounts :: "int list" where
  "questionCounts = [5, 10, 15]"

definition initial_form :: setup_form where
  "initial_form =
     \<lparr>jobRole = [], customRole = [], interviewType = behavioral, difficulty_state = mid,
      questionCount = 5\<rparr>"

text \<open>
  What the user can do with the form: one button for each entry of \<^verbatim>\<open>jobRoles\<close>, of
  \<^verbatim>\<open>interviewTypes\<close>, of \<^verbatim>\<open>difficultyLevels\<close> and of \<^verbatim>\<open>questionCounts\<close>, the button
  \<^verbatim>\<open>Custom\<close>, and the text field of the custom role, shown once \<^verbatim>\<open>Custom\<close> is chosen.
  There is no button beyond the end of a list.
\<close>

datatype setup_click =
    pick_role nat
  | pick_custom
  | edit_custom string
  | pick_type interview_type
  | pick_difficulty difficulty_level
  | pick_count nat

fun click :: "setup_click \<Rightarrow> setup_form \<Rightarrow> setup_form" where
  "click (pick_role n) f = (if n < length jobRoles then f\<lparr>jobRole := jobRoles ! n\<rparr> else f)"
| "click pick_custom f = f\<lparr>jobRole := ''custom''\<rparr>"
| "click (edit_custom s) f = (if jobRole f = ''custom'' then f\<lparr>customRole := s\<rparr> else f)"
| "click (pick_type t) f = f\<lparr>interviewType := t\<rparr>"
| "click (pick_difficulty l) f = f\<lparr>difficulty_state := l\<rparr>"
| "click (pick_count n) f =
     (if n < length questionCounts then f\<lparr>questionCount := questionCounts ! n\<rparr> else f)"

text \<open>
  \<^verbatim>\<open>handleStartInterview\<close>: \<open>written r\<close> is the outcome of the insert, with the
  identifier of the new row; its other columns take the defaults of the table.
\<close>

definition handleStartInterview :: "reply \<Rightarrow> world \<Rightarrow> world" where
  "handleStartInterview r w =
     (let finalRole = (if jobRole (form w) = ''custom'' then customRole (form w) else jobRole (form w));
          failed = w\<lparr>toast := Some ''Failed to create interview. Please try again.''\<rparr>
      in if trim finalRole = []
         then w\<lparr>toast := Some ''Choose a job role or enter a custom one.''\<rparr>
         else
           (case written r of
              Failed \<Rightarrow> failed
            | Ok new_id \<Rightarrow>
                (case insert_interview (store w)
                        \<lparr>i_id = new_id, user_id = user w, job_role = finalRole,
                         difficulty = difficulty_state (form w),
                         interview_type = interviewType (form w),
                         total_questions = questionCount (form w), status = in_progress,
                         overall_score = JNull, strengths = JNull, improvements = JNull,
                         created_at = now r, completed_at = JNull\<rparr> of
                   Failed \<Rightarrow> failed
                 | Ok d \<Rightarrow>
                     w\<lparr>store := d, toast := Some ''Get ready for your mock interview.'',
                       location := InterviewRoute new_id, view := initial_page\<rparr>)))"

section \<open>The workflow\<close>

text \<open>
  One user, one browser, one operation at a time. An event is an act of the user or the
  effect that loads a mounted interview page, together with what the outside world
  answers during it. The guards are those of the pages: the form exists on the setup
  page; the interview page loads once, when it is mounted; the answer field and the
  submit control are rendered when the page has loaded, an interview is set, the
  current question is not empty and no generation is running.
\<close>

datatype event =
    visit route
  | form_click setup_click
  | start reply
  | load fetch_env
  | type_answer string
  | submit reply reply

definition answering :: "world \<Rightarrow> bool" where
  "answering w =
     ((case location w of InterviewRoute i \<Rightarrow> True | other \<Rightarrow> False) \<and>
      \<not> isLoading (view w) \<and> interview (view w) \<noteq> None \<and>
      currentQuestion (view w) \<noteq> [] \<and> \<not> isGenerating (view w))"

fun step :: "js_runtime \<Rightarrow> event \<Rightarrow> world \<Rightarrow> world" where
  "step rt (visit r) w = w\<lparr>location := r, form := initial_form, view := initial_page\<rparr>"
| "step rt (form_click c) w =
     (if location w = SetupRoute then w\<lparr>form := click c (form w)\<rparr> else w)"
| "step rt (start r) w =
     (if location w = SetupRoute then handleStartInterview r w else w)"
| "step rt (load e) w =
     (case location w of
        InterviewRoute i \<Rightarrow> (if isLoading (view w) then fetchInterview rt e i w else w)
      | other \<Rightarrow> w)"
| "step rt (type_answer s) w =
     (if answering w then w\<lparr>view := (view w)\<lparr>userAnswer := s\<rparr>\<rparr> else w)"
| "step rt (submit r r') w =
     (if answering w then handleSubmitAnswer rt r r' w else w)"

definition initial_world :: "string \<Rightarrow> world" where
  "initial_world u =
     \<lparr>store = \<lparr>interviews = [], questions = [], answers = []\<rparr>, location = DashboardRoute,
      form = initial_form, view = initial_page, toast = None, user = u\<rparr>"

definition run :: "js_runtime \<Rightarrow> string \<Rightarrow> event list \<Rightarrow> world" where
  "run rt u evs = foldl (\<lambda>w ev. step rt ev w) (initial_world u) evs"

inductive reachable :: "js_runtime \<Rightarrow> world \<Rightarrow> bool" for rt :: js_runtime where
  start_up: "reachable rt (initial_world u)"
| after: "reachable rt w \<Longrightarrow> reachable rt (step rt ev w)"

section \<open>The generation proxy endpoint\<close>

text \<open>
  The handler given to \<^verbatim>\<open>serve\<close>. Its inputs are the request (the method, and the body
  as \<^verbatim>\<open>req.json()\<close> gives it, or the message of the error it throws), the API key of
  the environment, and what the call of the AI gateway does: it throws, or it returns a
  response with a status, a text and a JSON body, each of which can throw when read.
  The prompts are built from the body and sent to the gateway; they have no part in how
  its response is mapped and are not modelled.
\<close>

record gateway_response =
  gw_status :: nat
  gw_text :: "string + string"
  gw_json :: "string + js_value"

datatype fetch_result = fetch_throws string | fetch_returns gateway_response

record http_request =
  req_method :: string
  req_json :: "string + ai_request"

record serve_env =
  LOVABLE_API_KEY :: "string option"
  gateway :: fetch_result
  type_error_message :: string

datatype response_body = no_body | error_body string | result_body js_value

record http_response =
  resp_status :: nat
  resp_body :: response_body

text \<open>\<^verbatim>\<open>response.ok\<close>\<close>

definition ok :: "gateway_response \<Rightarrow> bool" where
  "ok resp = (200 \<le> gw_status resp \<and> gw_status resp \<le> 299)"

definition nullish :: "js_value \<Rightarrow> bool" where
  "nullish v = (v = JUndefined \<or> v = JNull)"

text \<open>\<^verbatim>\<open>v[0]\<close> for a value that is neither \<^verbatim>\<open>null\<close> nor \<^verbatim>\<open>undefined\<close>.\<close>

fun index0 :: "js_value \<Rightarrow> js_value" where
  "index0 (JArr xs) = (case xs of [] \<Rightarrow> JUndefined | x # ys \<Rightarrow> x)"
| "index0 (JStr s) = (case s of [] \<Rightarrow> JUndefined | c # cs \<Rightarrow> JStr [c])"
| "index0 (JObj kvs) = (case map_of kvs ''0'' of None \<Rightarrow> JUndefined | Some v \<Rightarrow> v)"
| "index0 v = JUndefined"

text \<open>\<^verbatim>\<open>data.choices?.[0]?.message?.content\<close>\<close>

definition content_of :: "js_value \<Rightarrow> js_error + js_value" where
  "content_of data =
     (case get_prop data ''choices'' of
        Inl e \<Rightarrow> Inl e
      | Inr choices \<Rightarrow>
          if nullish choices then Inr JUndefined
          else if nullish (index0 choices) then Inr JUndefined
          else
            (case get_prop (index0 choices) ''message'' of
               Inl e \<Rightarrow> Inl e
             | Inr msg \<Rightarrow> if nullish msg then Inr JUndefined else get_prop msg ''content''))"

text \<open>
  The \<^verbatim>\<open>try\<close> block: \<open>Inl\<close> is the message of the error thrown, \<open>Inr\<close> the response
  returned.
\<close>

definition forward :: "serve_env \<Rightarrow> http_request \<Rightarrow> string + http_response" where
  "forward env req =
     (if LOVABLE_API_KEY env = None \<or> LOVABLE_API_KEY env = Some []
      then Inl ''LOVABLE_API_KEY is not configured''
      else
        (case req_json req of
           Inl m \<Rightarrow> Inl m
         | Inr body \<Rightarrow>
             (case gateway env of
                fetch_throws m \<Rightarrow> Inl m
              | fetch_returns response \<Rightarrow>
                  if \<not> ok response
                  then
                    if gw_status response = 429
                    then Inr \<lparr>resp_status = 429,
                              resp_body = error_body ''Rate limit exceeded. Please try again in a moment.''\<rparr>
                    else if gw_status response = 402
                    then Inr \<lparr>resp_status = 402,
                              resp_body = error_body ''AI credits exhausted. Please add more credits.''\<rparr>
                    else
                      (case gw_text response of
                         Inl m \<Rightarrow> Inl m
                       | Inr errorText \<Rightarrow> Inl (''AI gateway error: '' @ show_nat (gw_status response)))
                  else
                    (case gw_json response of
                       Inl m \<Rightarrow> Inl m
                     | Inr data \<Rightarrow>
                         (case content_of data of
                            Inl e \<Rightarrow> Inl (type_error_message env)
                          | Inr content \<Rightarrow>
                              if \<not> truthy content then Inl ''No content in AI response''
                              else Inr \<lparr>resp_status = 200, resp_body = result_body content\<rparr>)))))"

text \<open>The handler: the preflight, the \<^verbatim>\<open>try\<close> block, and the \<^verbatim>\<open>catch\<close> block.\<close>

definition serve_handler :: "serve_env \<Rightarrow> http_request \<Rightarrow> http_response" where
  "serve_handler env req =
     (if req_method req = ''OPTIONS'' then \<lparr>resp_status = 200, resp_body = no_body\<rparr>
      else
        (case forward env req of
           Inl m \<Rightarrow>
             \<lparr>resp_status = 500,
              resp_body = error_body (if m = [] then ''Unknown error occurred'' else m)\<rparr>
         | Inr resp \<Rightarrow> resp))"

section \<open>Observations and example data\<close>

text \<open>
  The number of answered questions of an interview and the order indices of its
  questions, as the query of the page reads them back.
\<close>

definition answered_count :: "db \<Rightarrow> string \<Rightarrow> nat" where
  "answered_count d i = length (filter (\<lambda>qa. snd qa \<noteq> []) (select_questions d i))"

definition question_orders :: "db \<Rightarrow> string \<Rightarrow> int list" where
  "question_orders d i = map (\<lambda>qa. question_order (fst qa)) (select_questions d i)"

text \<open>
  The sum of a list of doubles, added from the left, each partial sum rounded to a double,
  and their mean in doubles.
\<close>

definition double_sum :: "rat list \<Rightarrow> js_value" where
  "double_sum scores = foldl num_plus (JNum 0) (map JNum scores)"

definition double_mean :: "rat list \<Rightarrow> js_value" where
  "double_mean scores = js_divide (double_sum scores) (of_nat (length scores))"

text \<open>
  The data of the examples. \<open>graded\<close> is the reply \<^verbatim>\<open>{"score": 7.25, "feedback": "Good"}\<close>.
  The run time of the examples parses this reply and the three texts \<^verbatim>\<open>null\<close>, \<^verbatim>\<open>{}\<close>
  and \<^verbatim>\<open>7\<close> as JavaScript does and rejects the other texts used, none of which is JSON.
  It concatenates and reads as a number the values of the one example that adds a string,
  \<^verbatim>\<open>0 + "8"\<close> and \<^verbatim>\<open>"08" + 6\<close>; no example sends the database a value that needs one of
  its three conversions.
\<close>

abbreviation quoted :: "string \<Rightarrow> string" where
  "quoted s \<equiv> CHR 0x22 # s @ [CHR 0x22]"

abbreviation graded :: string where
  "graded \<equiv> ''{'' @ quoted ''score'' @ '': 7.25, '' @ quoted ''feedback'' @ '': '' @ quoted ''Good'' @ ''}''"

abbreviation demo_text :: "js_value \<Rightarrow> string" where
  "demo_text v \<equiv>
     (case v of JStr s \<Rightarrow> s | JNum a \<Rightarrow> (if a = 0 then ''0'' else ''6'') | other \<Rightarrow> [])"

abbreviation demo_runtime :: js_runtime where
  "demo_runtime \<equiv>
     \<lparr>JSON_parse = (\<lambda>s. if s = ''null'' then Some JNull
                         else if s = ''{}'' then Some (JObj [])
                         else if s = ''7'' then Some (JNum 7)
                         else if s = graded
                         then Some (JObj [(''score'', JNum (29 / 4)), (''feedback'', JStr ''Good'')])
                         else None),
      string_concat = (\<lambda>a b. demo_text a @ demo_text b),
      string_to_number = (\<lambda>s. if s = ''086'' then JNum 86 else JNaN),
      numeric_in = (\<lambda>s. None), json_text = (\<lambda>v. []), text_array_in = (\<lambda>v. None)\<rparr>"

abbreviation says :: "string \<Rightarrow> string \<Rightarrow> reply" where
  "says reply_text new_id \<equiv> \<lparr>invoke = (\<lambda>request. Ok reply_text), written = Ok new_id, now = ''T''\<rparr>"

abbreviation service_down :: reply where
  "service_down \<equiv> \<lparr>invoke = (\<lambda>request. Failed), written = Failed, now = ''T''\<rparr>"

abbreviation reads_ok :: "reply \<Rightarrow> fetch_env" where
  "reads_ok r \<equiv> \<lparr>interview_read = True, questions_read = True, follow = r\<rparr>"

abbreviation scored :: "rat \<Rightarrow> QA" where
  "scored s \<equiv>
     \<lparr>question = ''Q'', questionId = ''q'', answer = ''A'', answerId = None,
      feedback = JStr ''fine'', qa_score = JNum s\<rparr>"

abbreviation demo_interview :: interview_row where
  "demo_interview \<equiv>
     \<lparr>i_id = ''i1'', user_id = ''u1'', job_role = ''Data Scientist'', difficulty = mid,
      interview_type = behavioral, total_questions = 5, status = in_progress,
      overall_score = JNull, strengths = JNull, improvements = JNull, created_at = ''T'',
      completed_at = JNull\<rparr>"

abbreviation demo_question :: question_row where
  "demo_question \<equiv>
     \<lparr>q_id = ''q1'', interview_id = ''i1'', question_text = ''Tell me about a project.'',
      question_order = 1\<rparr>"

abbreviation demo_form :: setup_form where
  "demo_form \<equiv>
     \<lparr>jobRole = ''Data Scientist'', customRole = [], interviewType = behavioral,
      difficulty_state = mid, questionCount = 5\<rparr>"

text \<open>The first question of a new interview is on the screen and an answer is typed.\<close>

abbreviation demo_world :: world where
  "demo_world \<equiv>
     \<lparr>store = \<lparr>interviews = [demo_interview], questions = [demo_question], answers = []\<rparr>,
      location = InterviewRoute ''i1'', form = demo_form,
      view = \<lparr>interview = Some demo_interview, qaHistory = [],
               currentQuestion = ''Tell me about a project.'', currentQuestionId = ''q1'',
               userAnswer = ''I built a model.'', isLoading = False, isGenerating = False,
               isSubmitting = False, questionNumber = 1\<rparr>,
      toast = Some ''Get ready for your mock interview.'', user = ''u1''\<rparr>"

abbreviation gateway_says :: "nat \<Rightarrow> js_value \<Rightarrow> serve_env" where
  "gateway_says s data \<equiv>
     \<lparr>LOVABLE_API_KEY = Some ''key'',
      gateway = fetch_returns \<lparr>gw_status = s, gw_text = Inr ''body'', gw_json = Inr data\<rparr>,
      type_error_message = ''Cannot read properties of null''\<rparr>"

abbreviation demo_request :: http_request where
  "demo_request \<equiv>
     \<lparr>req_method = ''POST'',
      req_json = Inr (evaluate_answer ''Data Scientist'' mid behavioral ''Q'' ''A'')\<rparr>"

abbreviation demo_answer :: answer_row where
  "demo_answer \<equiv>
     \<lparr>a_id = ''a1'', question_id = ''q1'', answer_text = ''I built a model.'',
      ai_feedback = JStr ''Good answer'', score = JNum 5\<rparr>"

abbreviation demo_turn :: QA where
  "demo_turn \<equiv>
     \<lparr>question = ''Tell me about a project.'', questionId = ''q1'',
      answer = ''I built a model.'', answerId = Some ''a1'', feedback = JStr ''Good answer'',
      qa_score = JNum 5\<rparr>"

text \<open>The page has just been mounted for the example interview: nothing is loaded yet.\<close>

abbreviation mounted :: "interview_row \<Rightarrow> answer_row list \<Rightarrow> world" where
  "mounted iv as \<equiv>
     \<lparr>store = \<lparr>interviews = [iv], questions = [demo_question], answers = as\<rparr>,
      location = InterviewRoute ''i1'', form = initial_form, view = initial_page,
      toast = None, user = ''u1''\<rparr>"

text \<open>
  What holds of the table of interviews in every world the workflow reaches, and how one
  event can change the table: not at all, by one new row in progress, or by completing
  one row in progress.
\<close>

definition aggregates_null :: "interview_row \<Rightarrow> bool" where
  "aggregates_null row =
     (overall_score row = JNull \<and> strengths row = JNull \<and> improvements row = JNull \<and>
      completed_at row = JNull)"

definition created_from :: "interview_row list \<Rightarrow> interview_row list \<Rightarrow> bool" where
  "created_from rows rows' =
     (\<exists>row. rows' = rows @ [row] \<and> status row = in_progress \<and> aggregates_null row)"

definition finalized_from :: "interview_row list \<Rightarrow> interview_row list \<Rightarrow> bool" where
  "finalized_from rows rows' =
     (\<exists>pre row post sc st im ts.
        rows = pre @ [row] @ post \<and> status row = in_progress \<and> aggregates_null row \<and>
        rows' = pre @ [row\<lparr>status := completed, overall_score := sc, strengths := st,
                           improvements := im, completed_at := JStr ts\<rparr>] @ post)"

definition consistent :: "world \<Rightarrow> bool" where
  "consistent w =
     (distinct (map i_id (interviews (store w))) \<and>
      (\<forall>row\<in>set (interviews (store w)).
         status row = completed \<or> (status row = in_progress \<and> aggregates_null row)) \<and>
      (\<forall>i iv. location w = InterviewRoute i \<and> interview (view w) = Some iv \<longrightarrow>
         iv \<in> set (interviews (store w)) \<and> status iv = in_progress))"

definition moves :: "interview_row list \<Rightarrow> interview_row list \<Rightarrow> bool" where
  "moves rows rows' = (rows' = rows \<or> created_from rows rows' \<or> finalized_from rows rows')"

text \<open>
  The questions of an interview and the answers of a question, in the order of their
  insertion, and what holds of them on the runs in which every read of the questions
  succeeds: the order indices of an interview count up from 1, every question but the last
  has an answer, no question has two, there are at most \<^verbatim>\<open>total_questions\<close> questions, and
  a completed interview has all of them, all answered. When a question is on the screen,
  it is the last of its interview and has no answer, and the history holds the turns
  before it.
\<close>

definition qs_of :: "db \<Rightarrow> string \<Rightarrow> question_row list" where
  "qs_of d i = filter (\<lambda>q. interview_id q = i) (questions d)"

definition as_of :: "db \<Rightarrow> string \<Rightarrow> answer_row list" where
  "as_of d c = filter (\<lambda>a. question_id a = c) (answers d)"

definition orderly_row :: "db \<Rightarrow> interview_row \<Rightarrow> bool" where
  "orderly_row d r =
     (map question_order (qs_of d (i_id r)) = [1..int (length (qs_of d (i_id r)))] \<and>
      (\<forall>q\<in>set (qs_of d (i_id r)). length (as_of d (q_id q)) \<le> 1) \<and>
      (\<forall>q\<in>set (butlast (qs_of d (i_id r))). as_of d (q_id q) \<noteq> []) \<and>
      0 < total_questions r \<and>
      int (length (qs_of d (i_id r))) \<le> total_questions r \<and>
      (status r = completed \<longrightarrow>
         qs_of d (i_id r) \<noteq> [] \<and> as_of d (q_id (last (qs_of d (i_id r)))) \<noteq> [] \<and>
         int (length (qs_of d (i_id r))) = total_questions r))"

definition orderly_store :: "db \<Rightarrow> bool" where
  "orderly_store d =
     (distinct (map q_id (questions d)) \<and>
      (\<forall>q\<in>set (questions d). interview_id q \<in> set (map i_id (interviews d))) \<and>
      (\<forall>a\<in>set (answers d). question_id a \<in> set (map q_id (questions d))) \<and>
      (\<forall>r\<in>set (interviews d). orderly_row d r))"

definition orderly :: "world \<Rightarrow> bool" where
  "orderly w =
     (consistent w \<and> orderly_store (store w) \<and> questionCount (form w) \<in> {5, 10, 15} \<and>
      (isLoading (view w) \<longrightarrow> view w = initial_page) \<and>
      (\<forall>i iv. location w = InterviewRoute i \<and> interview (view w) = Some iv \<longrightarrow>
         i_id iv = i \<and>
         (currentQuestion (view w) \<noteq> [] \<longrightarrow>
            qs_of (store w) i \<noteq> [] \<and>
            as_of (store w) (q_id (last (qs_of (store w) i))) = [] \<and>
            q_id (last (qs_of (store w) i)) = currentQuestionId (view w) \<and>
            Suc (length (qaHistory (view w))) = length (qs_of (store w) i))))"

fun reads :: "event \<Rightarrow> bool" where
  "reads (load e) = questions_read e"
| "reads ev = True"

inductive reading :: "js_runtime \<Rightarrow> world \<Rightarrow> bool" for rt :: js_runtime where
  reading_start: "reading rt (initial_world u)"
| reading_after: "reading rt w \<Longrightarrow> reads ev \<Longrightarrow> reading rt (step rt ev w)"

text \<open>
  Three runs of the workflow: an interview of five turns up to the last answer, typed and
  not yet submitted; a reload of the page during which the read of the questions fails;
  and an interview in which one turn is answered, the page is reloaded with that failing
  read, and five more turns are answered.
\<close>

abbreviation reads_questions_fail :: "reply \<Rightarrow> fetch_env" where
  "reads_questions_fail r \<equiv> \<lparr>interview_read = True, questions_read = False, follow = r\<rparr>"

text \<open>A service that answers the request for question 1 of 5 with no previous question, and no other.\<close>

abbreviation asks_first :: reply where
  "asks_first \<equiv>
     \<lparr>invoke = (\<lambda>request.
         if request = generate_question ''Data Scientist'' mid behavioral 1 5 []
         then Ok ''Again?'' else Failed),
      written = Ok ''q2'', now = ''T''\<rparr>"

abbreviation five_turns :: "event list" where
  "five_turns \<equiv>
     [visit SetupRoute, form_click (pick_role 2), start (says [] ''i1''),
      load (reads_ok (says ''Question one?'' ''q1'')),
      type_answer ''One'', submit (says ''Good'' ''a1'') (says ''Question two?'' ''q2''),
      type_answer ''Two'', submit (says ''Good'' ''a2'') (says ''Question three?'' ''q3''),
      type_answer ''Three'', submit (says ''Good'' ''a3'') (says ''Question four?'' ''q4''),
      type_answer ''Four'', submit (says ''Good'' ''a4'') (says ''Question five?'' ''q5''),
      type_answer ''Five'']"

abbreviation reload_unread :: "event list" where
  "reload_unread \<equiv>
     [visit SetupRoute, form_click (pick_role 2), start (says [] ''i1''),
      load (reads_ok (says ''First question?'' ''q1'')),
      visit (InterviewRoute ''i1''),
      load (reads_questions_fail (says ''Another question?'' ''q2''))]"

abbreviation six_turns :: "event list" where
  "six_turns \<equiv>
     [visit SetupRoute, form_click (pick_role 2), start (says [] ''i1''),
      load (reads_ok (says ''First question?'' ''q1'')),
      type_answer ''One'', submit (says ''Good'' ''a1'') (says ''Second question?'' ''q2''),
      visit (InterviewRoute ''i1''),
      load (reads_questions_fail (says ''Question A?'' ''q3'')),
      type_answer ''A'', submit (says ''Good'' ''a3'') (says ''Question B?'' ''q4''),
      type_answer ''B'', submit (says ''Good'' ''a4'') (says ''Question C?'' ''q5''),
      type_answer ''C'', submit (says ''Good'' ''a5'') (says ''Question D?'' ''q6''),
      type_answer ''D'', submit (says ''Good'' ''a6'') (says ''Question E?'' ''q7''),
      type_answer ''E'', submit (says ''Good'' ''a7'') (says ''{}'' ''ok'')]"

section \<open>Properties\<close>

subsection \<open>Evaluating the arithmetic\<close>

lemma floor_rat_numeral [simp]:
  "\<lfloor>numeral a / numeral b :: rat\<rfloor> = numeral a div numeral b"
  using floor_divide_of_int_eq [of "numeral a" "numeral b", where ?'a = rat] by simp

lemma floor_rat_neg_numeral [simp]:
  "\<lfloor>- (numeral a / numeral b) :: rat\<rfloor> = - numeral a div numeral b"
  using floor_divide_of_int_eq [of "- numeral a" "numeral b", where ?'a = rat] by simp

lemmas double_defs =
  ilog2.simps pow2_def nearest_even_def binary64_def number_def two_places_def json_number_def
  numeric_3_1_def Let_def

lemma number_5 [simp]: "number 5 = JNum 5"
  by (simp add: double_defs)

lemma decimal_5 [simp]: "numeric_3_1 (json_number 5) = Some (JNum 5)"
  by (simp add: double_defs)

lemma decimal_7 [simp]: "numeric_3_1 (json_number 7) = Some (JNum 7)"
  by (simp add: double_defs)

lemmas model_defs =
  run_def initial_world_def initial_form_def initial_page_def answering_def
  handleStartInterview_def fetchInterview_def generateNextQuestion_def generateFinalFeedback_def
  handleSubmitAnswer_def existingQA_def evaluation_def final_feedback_def
  select_interview_def select_questions_def insert_interview_def insert_question_def
  insert_answer_def update_interview_def set_interview_def field_def js_or_def
  trim_def is_space_def jobRoles_def questionCounts_def Let_def

text \<open>The example world is the state after a user has set up an interview and typed an answer.\<close>

lemma demo_world_run:
  "run demo_runtime ''u1''
     [visit SetupRoute, form_click (pick_role 2), start (says [] ''i1''),
      load (reads_ok (says '' Tell me about a project. '' ''q1'')),
      type_answer ''I built a model.''] = demo_world"
  by (simp add: model_defs)

subsection \<open>What the follow-up calls leave alone\<close>

lemma generateNextQuestion_answers:
  "answers (store (generateNextQuestion r iv h w)) = answers (store w)"
  by (simp add: generateNextQuestion_def Let_def insert_question_def split: outcome.splits)

lemma generateNextQuestion_qaHistory:
  "qaHistory (view (generateNextQuestion r iv h w)) = qaHistory (view w)"
  by (simp add: generateNextQuestion_def Let_def split: outcome.splits)

lemma update_interview_Ok:
  assumes "update_interview rt d i st sc str imp ts = Ok d'"
  shows "\<exists>sc' str' imp'. d' = set_interview d i st sc' str' imp' (JStr ts)"
  using assms by (auto simp: update_interview_def split: option.splits)

lemma generateFinalFeedback_answers:
  "answers (store (generateFinalFeedback rt r iv h w)) = answers (store w)"
  by (auto simp: generateFinalFeedback_def Let_def set_interview_def
      split: outcome.splits prod.splits dest!: update_interview_Ok)

lemma generateFinalFeedback_qaHistory:
  "qaHistory (view (generateFinalFeedback rt r iv h w)) = qaHistory (view w)"
  by (simp add: generateFinalFeedback_def Let_def split: outcome.splits prod.splits)

subsection \<open>Replies that are not JSON\<close>

lemma evaluation_unparsed:
  "JSON_parse rt result = None \<Longrightarrow> evaluation rt result = (JStr result, JNum 5)"
  by (simp add: evaluation_def)

text \<open>
  C3. When the reply to \<^verbatim>\<open>evaluate_answer\<close> does not parse and the insert goes through,
  the submission stores one answer row with the score 5 and the whole reply as its
  feedback, and the history grows by the same turn.
\<close>

theorem C3_malformed_evaluation:
  assumes "interview (view w) = Some iv"
    and "trim (userAnswer (view w)) \<noteq> []"
    and "invoke r (evaluate_answer (job_role iv) (difficulty iv) (interview_type iv)
           (currentQuestion (view w)) (userAnswer (view w))) = Ok result"
    and "JSON_parse rt result = None"
    and "written r = Ok new_id"
    and "new_id \<notin> set (map a_id (answers (store w)))"
    and "currentQuestionId (view w) \<in> set (map q_id (questions (store w)))"
  shows "answers (store (handleSubmitAnswer rt r r' w)) =
           answers (store w) @
             [\<lparr>a_id = new_id, question_id = currentQuestionId (view w),
               answer_text = userAnswer (view w), ai_feedback = JStr result, score = JNum 5\<rparr>] \<and>
         qaHistory (view (handleSubmitAnswer rt r r' w)) =
           qaHistory (view w) @
             [\<lparr>question = currentQuestion (view w), questionId = currentQuestionId (view w),
               answer = userAnswer (view w), answerId = Some new_id, feedback = JStr result,
               qa_score = JNum 5\<rparr>]"
  using assms
  by (simp add: handleSubmitAnswer_def Let_def evaluation_unparsed insert_answer_def
      generateNextQuestion_answers generateNextQuestion_qaHistory
      generateFinalFeedback_answers generateFinalFeedback_qaHistory)

theorem C3_malformed_evaluation_witness:
  "interview (view demo_world) = Some demo_interview \<and>
   trim (userAnswer (view demo_world)) \<noteq> [] \<and>
   JSON_parse demo_runtime ''Good answer'' = None \<and>
   answers (store (handleSubmitAnswer demo_runtime (says ''Good answer'' ''a1'')
                     (says ''Next?'' ''q2'') demo_world)) =
     [\<lparr>a_id = ''a1'', question_id = ''q1'', answer_text = ''I built a model.'',
       ai_feedback = JStr ''Good answer'', score = JNum 5\<rparr>] \<and>
   qaHistory (view (handleSubmitAnswer demo_runtime (says ''Good answer'' ''a1'')
                      (says ''Next?'' ''q2'') demo_world)) =
     [\<lparr>question = ''Tell me about a project.'', questionId = ''q1'',
       answer = ''I built a model.'', answerId = Some ''a1'', feedback = JStr ''Good answer'',
       qa_score = JNum 5\<rparr>]"
  using C3_malformed_evaluation [of demo_world demo_interview "says ''Good answer'' ''a1''"
      "''Good answer''" demo_runtime "''a1''" "says ''Next?'' ''q2''"]
  by (simp add: trim_def is_space_def)

subsection \<open>The mean of the scores\<close>

lemma is_number_number: "is_number (number x)"
  by (simp add: number_def)

lemma is_number_plus: "is_number (num_plus a b)"
  by (cases a; cases b) (simp_all add: is_number_number)

lemma to_number_number: "is_number a \<Longrightarrow> to_number rt a = a"
  by (cases a) simp_all

lemma is_number_stringy: "is_number a \<Longrightarrow> \<not> is_stringy a"
  by (cases a) simp_all

lemma sum_scores_numbers:
  "is_number acc \<Longrightarrow>
   map (\<lambda>qa. js_or (qa_score qa) (JNum 5)) history = map JNum scores \<Longrightarrow>
   foldl (\<lambda>sum qa. js_plus rt sum (js_or (qa_score qa) (JNum 5))) acc history =
     foldl num_plus acc (map JNum scores)"
proof (induction history arbitrary: acc scores)
  case Nil
  then show ?case by simp
next
  case (Cons qa history)
  then obtain s rest where sc: "scores = s # rest" by (cases scores) auto
  with Cons.prems have hd: "js_or (qa_score qa) (JNum 5) = JNum s"
    and tl: "map (\<lambda>qa. js_or (qa_score qa) (JNum 5)) history = map JNum rest"
    by auto
  have step: "js_plus rt acc (JNum s) = num_plus acc (JNum s)"
    using Cons.prems(1) by (simp add: js_plus_def is_number_stringy to_number_number)
  show ?case
    using Cons.IH [OF is_number_plus tl, of acc "JNum s"] hd sc step by simp
qed

lemma is_number_foldl: "is_number acc \<Longrightarrow> is_number (foldl num_plus acc vs)"
  by (induction vs arbitrary: acc) (simp_all add: is_number_plus)

lemma avgScore_numbers:
  assumes "map (\<lambda>qa. js_or (qa_score qa) (JNum 5)) history = map JNum scores"
  shows "avgScore rt history = double_mean scores"
proof -
  have len: "length history = length scores"
    using assms by (metis length_map)
  have "sum_scores rt history = double_sum scores"
    using sum_scores_numbers [OF _ assms, of "JNum 0" rt] by (simp add: sum_scores_def double_sum_def)
  moreover have "is_number (double_sum scores)"
    unfolding double_sum_def by (rule is_number_foldl) simp
  ultimately show ?thesis
    by (simp add: avgScore_def double_mean_def to_number_number len)
qed

lemma final_feedback_unparsed:
  "JSON_parse rt result = None \<Longrightarrow>
   final_feedback rt result history = (rounded (avgScore rt history), JArr [], JArr [])"
  by (simp add: final_feedback_def)

lemma is_number_divide: "is_number (js_divide v c)"
  by (cases v) (simp_all add: is_number_number)

lemma is_number_rounded: "is_number (rounded v)"
  by (simp add: rounded_def is_number_divide)

lemma is_number_defined: "is_number v \<Longrightarrow> v \<noteq> JUndefined"
  by auto

text \<open>The update that the \<^verbatim>\<open>catch\<close> block of the final feedback leads to.\<close>

lemma generateFinalFeedback_mean:
  assumes "invoke r (generate_feedback (job_role iv) (difficulty iv) (interview_type iv)
             (map (\<lambda>qa. (question qa, answer qa, js_or (qa_score qa) (JNum 5))) history)) = Ok result"
    and "final_feedback rt result history = (rounded (avgScore rt history), JArr [], JArr [])"
    and "written r = Ok u"
  shows "case decimal_3_1 rt (rounded (avgScore rt history)) of
           None \<Rightarrow> store (generateFinalFeedback rt r iv history w) = store w
         | Some sc \<Rightarrow>
             interviews (store (generateFinalFeedback rt r iv history w)) =
               map (\<lambda>row. if i_id row = i_id iv
                           then row\<lparr>status := completed, overall_score := sc,
                                    strengths := JArr [], improvements := JArr [],
                                    completed_at := JStr (now r)\<rparr>
                           else row)
                 (interviews (store w))"
proof -
  have "rounded (avgScore rt history) \<noteq> JUndefined"
    using is_number_rounded by (rule is_number_defined)
  then show ?thesis using assms
    by (simp add: generateFinalFeedback_def Let_def update_interview_def set_interview_def
        field_def split: option.splits)
qed

lemma round1_7: "round1 ((8 + 6 + 7) / 3) = 7"
  by (simp add: round1_def)

lemma mean_8_6_7: "rounded (avgScore rt [scored 8, scored 6, scored 7]) = JNum 7"
  by (simp add: rounded_def avgScore_def sum_scores_def js_plus_def js_or_def double_defs)

lemma mean_76_87:
  "rounded (avgScore rt [scored (binary64 (76 / 10)), scored (binary64 (87 / 10))]) =
     JNum (binary64 (81 / 10))"
  by (simp add: rounded_def avgScore_def sum_scores_def js_plus_def js_or_def double_defs)

lemma mean_quoted:
  "rounded (avgScore demo_runtime [(scored 8)\<lparr>qa_score := JStr ''8''\<rparr>, scored 6]) = JNum 43"
  by (simp add: rounded_def avgScore_def sum_scores_def js_plus_def js_or_def double_defs)

lemma decimal_81: "numeric_3_1 (json_number (binary64 (81 / 10))) = Some (JNum (81 / 10))"
  by (simp add: double_defs)

lemma decimal_43: "numeric_3_1 (json_number 43) = Some (JNum 43)"
  by (simp add: double_defs)

text \<open>
  C4, as amended. When the reply to \<^verbatim>\<open>generate_feedback\<close> does not parse and the database
  answers the update, the overall score is \<^verbatim>\<open>Math.round(avgScore * 10) / 10\<close>, and the
  interview is completed with what the column makes of it and with empty lists of
  strengths and improvements, or is left as it was when the column rejects it. When the
  scores of the turns, \<^verbatim>\<open>qa.score || 5\<close>, are numbers, \<^verbatim>\<open>avgScore\<close> is their mean in the
  arithmetic of doubles: the sum from the left, each partial sum rounded, divided by their
  count. The witness is the history with the scores 8, 6 and 7, whose overall score is 7.
\<close>

theorem C4_fallback_mean:
  assumes "invoke r (generate_feedback (job_role iv) (difficulty iv) (interview_type iv)
             (map (\<lambda>qa. (question qa, answer qa, js_or (qa_score qa) (JNum 5))) history)) = Ok result"
    and "JSON_parse rt result = None"
    and "written r = Ok u"
  shows "(case decimal_3_1 rt (rounded (avgScore rt history)) of
            None \<Rightarrow> store (generateFinalFeedback rt r iv history w) = store w
          | Some sc \<Rightarrow>
              interviews (store (generateFinalFeedback rt r iv history w)) =
                map (\<lambda>row. if i_id row = i_id iv
                            then row\<lparr>status := completed, overall_score := sc,
                                     strengths := JArr [], improvements := JArr [],
                                     completed_at := JStr (now r)\<rparr>
                            else row)
                  (interviews (store w))) \<and>
         (map (\<lambda>qa. js_or (qa_score qa) (JNum 5)) history = map JNum scores \<longrightarrow>
            avgScore rt history = double_mean scores)"
proof (intro conjI impI)
  show "case decimal_3_1 rt (rounded (avgScore rt history)) of
            None \<Rightarrow> store (generateFinalFeedback rt r iv history w) = store w
          | Some sc \<Rightarrow>
              interviews (store (generateFinalFeedback rt r iv history w)) =
                map (\<lambda>row. if i_id row = i_id iv
                            then row\<lparr>status := completed, overall_score := sc,
                                     strengths := JArr [], improvements := JArr [],
                                     completed_at := JStr (now r)\<rparr>
                            else row)
                  (interviews (store w))"
    using assms(1) final_feedback_unparsed [OF assms(2)] assms(3)
    by (rule generateFinalFeedback_mean)
next
  assume "map (\<lambda>qa. js_or (qa_score qa) (JNum 5)) history = map JNum scores"
  then show "avgScore rt history = double_mean scores"
    by (rule avgScore_numbers)
qed

theorem C4_fallback_mean_witness:
  "JSON_parse demo_runtime ''Well done overall'' = None \<and>
   map (\<lambda>qa. js_or (qa_score qa) (JNum 5)) [scored 8, scored 6, scored 7] = map JNum [8, 6, 7] \<and>
   avgScore demo_runtime [scored 8, scored 6, scored 7] = double_mean [8, 6, 7] \<and>
   double_mean [8, 6, 7] = JNum 7 \<and>
   interviews (store (generateFinalFeedback demo_runtime (says ''Well done overall'' ''ok'')
                        demo_interview [scored 8, scored 6, scored 7] demo_world)) =
     [demo_interview\<lparr>status := completed, overall_score := JNum 7, strengths := JArr [],
                      improvements := JArr [], completed_at := JStr ''T''\<rparr>]"
  using C4_fallback_mean [of "says ''Well done overall'' ''ok''" demo_interview
      "[scored 8, scored 6, scored 7]" "''Well done overall''" demo_runtime "''ok''"
      demo_world "[8, 6, 7]"] mean_8_6_7 [of demo_runtime]
  by (simp add: js_or_def double_mean_def double_sum_def double_defs)

text \<open>
  The claim C4 as it is written fails for scores that are not whole numbers and for a
  score that is a string. The scores 7.6 and 8.7 have the mean 8.15, which rounds to 8.2;
  the doubles for 7.6 and 8.7 add up to a double below 16.3, and the code stores 8.1. A
  reply \<^verbatim>\<open>{"score": "8"}\<close> puts the string \<^verbatim>\<open>"8"\<close> in the history; with a second score 6
  the sum is the string \<^verbatim>\<open>"086"\<close>, and the code stores 43 where the mean is 7.
\<close>

theorem C4_double_mean_counterexample:
  "interviews (store (generateFinalFeedback demo_runtime (says ''Well done overall'' ''ok'')
                        demo_interview [scored (binary64 (76 / 10)), scored (binary64 (87 / 10))]
                        demo_world)) =
     [demo_interview\<lparr>status := completed, overall_score := JNum (81 / 10), strengths := JArr [],
                      improvements := JArr [], completed_at := JStr ''T''\<rparr>] \<and>
   round1 ((76 / 10 + 87 / 10) / 2) = 82 / 10 \<and>
   interviews (store (generateFinalFeedback demo_runtime (says ''Well done overall'' ''ok'')
                        demo_interview [(scored 8)\<lparr>qa_score := JStr ''8''\<rparr>, scored 6]
                        demo_world)) =
     [demo_interview\<lparr>status := completed, overall_score := JNum 43, strengths := JArr [],
                      improvements := JArr [], completed_at := JStr ''T''\<rparr>] \<and>
   round1 ((8 + 6) / 2) = 7"
  by (simp add: generateFinalFeedback_def final_feedback_def update_interview_def
      set_interview_def field_def mean_76_87 [simplified] mean_quoted [simplified] decimal_81 [simplified]
      decimal_43 round1_def)

subsection \<open>Replies that are JSON\<close>

lemma evaluation_parsed:
  assumes "JSON_parse rt result = Some parsed"
  shows "parsed = JNull \<or> parsed = JUndefined \<Longrightarrow> evaluation rt result = (JStr result, JNum 5)"
    and "get_prop parsed ''feedback'' = Inr f \<Longrightarrow> get_prop parsed ''score'' = Inr sc \<Longrightarrow>
         evaluation rt result = (if truthy f then f else JStr result, if truthy sc then sc else JNum 5)"
  using assms by (auto simp: evaluation_def js_or_def)

lemma final_feedback_parsed:
  assumes "JSON_parse rt result = Some parsed"
  shows "parsed = JNull \<or> parsed = JUndefined \<Longrightarrow>
         final_feedback rt result history = (rounded (avgScore rt history), JArr [], JArr [])"
    and "get_prop parsed ''overallScore'' = Inr ov \<Longrightarrow> get_prop parsed ''strengths'' = Inr st \<Longrightarrow>
         get_prop parsed ''improvements'' = Inr im \<Longrightarrow>
         final_feedback rt result history =
           (if truthy ov then ov else JNum 5, if truthy st then st else JArr [],
            if truthy im then im else JArr [])"
  using assms by (auto simp: final_feedback_def js_or_def)

text \<open>The row that a submission stores, from the feedback and the score it has read.\<close>

lemma handleSubmitAnswer_stored:
  assumes "interview (view w) = Some iv"
    and "trim (userAnswer (view w)) \<noteq> []"
    and "invoke r (evaluate_answer (job_role iv) (difficulty iv) (interview_type iv)
           (currentQuestion (view w)) (userAnswer (view w))) = Ok result"
    and "evaluation rt result = (f, sc)"
    and "written r = Ok new_id"
    and "new_id \<notin> set (map a_id (answers (store w)))"
    and "currentQuestionId (view w) \<in> set (map q_id (questions (store w)))"
  shows "case decimal_3_1 rt sc of
           None \<Rightarrow> store (handleSubmitAnswer rt r r' w) = store w
         | Some col \<Rightarrow>
             answers (store (handleSubmitAnswer rt r r' w)) =
               answers (store w) @
                 [\<lparr>a_id = new_id, question_id = currentQuestionId (view w),
                   answer_text = userAnswer (view w), ai_feedback = text_column rt f,
                   score = col\<rparr>]"
  using assms
  by (simp add: handleSubmitAnswer_def Let_def insert_answer_def
      generateNextQuestion_answers generateFinalFeedback_answers split: option.splits)

text \<open>The update that the final feedback makes, from the three values it has read.\<close>

lemma generateFinalFeedback_stored:
  assumes "invoke r (generate_feedback (job_role iv) (difficulty iv) (interview_type iv)
             (map (\<lambda>qa. (question qa, answer qa, js_or (qa_score qa) (JNum 5))) history)) = Ok result"
    and "final_feedback rt result history = (ov, st, im)"
    and "ov \<noteq> JUndefined" and "st \<noteq> JUndefined" and "im \<noteq> JUndefined"
    and "written r = Ok u"
  shows "case (decimal_3_1 rt ov, text_array rt st, text_array rt im) of
           (Some sc, Some sts, Some ims) \<Rightarrow>
             interviews (store (generateFinalFeedback rt r iv history w)) =
               map (\<lambda>row. if i_id row = i_id iv
                           then row\<lparr>status := completed, overall_score := sc,
                                    strengths := sts, improvements := ims,
                                    completed_at := JStr (now r)\<rparr>
                           else row)
                 (interviews (store w))
         | other \<Rightarrow> store (generateFinalFeedback rt r iv history w) = store w"
  using assms
  by (simp add: generateFinalFeedback_def Let_def update_interview_def set_interview_def
      field_def split: option.splits)

lemma truthy_defined: "truthy v \<Longrightarrow> v \<noteq> JUndefined"
  by auto

lemma decimal_725: "numeric_3_1 (json_number (29 / 4)) = Some (JNum (73 / 10))"
  by (simp add: double_defs)

text \<open>
  C9, as amended. A reply to \<^verbatim>\<open>evaluate_answer\<close> parses and the database answers the
  insert. The score written is the field \<^verbatim>\<open>score\<close> when it is truthy and 5 otherwise (for
  0, \<^verbatim>\<open>null\<close>, a missing field, and for the reply \<^verbatim>\<open>null\<close>, whose fields cannot be
  read), and the feedback written is the field \<^verbatim>\<open>feedback\<close> when it is truthy and the whole
  reply otherwise. The row holds what its columns make of the two: the score rounded to
  one decimal place, the feedback itself when it is a string; when the column rejects the
  score, nothing is stored. A reply to \<^verbatim>\<open>generate_feedback\<close> parses and the database
  answers the update. The overall score written is the field \<^verbatim>\<open>overallScore\<close> when it is
  truthy and 5 otherwise, and the interview is completed with what the columns make of it
  and of the two lists, or left as it was when a column rejects its value; for the reply
  \<^verbatim>\<open>null\<close> the overall score is the mean of the \<^verbatim>\<open>catch\<close> block.
\<close>

theorem C9_truthy_defaults:
  assumes "JSON_parse rt result = Some parsed"
  shows "(interview (view w) = Some iv \<and> trim (userAnswer (view w)) \<noteq> [] \<and>
          invoke r (evaluate_answer (job_role iv) (difficulty iv) (interview_type iv)
            (currentQuestion (view w)) (userAnswer (view w))) = Ok result \<and>
          written r = Ok new_id \<and> new_id \<notin> set (map a_id (answers (store w))) \<and>
          currentQuestionId (view w) \<in> set (map q_id (questions (store w))) \<longrightarrow>
            (parsed = JNull \<or> parsed = JUndefined \<longrightarrow>
               answers (store (handleSubmitAnswer rt r r' w)) =
                 answers (store w) @
                   [\<lparr>a_id = new_id, question_id = currentQuestionId (view w),
                     answer_text = userAnswer (view w), ai_feedback = JStr result,
                     score = JNum 5\<rparr>]) \<and>
            (\<forall>f sc. get_prop parsed ''feedback'' = Inr f \<and> get_prop parsed ''score'' = Inr sc \<longrightarrow>
               (case decimal_3_1 rt (if truthy sc then sc else JNum 5) of
                  None \<Rightarrow> store (handleSubmitAnswer rt r r' w) = store w
                | Some col \<Rightarrow>
                    answers (store (handleSubmitAnswer rt r r' w)) =
                      answers (store w) @
                        [\<lparr>a_id = new_id, question_id = currentQuestionId (view w),
                          answer_text = userAnswer (view w),
                          ai_feedback = text_column rt (if truthy f then f else JStr result),
                          score = col\<rparr>]) \<and>
               (\<not> truthy sc \<longrightarrow> decimal_3_1 rt (if truthy sc then sc else JNum 5) = Some (JNum 5)) \<and>
               (\<forall>d. sc = JNum d \<and> d \<noteq> 0 \<longrightarrow>
                  decimal_3_1 rt (if truthy sc then sc else JNum 5) = numeric_3_1 (json_number d)) \<and>
               (\<not> truthy f \<longrightarrow> text_column rt (if truthy f then f else JStr result) = JStr result) \<and>
               (\<forall>s. f = JStr s \<and> s \<noteq> [] \<longrightarrow>
                  text_column rt (if truthy f then f else JStr result) = JStr s))) \<and>
         (invoke r2 (generate_feedback (job_role iv2) (difficulty iv2) (interview_type iv2)
            (map (\<lambda>qa. (question qa, answer qa, js_or (qa_score qa) (JNum 5))) history)) = Ok result \<and>
          written r2 = Ok u \<longrightarrow>
            (parsed = JNull \<or> parsed = JUndefined \<longrightarrow>
               (case decimal_3_1 rt (rounded (avgScore rt history)) of
                  None \<Rightarrow> store (generateFinalFeedback rt r2 iv2 history w2) = store w2
                | Some sc \<Rightarrow>
                    interviews (store (generateFinalFeedback rt r2 iv2 history w2)) =
                      map (\<lambda>row. if i_id row = i_id iv2
                                  then row\<lparr>status := completed, overall_score := sc,
                                           strengths := JArr [], improvements := JArr [],
                                           completed_at := JStr (now r2)\<rparr>
                                  else row)
                        (interviews (store w2)))) \<and>
            (\<forall>ov st im.
               get_prop parsed ''overallScore'' = Inr ov \<and> get_prop parsed ''strengths'' = Inr st \<and>
               get_prop parsed ''improvements'' = Inr im \<longrightarrow>
               (case (decimal_3_1 rt (if truthy ov then ov else JNum 5),
                      text_array rt (if truthy st then st else JArr []),
                      text_array rt (if truthy im then im else JArr [])) of
                  (Some sc, Some sts, Some ims) \<Rightarrow>
                    interviews (store (generateFinalFeedback rt r2 iv2 history w2)) =
                      map (\<lambda>row. if i_id row = i_id iv2
                                  then row\<lparr>status := completed, overall_score := sc,
                                           strengths := sts, improvements := ims,
                                           completed_at := JStr (now r2)\<rparr>
                                  else row)
                        (interviews (store w2))
                | other \<Rightarrow> store (generateFinalFeedback rt r2 iv2 history w2) = store w2) \<and>
               (\<not> truthy ov \<longrightarrow> decimal_3_1 rt (if truthy ov then ov else JNum 5) = Some (JNum 5))))"
proof (intro conjI impI allI)
  assume a: "interview (view w) = Some iv \<and> trim (userAnswer (view w)) \<noteq> [] \<and>
          invoke r (evaluate_answer (job_role iv) (difficulty iv) (interview_type iv)
            (currentQuestion (view w)) (userAnswer (view w))) = Ok result \<and>
          written r = Ok new_id \<and> new_id \<notin> set (map a_id (answers (store w))) \<and>
          currentQuestionId (view w) \<in> set (map q_id (questions (store w)))"
    and n: "parsed = JNull \<or> parsed = JUndefined"
  from a have a1: "interview (view w) = Some iv" and a2: "trim (userAnswer (view w)) \<noteq> []"
    and a3: "invoke r (evaluate_answer (job_role iv) (difficulty iv) (interview_type iv)
            (currentQuestion (view w)) (userAnswer (view w))) = Ok result"
    and a4: "written r = Ok new_id" and a5: "new_id \<notin> set (map a_id (answers (store w)))"
    and a6: "currentQuestionId (view w) \<in> set (map q_id (questions (store w)))"
    by simp_all
  show "answers (store (handleSubmitAnswer rt r r' w)) =
                 answers (store w) @
                   [\<lparr>a_id = new_id, question_id = currentQuestionId (view w),
                     answer_text = userAnswer (view w), ai_feedback = JStr result,
                     score = JNum 5\<rparr>]"
    using handleSubmitAnswer_stored [OF a1 a2 a3 evaluation_parsed(1) [OF assms n] a4 a5 a6, of r']
    by simp
next
  fix f sc
  assume a: "interview (view w) = Some iv \<and> trim (userAnswer (view w)) \<noteq> [] \<and>
          invoke r (evaluate_answer (job_role iv) (difficulty iv) (interview_type iv)
            (currentQuestion (view w)) (userAnswer (view w))) = Ok result \<and>
          written r = Ok new_id \<and> new_id \<notin> set (map a_id (answers (store w))) \<and>
          currentQuestionId (view w) \<in> set (map q_id (questions (store w)))"
    and g: "get_prop parsed ''feedback'' = Inr f \<and> get_prop parsed ''score'' = Inr sc"
  from a have a1: "interview (view w) = Some iv" and a2: "trim (userAnswer (view w)) \<noteq> []"
    and a3: "invoke r (evaluate_answer (job_role iv) (difficulty iv) (interview_type iv)
            (currentQuestion (view w)) (userAnswer (view w))) = Ok result"
    and a4: "written r = Ok new_id" and a5: "new_id \<notin> set (map a_id (answers (store w)))"
    and a6: "currentQuestionId (view w) \<in> set (map q_id (questions (store w)))"
    by simp_all
  from g have ev: "evaluation rt result =
      (if truthy f then f else JStr result, if truthy sc then sc else JNum 5)"
    using evaluation_parsed(2) [OF assms] by simp
  show "case decimal_3_1 rt (if truthy sc then sc else JNum 5) of
                  None \<Rightarrow> store (handleSubmitAnswer rt r r' w) = store w
                | Some col \<Rightarrow>
                    answers (store (handleSubmitAnswer rt r r' w)) =
                      answers (store w) @
                        [\<lparr>a_id = new_id, question_id = currentQuestionId (view w),
                          answer_text = userAnswer (view w),
                          ai_feedback = text_column rt (if truthy f then f else JStr result),
                          score = col\<rparr>]"
    by (rule handleSubmitAnswer_stored [OF a1 a2 a3 ev a4 a5 a6])
next
  fix f sc
  assume "\<not> truthy sc"
  then show "decimal_3_1 rt (if truthy sc then sc else JNum 5) = Some (JNum 5)" by simp
next
  fix f sc d
  assume "sc = JNum d \<and> d \<noteq> 0"
  then show "decimal_3_1 rt (if truthy sc then sc else JNum 5) = numeric_3_1 (json_number d)"
    by simp
next
  fix f sc
  assume "\<not> truthy f"
  then show "text_column rt (if truthy f then f else JStr result) = JStr result" by simp
next
  fix f sc s
  assume "f = JStr s \<and> s \<noteq> []"
  then show "text_column rt (if truthy f then f else JStr result) = JStr s" by simp
next
  assume a: "invoke r2 (generate_feedback (job_role iv2) (difficulty iv2) (interview_type iv2)
            (map (\<lambda>qa. (question qa, answer qa, js_or (qa_score qa) (JNum 5))) history)) = Ok result \<and>
          written r2 = Ok u"
    and n: "parsed = JNull \<or> parsed = JUndefined"
  from a have a1: "invoke r2 (generate_feedback (job_role iv2) (difficulty iv2) (interview_type iv2)
            (map (\<lambda>qa. (question qa, answer qa, js_or (qa_score qa) (JNum 5))) history)) = Ok result"
    and a2: "written r2 = Ok u"
    by simp_all
  show "case decimal_3_1 rt (rounded (avgScore rt history)) of
                  None \<Rightarrow> store (generateFinalFeedback rt r2 iv2 history w2) = store w2
                | Some sc \<Rightarrow>
                    interviews (store (generateFinalFeedback rt r2 iv2 history w2)) =
                      map (\<lambda>row. if i_id row = i_id iv2
                                  then row\<lparr>status := completed, overall_score := sc,
                                           strengths := JArr [], improvements := JArr [],
                                           completed_at := JStr (now r2)\<rparr>
                                  else row)
                        (interviews (store w2))"
    using a1 final_feedback_parsed(1) [OF assms n] a2 by (rule generateFinalFeedback_mean)
next
  fix ov st im
  assume a: "invoke r2 (generate_feedback (job_role iv2) (difficulty iv2) (interview_type iv2)
            (map (\<lambda>qa. (question qa, answer qa, js_or (qa_score qa) (JNum 5))) history)) = Ok result \<and>
          written r2 = Ok u"
    and g: "get_prop parsed ''overallScore'' = Inr ov \<and> get_prop parsed ''strengths'' = Inr st \<and>
               get_prop parsed ''improvements'' = Inr im"
  from a have a1: "invoke r2 (generate_feedback (job_role iv2) (difficulty iv2) (interview_type iv2)
            (map (\<lambda>qa. (question qa, answer qa, js_or (qa_score qa) (JNum 5))) history)) = Ok result"
    and a2: "written r2 = Ok u"
    by simp_all
  from g have ff: "final_feedback rt result history =
           (if truthy ov then ov else JNum 5, if truthy st then st else JArr [],
            if truthy im then im else JArr [])"
    using final_feedback_parsed(2) [OF assms] by simp
  have d: "(if truthy ov then ov else JNum 5) \<noteq> JUndefined"
    "(if truthy st then st else JArr []) \<noteq> JUndefined"
    "(if truthy im then im else JArr []) \<noteq> JUndefined"
    by (auto dest: truthy_defined)
  show "case (decimal_3_1 rt (if truthy ov then ov else JNum 5),
                      text_array rt (if truthy st then st else JArr []),
                      text_array rt (if truthy im then im else JArr [])) of
                  (Some sc, Some sts, Some ims) \<Rightarrow>
                    interviews (store (generateFinalFeedback rt r2 iv2 history w2)) =
                      map (\<lambda>row. if i_id row = i_id iv2
                                  then row\<lparr>status := completed, overall_score := sc,
                                           strengths := sts, improvements := ims,
                                           completed_at := JStr (now r2)\<rparr>
                                  else row)
                        (interviews (store w2))
                | other \<Rightarrow> store (generateFinalFeedback rt r2 iv2 history w2) = store w2"
    by (rule generateFinalFeedback_stored [OF a1 ff d a2])
next
  fix ov st im
  assume "\<not> truthy ov"
  then show "decimal_3_1 rt (if truthy ov then ov else JNum 5) = Some (JNum 5)" by simp
qed

theorem C9_truthy_defaults_witness:
  "JSON_parse demo_runtime graded =
     Some (JObj [(''score'', JNum (29 / 4)), (''feedback'', JStr ''Good'')]) \<and>
   answers (store (handleSubmitAnswer demo_runtime (says graded ''a1'') (says ''Next?'' ''q2'')
                     demo_world)) =
     [\<lparr>a_id = ''a1'', question_id = ''q1'', answer_text = ''I built a model.'',
       ai_feedback = JStr ''Good'', score = JNum (73 / 10)\<rparr>] \<and>
   JSON_parse demo_runtime ''{}'' = Some (JObj []) \<and>
   answers (store (handleSubmitAnswer demo_runtime (says ''{}'' ''a1'') (says ''Next?'' ''q2'')
                     demo_world)) =
     [\<lparr>a_id = ''a1'', question_id = ''q1'', answer_text = ''I built a model.'',
       ai_feedback = JStr ''{}'', score = JNum 5\<rparr>] \<and>
   interviews (store (generateFinalFeedback demo_runtime (says ''{}'' ''ok'') demo_interview
                        [scored 8, scored 6, scored 7] demo_world)) =
     [demo_interview\<lparr>status := completed, overall_score := JNum 5, strengths := JArr [],
                      improvements := JArr [], completed_at := JStr ''T''\<rparr>]"
  using C9_truthy_defaults [of demo_runtime graded
      "JObj [(''score'', JNum (29 / 4)), (''feedback'', JStr ''Good'')]" demo_world demo_interview
      "says graded ''a1''" "''a1''" "says ''Next?'' ''q2''" "says ''{}'' ''ok''" demo_interview
      "[scored 8, scored 6, scored 7]" "''ok''" demo_world]
    C9_truthy_defaults [of demo_runtime "''{}''" "JObj []" demo_world demo_interview
      "says ''{}'' ''a1''" "''a1''" "says ''Next?'' ''q2''" "says ''{}'' ''ok''" demo_interview
      "[scored 8, scored 6, scored 7]" "''ok''" demo_world]
    decimal_725
  by (simp add: trim_def is_space_def)

text \<open>
  The claim C9 as it is written fails for the reply \<^verbatim>\<open>null\<close>: it parses, reading
  \<^verbatim>\<open>overallScore\<close> of \<^verbatim>\<open>null\<close> throws inside the \<^verbatim>\<open>try\<close> block, and the \<^verbatim>\<open>catch\<close> block
  computes the mean, so that the interview is completed with the overall score 7 and not
  5. It also fails for the score 7.25, which the column stores as 7.3.
\<close>

theorem C9_null_payload_counterexample:
  "JSON_parse demo_runtime ''null'' = Some JNull \<and>
   get_prop JNull ''overallScore'' = Inl TypeError \<and>
   interviews (store (generateFinalFeedback demo_runtime (says ''null'' ''ok'') demo_interview
                        [scored 8, scored 6, scored 7] demo_world)) =
     [demo_interview\<lparr>status := completed, overall_score := JNum 7, strengths := JArr [],
                      improvements := JArr [], completed_at := JStr ''T''\<rparr>] \<and>
   answers (store (handleSubmitAnswer demo_runtime (says graded ''a1'') (says ''Next?'' ''q2'')
                     demo_world)) =
     [\<lparr>a_id = ''a1'', question_id = ''q1'', answer_text = ''I built a model.'',
       ai_feedback = JStr ''Good'', score = JNum (73 / 10)\<rparr>]"
  by (simp add: model_defs mean_8_6_7 decimal_725 [simplified])

subsection \<open>The failures of the AI gateway\<close>

lemma show_nat_503: "show_nat 503 = ''503''"
  by (simp add: digit_char_def)

text \<open>
  C8. Once the handler has called the gateway, a response with the status 429 is answered
  with the status 429 and the message to try again in a moment, a response with the status
  402 with the status 402 and the message that the credits are exhausted, and every other
  response that is not ok, as well as an ok response without content, with the status 500
  and an error message.
\<close>

theorem C8_gateway_failures:
  assumes "req_method req \<noteq> ''OPTIONS''"
    and "LOVABLE_API_KEY env = Some k" and "k \<noteq> []"
    and "req_json req = Inr body"
    and "gateway env = fetch_returns response"
  shows "(gw_status response = 429 \<longrightarrow>
            serve_handler env req =
              \<lparr>resp_status = 429,
               resp_body = error_body ''Rate limit exceeded. Please try again in a moment.''\<rparr>) \<and>
         (gw_status response = 402 \<longrightarrow>
            serve_handler env req =
              \<lparr>resp_status = 402,
               resp_body = error_body ''AI credits exhausted. Please add more credits.''\<rparr>) \<and>
         (\<not> ok response \<and> gw_status response \<noteq> 429 \<and> gw_status response \<noteq> 402 \<longrightarrow>
            resp_status (serve_handler env req) = 500 \<and>
            (\<exists>m. resp_body (serve_handler env req) = error_body m) \<and>
            (\<forall>t. gw_text response = Inr t \<longrightarrow>
               resp_body (serve_handler env req) =
                 error_body (''AI gateway error: '' @ show_nat (gw_status response)))) \<and>
         (ok response \<and> (\<exists>data content. gw_json response = Inr data \<and>
                            content_of data = Inr content \<and> \<not> truthy content) \<longrightarrow>
            serve_handler env req =
              \<lparr>resp_status = 500, resp_body = error_body ''No content in AI response''\<rparr>)"
  using assms
  by (auto simp: serve_handler_def forward_def ok_def split: sum.splits)
theorem C8_gateway_failures_witness:
  "serve_handler (gateway_says 429 JNull) demo_request =
     \<lparr>resp_status = 429,
      resp_body = error_body ''Rate limit exceeded. Please try again in a moment.''\<rparr> \<and>
   serve_handler (gateway_says 402 JNull) demo_request =
     \<lparr>resp_status = 402,
      resp_body = error_body ''AI credits exhausted. Please add more credits.''\<rparr> \<and>
   serve_handler (gateway_says 503 JNull) demo_request =
     \<lparr>resp_status = 500, resp_body = error_body ''AI gateway error: 503''\<rparr> \<and>
   serve_handler (gateway_says 200 (JObj [(''choices'', JArr [])])) demo_request =
     \<lparr>resp_status = 500, resp_body = error_body ''No content in AI response''\<rparr>"
  using C8_gateway_failures [of demo_request "gateway_says 429 JNull" "''key''"
      "evaluate_answer ''Data Scientist'' mid behavioral ''Q'' ''A''"
      "\<lparr>gw_status = 429, gw_text = Inr ''body'', gw_json = Inr JNull\<rparr>"]
    C8_gateway_failures [of demo_request "gateway_says 402 JNull" "''key''"
      "evaluate_answer ''Data Scientist'' mid behavioral ''Q'' ''A''"
      "\<lparr>gw_status = 402, gw_text = Inr ''body'', gw_json = Inr JNull\<rparr>"]
    C8_gateway_failures [of demo_request "gateway_says 503 JNull" "''key''"
      "evaluate_answer ''Data Scientist'' mid behavioral ''Q'' ''A''"
      "\<lparr>gw_status = 503, gw_text = Inr ''body'', gw_json = Inr JNull\<rparr>"]
    C8_gateway_failures [of demo_request "gateway_says 200 (JObj [(''choices'', JArr [])])" "''key''"
      "evaluate_answer ''Data Scientist'' mid behavioral ''Q'' ''A''"
      "\<lparr>gw_status = 200, gw_text = Inr ''body'', gw_json = Inr (JObj [(''choices'', JArr [])])\<rparr>"]
    show_nat_503
  by (simp add: ok_def content_of_def nullish_def)

subsection \<open>Creating an interview\<close>

lemma click_questionCount: "questionCount f \<in> {5, 10, 15} \<Longrightarrow> questionCount (click c f) \<in> {5, 10, 15}"
proof (cases c)
  case (pick_count n)
  assume a: "questionCount f \<in> {5, 10, 15}"
  show ?thesis
  proof (cases "n < length questionCounts")
    case True
    then have "n = 0 \<or> n = 1 \<or> n = 2" by (auto simp: questionCounts_def)
    then show ?thesis using pick_count by (auto simp: questionCounts_def)
  next
    case False
    then show ?thesis using pick_count a by simp
  qed
qed auto

lemma clicks_questionCount:
  "questionCount f \<in> {5, 10, 15} \<Longrightarrow> questionCount (foldl (\<lambda>f c. click c f) f cs) \<in> {5, 10, 15}"
proof (induction cs arbitrary: f)
  case Nil
  then show ?case by simp
next
  case (Cons c cs)
  from Cons.prems have "questionCount (click c f) \<in> {5, 10, 15}"
    by (rule click_questionCount)
  then show ?case using Cons.IH by simp
qed

lemma click_default: "\<forall>n. c \<noteq> pick_count n \<Longrightarrow> questionCount (click c f) = questionCount f"
  by (cases c) auto

lemma clicks_default:
  "\<forall>n. pick_count n \<notin> set cs \<Longrightarrow> questionCount (foldl (\<lambda>f c. click c f) f cs) = questionCount f"
proof (induction cs arbitrary: f)
  case Nil
  then show ?case by simp
next
  case (Cons c cs)
  from Cons.prems have "\<forall>n. c \<noteq> pick_count n" by auto
  then have "questionCount (click c f) = questionCount f" by (rule click_default)
  moreover from Cons.prems have "\<forall>n. pick_count n \<notin> set cs" by auto
  ultimately show ?case using Cons.IH by simp
qed

text \<open>
  C10. On a form reached from the initial one by the controls of the setup page, starting
  the interview with a role that is empty after trimming changes nothing but the
  notification, whatever the store would answer. Otherwise the store is unchanged or gains
  one row, whose \<^verbatim>\<open>total_questions\<close> is 5, 10 or 15, whose status is \<^verbatim>\<open>in_progress\<close> and
  whose role is not empty after trimming. The count is 5 as long as no count was picked.
\<close>

theorem C10_setup_creates:
  assumes "form w = foldl (\<lambda>f c. click c f) initial_form cs"
  shows "(trim (if jobRole (form w) = ''custom'' then customRole (form w) else jobRole (form w)) = [] \<longrightarrow>
            handleStartInterview r w = w\<lparr>toast := Some ''Choose a job role or enter a custom one.''\<rparr>) \<and>
         (store (handleStartInterview r w) = store w \<or>
          (\<exists>new_id row.
             written r = Ok new_id \<and> new_id \<notin> set (map i_id (interviews (store w))) \<and>
             row = \<lparr>i_id = new_id, user_id = user w,
                    job_role = (if jobRole (form w) = ''custom'' then customRole (form w) else jobRole (form w)),
                    difficulty = difficulty_state (form w), interview_type = interviewType (form w),
                    total_questions = questionCount (form w), status = in_progress,
                    overall_score = JNull, strengths = JNull, improvements = JNull,
                    created_at = now r, completed_at = JNull\<rparr> \<and>
             store (handleStartInterview r w) = (store w)\<lparr>interviews := interviews (store w) @ [row]\<rparr> \<and>
             total_questions row \<in> {5, 10, 15} \<and> status row = in_progress \<and>
             trim (job_role row) \<noteq> [])) \<and>
         ((\<forall>n. pick_count n \<notin> set cs) \<longrightarrow> questionCount (form w) = 5)"
proof (intro conjI)
  show "trim (if jobRole (form w) = ''custom'' then customRole (form w) else jobRole (form w)) = [] \<longrightarrow>
            handleStartInterview r w = w\<lparr>toast := Some ''Choose a job role or enter a custom one.''\<rparr>"
    by (simp add: handleStartInterview_def Let_def)
next
  have qc: "questionCount (form w) \<in> {5, 10, 15}"
    unfolding assms by (rule clicks_questionCount) (simp add: initial_form_def)
  show "store (handleStartInterview r w) = store w \<or>
          (\<exists>new_id row.
             written r = Ok new_id \<and> new_id \<notin> set (map i_id (interviews (store w))) \<and>
             row = \<lparr>i_id = new_id, user_id = user w,
                    job_role = (if jobRole (form w) = ''custom'' then customRole (form w) else jobRole (form w)),
                    difficulty = difficulty_state (form w), interview_type = interviewType (form w),
                    total_questions = questionCount (form w), status = in_progress,
                    overall_score = JNull, strengths = JNull, improvements = JNull,
                    created_at = now r, completed_at = JNull\<rparr> \<and>
             store (handleStartInterview r w) = (store w)\<lparr>interviews := interviews (store w) @ [row]\<rparr> \<and>
             total_questions row \<in> {5, 10, 15} \<and> status row = in_progress \<and>
             trim (job_role row) \<noteq> [])"
    using qc
    by (cases "written r")
      (auto simp: handleStartInterview_def Let_def insert_interview_def)
next
  show "(\<forall>n. pick_count n \<notin> set cs) \<longrightarrow> questionCount (form w) = 5"
    unfolding assms by (auto simp: clicks_default initial_form_def)
qed

theorem C10_setup_creates_witness:
  "form (run demo_runtime ''u1'' [visit SetupRoute, form_click (pick_role 2)]) =
     foldl (\<lambda>f c. click c f) initial_form [pick_role 2] \<and>
   store (handleStartInterview (says [] ''i1'')
            (run demo_runtime ''u1'' [visit SetupRoute, form_click (pick_role 2)])) =
     \<lparr>interviews = [demo_interview], questions = [], answers = []\<rparr> \<and>
   handleStartInterview (says [] ''i1'')
     (run demo_runtime ''u1'' [visit SetupRoute, form_click pick_custom, form_click (edit_custom ''  '')]) =
     (run demo_runtime ''u1'' [visit SetupRoute, form_click pick_custom, form_click (edit_custom ''  '')])
       \<lparr>toast := Some ''Choose a job role or enter a custom one.''\<rparr>"
  using C10_setup_creates [of "run demo_runtime ''u1'' [visit SetupRoute, form_click (pick_role 2)]"
      "[pick_role 2]" "says [] ''i1''"]
    C10_setup_creates [of "run demo_runtime ''u1'' [visit SetupRoute, form_click pick_custom, form_click (edit_custom ''  '')]"
      "[pick_custom, edit_custom ''  '']" "says [] ''i1''"]
  by (simp add: model_defs)

subsection \<open>Resuming an interview\<close>

lemma select_interview_id: "select_interview d i = Ok iv \<Longrightarrow> i_id iv = i \<and> iv \<in> set (interviews d)"
proof -
  assume a: "select_interview d i = Ok iv"
  then have "filter (\<lambda>r. i_id r = i) (interviews d) = [iv]"
    by (auto simp: select_interview_def split: list.splits)
  then have "iv \<in> set (filter (\<lambda>r. i_id r = i) (interviews d))" by simp
  then show ?thesis by simp
qed

lemma existingQA_question: "question (existingQA qa) = question_text (fst qa)"
  by (simp add: existingQA_def split: prod.splits list.splits)

text \<open>
  The page is mounted for an interview in progress and both reads succeed; \<open>qs\<close> are
  the persisted questions with their answers, \<open>N\<close> their number. What
  \<^verbatim>\<open>fetchInterview\<close> does is determined by these rows. When every question is answered and
  \<open>N\<close> is below \<^verbatim>\<open>total_questions\<close>, it requests question \<open>N + 1\<close> with the history of
  all \<open>N\<close> turns, and a successful generation stores a question with the order \<open>N + 1\<close>.
  When every question is answered and \<open>N\<close> equals \<^verbatim>\<open>total_questions\<close>, it requests the
  final feedback with that history. When the last question has no answer, it shows that
  question, calls no service, and the history is the turns of the questions before it.
\<close>

lemma fetchInterview_resumes:
  assumes "view w = initial_page"
    and "interview_read e" and "questions_read e"
    and "select_interview (store w) i = Ok iv"
    and "status iv = in_progress"
    and "0 < total_questions iv"
    and "qs = select_questions (store w) i"
  shows "((\<forall>qa\<in>set qs. snd qa \<noteq> []) \<and> int (length qs) < total_questions iv \<longrightarrow>
            fetchInterview rt e i w =
              generateNextQuestion (follow e) iv (map existingQA qs)
                (w\<lparr>view := initial_page\<lparr>interview := Some iv, isLoading := False,
                                          qaHistory := map existingQA qs,
                                          questionNumber := length qs + 1\<rparr>\<rparr>) \<and>
            (\<forall>reply_text new_id.
               invoke (follow e) (generate_question (job_role iv) (difficulty iv) (interview_type iv)
                 (length qs + 1) (total_questions iv) (map (\<lambda>qa. question_text (fst qa)) qs)) = Ok reply_text \<and>
               written (follow e) = Ok new_id \<and> new_id \<notin> set (map q_id (questions (store w))) \<longrightarrow>
               questions (store (fetchInterview rt e i w)) =
                 questions (store w) @
                   [\<lparr>q_id = new_id, interview_id = i, question_text = trim reply_text,
                     question_order = int (length qs) + 1\<rparr>])) \<and>
         ((\<forall>qa\<in>set qs. snd qa \<noteq> []) \<and> int (length qs) = total_questions iv \<longrightarrow>
            fetchInterview rt e i w =
              generateFinalFeedback rt (follow e) iv (map existingQA qs)
                (w\<lparr>view := initial_page\<lparr>interview := Some iv, isLoading := False,
                                          qaHistory := map existingQA qs,
                                          questionNumber := length qs + 1\<rparr>\<rparr>)) \<and>
         (qs \<noteq> [] \<and> snd (last qs) = [] \<longrightarrow>
            fetchInterview rt e i w =
              w\<lparr>view := initial_page\<lparr>interview := Some iv, isLoading := False,
                                       qaHistory := map existingQA (butlast qs),
                                       currentQuestion := question_text (fst (last qs)),
                                       currentQuestionId := q_id (fst (last qs)),
                                       questionNumber := length qs\<rparr>\<rparr>)"
proof (intro conjI impI allI)
  assume h: "(\<forall>qa\<in>set qs. snd qa \<noteq> []) \<and> int (length qs) < total_questions iv"
  show "fetchInterview rt e i w =
              generateNextQuestion (follow e) iv (map existingQA qs)
                (w\<lparr>view := initial_page\<lparr>interview := Some iv, isLoading := False,
                                          qaHistory := map existingQA qs,
                                          questionNumber := length qs + 1\<rparr>\<rparr>)"
  proof (cases "qs = []")
    case True
    then show ?thesis using assms
      by (simp add: fetchInterview_def Let_def initial_page_def)
  next
    case False
    then have "snd (last qs) \<noteq> []" using h by simp
    then show ?thesis using assms False h
      by (simp add: fetchInterview_def Let_def initial_page_def)
  qed
next
  fix reply_text new_id
  assume h: "(\<forall>qa\<in>set qs. snd qa \<noteq> []) \<and> int (length qs) < total_questions iv"
    and g: "invoke (follow e) (generate_question (job_role iv) (difficulty iv) (interview_type iv)
                 (length qs + 1) (total_questions iv) (map (\<lambda>qa. question_text (fst qa)) qs)) = Ok reply_text \<and>
               written (follow e) = Ok new_id \<and> new_id \<notin> set (map q_id (questions (store w)))"
  have eq: "fetchInterview rt e i w =
              generateNextQuestion (follow e) iv (map existingQA qs)
                (w\<lparr>view := initial_page\<lparr>interview := Some iv, isLoading := False,
                                          qaHistory := map existingQA qs,
                                          questionNumber := length qs + 1\<rparr>\<rparr>)"
  proof (cases "qs = []")
    case True
    then show ?thesis using assms
      by (simp add: fetchInterview_def Let_def initial_page_def)
  next
    case False
    then have "snd (last qs) \<noteq> []" using h by simp
    then show ?thesis using assms False h
      by (simp add: fetchInterview_def Let_def initial_page_def)
  qed
  have idi: "i_id iv = i" "iv \<in> set (interviews (store w))"
    using select_interview_id [OF assms(4)] by simp_all
  show "questions (store (fetchInterview rt e i w)) =
                 questions (store w) @
                   [\<lparr>q_id = new_id, interview_id = i, question_text = trim reply_text,
                     question_order = int (length qs) + 1\<rparr>]"
  proof -
    have "i \<in> i_id ` set (interviews (store w))" using idi by blast
    then show ?thesis
      unfolding eq using g idi(1)
      by (simp add: generateNextQuestion_def Let_def insert_question_def comp_def existingQA_question)
  qed
next
  assume h: "(\<forall>qa\<in>set qs. snd qa \<noteq> []) \<and> int (length qs) = total_questions iv"
  then have ne: "qs \<noteq> []" using assms(6) by auto
  then have "snd (last qs) \<noteq> []" using h by simp
  then show "fetchInterview rt e i w =
              generateFinalFeedback rt (follow e) iv (map existingQA qs)
                (w\<lparr>view := initial_page\<lparr>interview := Some iv, isLoading := False,
                                          qaHistory := map existingQA qs,
                                          questionNumber := length qs + 1\<rparr>\<rparr>)"
    using assms ne h by (simp add: fetchInterview_def Let_def initial_page_def)
next
  assume h: "qs \<noteq> [] \<and> snd (last qs) = []"
  then show "fetchInterview rt e i w =
              w\<lparr>view := initial_page\<lparr>interview := Some iv, isLoading := False,
                                       qaHistory := map existingQA (butlast qs),
                                       currentQuestion := question_text (fst (last qs)),
                                       currentQuestionId := q_id (fst (last qs)),
                                       questionNumber := length qs\<rparr>\<rparr>"
    using assms by (simp add: fetchInterview_def Let_def initial_page_def map_butlast)
qed

lemma fetchInterview_resumes_example:
  "select_interview (store (mounted demo_interview [demo_answer])) ''i1'' = Ok demo_interview \<and>
   select_questions (store (mounted demo_interview [demo_answer])) ''i1'' = [(demo_question, [demo_answer])] \<and>
   questions (store (fetchInterview demo_runtime (reads_ok (says ''Next?'' ''q2'')) ''i1''
                       (mounted demo_interview [demo_answer]))) =
     [demo_question,
      \<lparr>q_id = ''q2'', interview_id = ''i1'', question_text = ''Next?'', question_order = 2\<rparr>] \<and>
   interviews (store (fetchInterview demo_runtime (reads_ok (says ''{}'' ''ok'')) ''i1''
                        (mounted (demo_interview\<lparr>total_questions := 1\<rparr>) [demo_answer]))) =
     [demo_interview\<lparr>total_questions := 1, status := completed, overall_score := JNum 5,
                      strengths := JArr [], improvements := JArr [],
                      completed_at := JStr ''T''\<rparr>] \<and>
   fetchInterview demo_runtime (reads_ok service_down) ''i1'' (mounted demo_interview []) =
     (mounted demo_interview [])
       \<lparr>view := initial_page\<lparr>interview := Some demo_interview, isLoading := False,
                               qaHistory := [],
                               currentQuestion := ''Tell me about a project.'',
                               currentQuestionId := ''q1'', questionNumber := 1\<rparr>\<rparr>"
  using fetchInterview_resumes [of "mounted demo_interview [demo_answer]" "reads_ok (says ''Next?'' ''q2'')"
      "''i1''" demo_interview "[(demo_question, [demo_answer])]" demo_runtime]
    fetchInterview_resumes [of "mounted (demo_interview\<lparr>total_questions := 1\<rparr>) [demo_answer]"
      "reads_ok (says ''{}'' ''ok'')" "''i1''" "demo_interview\<lparr>total_questions := 1\<rparr>"
      "[(demo_question, [demo_answer])]" demo_runtime]
    fetchInterview_resumes [of "mounted demo_interview []" "reads_ok service_down"
      "''i1''" demo_interview "[(demo_question, [])]" demo_runtime]
  by (simp add: select_interview_def select_questions_def existingQA_def js_or_def trim_def
      is_space_def generateNextQuestion_def insert_question_def initial_page_def Let_def
      generateFinalFeedback_def final_feedback_def update_interview_def set_interview_def
      field_def)

text \<open>
  C1 does not hold of the code. An interview of five questions is in progress; its one
  question is answered, so that resuming should ask for question 2 after a history of one
  turn. The page is reloaded, the read of the interview succeeds and the read of the
  questions fails. \<^verbatim>\<open>fetchInterview\<close> asks for question 1 with no previous question, the
  only request that the service of this example answers, and stores a second question with
  the order 1; the history of the new session is empty.
\<close>

theorem C1_resume_restarts:
  "select_interview (store (mounted demo_interview [demo_answer])) ''i1'' = Ok demo_interview \<and>
   select_questions (store (mounted demo_interview [demo_answer])) ''i1'' =
     [(demo_question, [demo_answer])] \<and>
   fetchInterview demo_runtime (reads_questions_fail asks_first) ''i1''
     (mounted demo_interview [demo_answer]) =
     (mounted demo_interview [demo_answer])
       \<lparr>store :=
          \<lparr>interviews = [demo_interview],
           questions =
             [demo_question,
              \<lparr>q_id = ''q2'', interview_id = ''i1'', question_text = ''Again?'',
               question_order = 1\<rparr>],
           answers = [demo_answer]\<rparr>,
        view := initial_page\<lparr>interview := Some demo_interview, isLoading := False,
                                qaHistory := [], currentQuestion := ''Again?'',
                                currentQuestionId := ''q2'', questionNumber := 1\<rparr>\<rparr>"
  by (simp add: model_defs)

subsection \<open>A failure of the Generation Service\<close>

lemma handleSubmitAnswer_failed:
  assumes "interview (view w) = Some iv" and "trim (userAnswer (view w)) \<noteq> []"
    and "invoke r (evaluate_answer (job_role iv) (difficulty iv) (interview_type iv)
           (currentQuestion (view w)) (userAnswer (view w))) = Failed"
  shows "handleSubmitAnswer rt r r' w =
           w\<lparr>toast := Some ''Failed to submit answer. Please try again.'',
             view := (view w)\<lparr>isSubmitting := False\<rparr>\<rparr>"
  using assms by (simp add: handleSubmitAnswer_def Let_def)

text \<open>A retry does not read the notification or the two flags that a failure resets.\<close>

lemma generateFinalFeedback_retry:
  "store (generateFinalFeedback rt r iv h (w\<lparr>toast := t, view := (view w)\<lparr>isGenerating := False\<rparr>\<rparr>)) =
     store (generateFinalFeedback rt r iv h w) \<and>
   location (generateFinalFeedback rt r iv h (w\<lparr>toast := t, view := (view w)\<lparr>isGenerating := False\<rparr>\<rparr>)) =
     location (generateFinalFeedback rt r iv h w) \<and>
   view (generateFinalFeedback rt r iv h (w\<lparr>toast := t, view := (view w)\<lparr>isGenerating := False\<rparr>\<rparr>)) =
     view (generateFinalFeedback rt r iv h w)"
  by (simp add: generateFinalFeedback_def Let_def split: outcome.splits prod.splits)

lemma handleSubmitAnswer_retry:
  assumes "interview (view w) = Some iv" and "trim (userAnswer (view w)) \<noteq> []"
  shows "store (handleSubmitAnswer rt r2 r2' (w\<lparr>toast := t, view := (view w)\<lparr>isSubmitting := False\<rparr>\<rparr>)) =
           store (handleSubmitAnswer rt r2 r2' w) \<and>
         location (handleSubmitAnswer rt r2 r2' (w\<lparr>toast := t, view := (view w)\<lparr>isSubmitting := False\<rparr>\<rparr>)) =
           location (handleSubmitAnswer rt r2 r2' w) \<and>
         view (handleSubmitAnswer rt r2 r2' (w\<lparr>toast := t, view := (view w)\<lparr>isSubmitting := False\<rparr>\<rparr>)) =
           view (handleSubmitAnswer rt r2 r2' w)"
  using assms
  by (simp add: handleSubmitAnswer_def generateNextQuestion_def generateFinalFeedback_def Let_def
      split: outcome.splits prod.splits)


lemma generateFinalFeedback_failed:
  assumes "invoke r (generate_feedback (job_role iv) (difficulty iv) (interview_type iv)
             (map (\<lambda>qa. (question qa, answer qa, js_or (qa_score qa) (JNum 5))) history)) = Failed"
  shows "generateFinalFeedback rt r iv history w =
           w\<lparr>toast := Some ''Failed to complete interview. Please try again.'',
             view := (view w)\<lparr>isGenerating := False\<rparr>\<rparr>"
  using assms by (simp add: generateFinalFeedback_def Let_def)

text \<open>
  C7. When the service fails during a submission, the world changes only in the
  notification and the flag \<^verbatim>\<open>isSubmitting\<close>: no answer is stored, the history and the typed
  answer stay, and submitting again behaves as the first submission would have. When the
  service fails during the final feedback, the world changes only in the notification and
  the flag \<^verbatim>\<open>isGenerating\<close>: the interview stays as it was, with all its answers, and the
  same call behaves as the first one would have.
\<close>

theorem C7_generation_failure:
  "(interview (view w) = Some iv \<and> trim (userAnswer (view w)) \<noteq> [] \<and>
    invoke r (evaluate_answer (job_role iv) (difficulty iv) (interview_type iv)
      (currentQuestion (view w)) (userAnswer (view w))) = Failed \<longrightarrow>
      handleSubmitAnswer rt r r' w =
        w\<lparr>toast := Some ''Failed to submit answer. Please try again.'',
          view := (view w)\<lparr>isSubmitting := False\<rparr>\<rparr> \<and>
      store (handleSubmitAnswer rt r r' w) = store w \<and>
      qaHistory (view (handleSubmitAnswer rt r r' w)) = qaHistory (view w) \<and>
      userAnswer (view (handleSubmitAnswer rt r r' w)) = userAnswer (view w) \<and>
      answering (handleSubmitAnswer rt r r' w) = answering w \<and>
      (\<forall>r2 r2'.
         store (handleSubmitAnswer rt r2 r2' (handleSubmitAnswer rt r r' w)) =
           store (handleSubmitAnswer rt r2 r2' w) \<and>
         location (handleSubmitAnswer rt r2 r2' (handleSubmitAnswer rt r r' w)) =
           location (handleSubmitAnswer rt r2 r2' w) \<and>
         view (handleSubmitAnswer rt r2 r2' (handleSubmitAnswer rt r r' w)) =
           view (handleSubmitAnswer rt r2 r2' w))) \<and>
   (invoke r (generate_feedback (job_role iv) (difficulty iv) (interview_type iv)
      (map (\<lambda>qa. (question qa, answer qa, js_or (qa_score qa) (JNum 5))) history)) = Failed \<longrightarrow>
      generateFinalFeedback rt r iv history w =
        w\<lparr>toast := Some ''Failed to complete interview. Please try again.'',
          view := (view w)\<lparr>isGenerating := False\<rparr>\<rparr> \<and>
      store (generateFinalFeedback rt r iv history w) = store w \<and>
      location (generateFinalFeedback rt r iv history w) = location w \<and>
      (\<forall>r2.
         store (generateFinalFeedback rt r2 iv history (generateFinalFeedback rt r iv history w)) =
           store (generateFinalFeedback rt r2 iv history w) \<and>
         location (generateFinalFeedback rt r2 iv history (generateFinalFeedback rt r iv history w)) =
           location (generateFinalFeedback rt r2 iv history w) \<and>
         view (generateFinalFeedback rt r2 iv history (generateFinalFeedback rt r iv history w)) =
           view (generateFinalFeedback rt r2 iv history w)))"
proof (intro conjI impI)
  assume a: "interview (view w) = Some iv \<and> trim (userAnswer (view w)) \<noteq> [] \<and>
    invoke r (evaluate_answer (job_role iv) (difficulty iv) (interview_type iv)
      (currentQuestion (view w)) (userAnswer (view w))) = Failed"
  then have eq: "handleSubmitAnswer rt r r' w =
        w\<lparr>toast := Some ''Failed to submit answer. Please try again.'',
          view := (view w)\<lparr>isSubmitting := False\<rparr>\<rparr>"
    by (simp add: handleSubmitAnswer_failed)
  show "handleSubmitAnswer rt r r' w =
        w\<lparr>toast := Some ''Failed to submit answer. Please try again.'',
          view := (view w)\<lparr>isSubmitting := False\<rparr>\<rparr>"
    by (rule eq)
  show "store (handleSubmitAnswer rt r r' w) = store w" by (simp add: eq)
  show "qaHistory (view (handleSubmitAnswer rt r r' w)) = qaHistory (view w)" by (simp add: eq)
  show "userAnswer (view (handleSubmitAnswer rt r r' w)) = userAnswer (view w)" by (simp add: eq)
  show "answering (handleSubmitAnswer rt r r' w) = answering w" by (simp add: eq answering_def)
  show "\<forall>r2 r2'.
         store (handleSubmitAnswer rt r2 r2' (handleSubmitAnswer rt r r' w)) =
           store (handleSubmitAnswer rt r2 r2' w) \<and>
         location (handleSubmitAnswer rt r2 r2' (handleSubmitAnswer rt r r' w)) =
           location (handleSubmitAnswer rt r2 r2' w) \<and>
         view (handleSubmitAnswer rt r2 r2' (handleSubmitAnswer rt r r' w)) =
           view (handleSubmitAnswer rt r2 r2' w)"
    unfolding eq using a handleSubmitAnswer_retry [of w iv] by blast
next
  assume a: "invoke r (generate_feedback (job_role iv) (difficulty iv) (interview_type iv)
      (map (\<lambda>qa. (question qa, answer qa, js_or (qa_score qa) (JNum 5))) history)) = Failed"
  then have eq: "generateFinalFeedback rt r iv history w =
        w\<lparr>toast := Some ''Failed to complete interview. Please try again.'',
          view := (view w)\<lparr>isGenerating := False\<rparr>\<rparr>"
    by (rule generateFinalFeedback_failed)
  show "generateFinalFeedback rt r iv history w =
        w\<lparr>toast := Some ''Failed to complete interview. Please try again.'',
          view := (view w)\<lparr>isGenerating := False\<rparr>\<rparr>"
    by (rule eq)
  show "store (generateFinalFeedback rt r iv history w) = store w" by (simp add: eq)
  show "location (generateFinalFeedback rt r iv history w) = location w" by (simp add: eq)
  show "\<forall>r2.
         store (generateFinalFeedback rt r2 iv history (generateFinalFeedback rt r iv history w)) =
           store (generateFinalFeedback rt r2 iv history w) \<and>
         location (generateFinalFeedback rt r2 iv history (generateFinalFeedback rt r iv history w)) =
           location (generateFinalFeedback rt r2 iv history w) \<and>
         view (generateFinalFeedback rt r2 iv history (generateFinalFeedback rt r iv history w)) =
           view (generateFinalFeedback rt r2 iv history w)"
    unfolding eq using generateFinalFeedback_retry by blast
qed

theorem C7_generation_failure_witness:
  "interview (view demo_world) = Some demo_interview \<and>
   trim (userAnswer (view demo_world)) \<noteq> [] \<and>
   handleSubmitAnswer demo_runtime service_down (says ''Next?'' ''q2'') demo_world =
     demo_world\<lparr>toast := Some ''Failed to submit answer. Please try again.''\<rparr> \<and>
   store (handleSubmitAnswer demo_runtime (says ''Good answer'' ''a1'') (says ''Next?'' ''q2'')
            (handleSubmitAnswer demo_runtime service_down (says ''Next?'' ''q2'') demo_world)) =
     store (handleSubmitAnswer demo_runtime (says ''Good answer'' ''a1'') (says ''Next?'' ''q2'')
              demo_world) \<and>
   generateFinalFeedback demo_runtime service_down demo_interview [demo_turn] demo_world =
     demo_world\<lparr>toast := Some ''Failed to complete interview. Please try again.''\<rparr>"
  using C7_generation_failure [of demo_world demo_interview service_down demo_runtime
      "says ''Next?'' ''q2''" "[demo_turn]"]
  by (simp add: model_defs)

subsection \<open>The completion of an interview\<close>

lemma generateNextQuestion_frame:
  "interviews (store (generateNextQuestion r iv h w)) = interviews (store w) \<and>
   location (generateNextQuestion r iv h w) = location w \<and>
   interview (view (generateNextQuestion r iv h w)) = interview (view w)"
  by (simp add: generateNextQuestion_def Let_def insert_question_def split: outcome.splits)

lemma generateNextQuestion_consistent:
  "consistent w \<Longrightarrow> consistent (generateNextQuestion r iv h w)"
  by (simp add: consistent_def generateNextQuestion_frame)

lemma generateFinalFeedback_cases:
  "(interviews (store (generateFinalFeedback rt r iv h w)) = interviews (store w) \<and>
    location (generateFinalFeedback rt r iv h w) = location w \<and>
    interview (view (generateFinalFeedback rt r iv h w)) = interview (view w)) \<or>
   (\<exists>sc st im.
      store (generateFinalFeedback rt r iv h w) =
        set_interview (store w) (i_id iv) completed sc st im (JStr (now r)) \<and>
      location (generateFinalFeedback rt r iv h w) = ResultsRoute (i_id iv))"
  by (auto simp: generateFinalFeedback_def Let_def split: outcome.splits prod.splits
      dest!: update_interview_Ok)

lemma set_interview_ids:
  "map i_id (interviews (set_interview d i st sc str imp ts)) = map i_id (interviews d)"
  by (simp add: set_interview_def comp_def if_distrib cong: if_cong)

lemma set_interview_rows:
  assumes "\<forall>row\<in>set (interviews d). status row = completed \<or> (status row = in_progress \<and> aggregates_null row)"
    and "row' \<in> set (interviews (set_interview d i completed sc str imp ts))"
  shows "status row' = completed \<or> (status row' = in_progress \<and> aggregates_null row')"
  using assms by (auto simp: set_interview_def aggregates_null_def)

lemma generateFinalFeedback_consistent:
  assumes "consistent w"
  shows "consistent (generateFinalFeedback rt r iv h w)"
proof -
  consider
    (same) "interviews (store (generateFinalFeedback rt r iv h w)) = interviews (store w)"
      "location (generateFinalFeedback rt r iv h w) = location w"
      "interview (view (generateFinalFeedback rt r iv h w)) = interview (view w)"
  | (updated) sc st im where
      "store (generateFinalFeedback rt r iv h w) =
         set_interview (store w) (i_id iv) completed sc st im (JStr (now r))"
      "location (generateFinalFeedback rt r iv h w) = ResultsRoute (i_id iv)"
    using generateFinalFeedback_cases [of rt r iv h w] by blast
  then show ?thesis
  proof cases
    case same
    then show ?thesis using assms by (simp add: consistent_def)
  next
    case updated
    have d: "distinct (map i_id (interviews (store (generateFinalFeedback rt r iv h w))))"
      using assms by (simp add: updated(1) set_interview_ids consistent_def)
    have rows: "\<forall>row\<in>set (interviews (store (generateFinalFeedback rt r iv h w))).
         status row = completed \<or> (status row = in_progress \<and> aggregates_null row)"
      unfolding updated(1) using assms set_interview_rows [of "store w"]
      by (meson consistent_def)
    show ?thesis
      unfolding consistent_def using d rows updated(2) by simp
  qed
qed

lemma set_interview_finalizes:
  assumes "distinct (map i_id (interviews d))" and "iv \<in> set (interviews d)"
    and "status iv = in_progress" and "aggregates_null iv"
  shows "finalized_from (interviews d)
           (interviews (set_interview d (i_id iv) completed sc st im (JStr ts)))"
proof -
  from assms(2) obtain pre post where sp: "interviews d = pre @ iv # post"
    by (meson split_list)
  with assms(1) have "i_id iv \<notin> i_id ` set pre" and "i_id iv \<notin> i_id ` set post"
    by auto
  then have pre: "\<forall>r\<in>set pre. i_id r \<noteq> i_id iv" and post: "\<forall>r\<in>set post. i_id r \<noteq> i_id iv"
    by (metis imageI)+
  let ?f = "\<lambda>r. if i_id r = i_id iv
                  then r\<lparr>status := completed,
                         overall_score := (case sc of None \<Rightarrow> overall_score r | Some v \<Rightarrow> v),
                         strengths := (case st of None \<Rightarrow> strengths r | Some v \<Rightarrow> v),
                         improvements := (case im of None \<Rightarrow> improvements r | Some v \<Rightarrow> v),
                         completed_at := JStr ts\<rparr>
                  else r"
  have "map ?f pre = pre" using pre by (simp add: map_idI)
  moreover have "map ?f post = post" using post by (simp add: map_idI)
  ultimately have "interviews (set_interview d (i_id iv) completed sc st im (JStr ts)) =
      pre @ [iv\<lparr>status := completed,
                overall_score := (case sc of None \<Rightarrow> overall_score iv | Some v \<Rightarrow> v),
                strengths := (case st of None \<Rightarrow> strengths iv | Some v \<Rightarrow> v),
                improvements := (case im of None \<Rightarrow> improvements iv | Some v \<Rightarrow> v),
                completed_at := JStr ts\<rparr>] @ post"
    by (simp add: set_interview_def sp)
  then show ?thesis
    unfolding finalized_from_def using sp assms(3,4)
    by (intro exI [of _ pre] exI [of _ iv] exI [of _ post]
        exI [of _ "case sc of None \<Rightarrow> overall_score iv | Some v \<Rightarrow> v"]
        exI [of _ "case st of None \<Rightarrow> strengths iv | Some v \<Rightarrow> v"]
        exI [of _ "case im of None \<Rightarrow> improvements iv | Some v \<Rightarrow> v"] exI [of _ ts]) simp
qed

lemma generateFinalFeedback_moves:
  assumes "consistent w" and "iv \<in> set (interviews (store w))" and "status iv = in_progress"
  shows "moves (interviews (store w)) (interviews (store (generateFinalFeedback rt r iv h w)))"
proof -
  have nul: "aggregates_null iv" using assms by (auto simp: consistent_def)
  have dis: "distinct (map i_id (interviews (store w)))" using assms(1) by (simp add: consistent_def)
  from generateFinalFeedback_cases [of rt r iv h w] show ?thesis
  proof (elim disjE exE conjE)
    assume "interviews (store (generateFinalFeedback rt r iv h w)) = interviews (store w)"
    then show ?thesis by (simp add: moves_def)
  next
    fix sc st im
    assume "store (generateFinalFeedback rt r iv h w) =
        set_interview (store w) (i_id iv) completed sc st im (JStr (now r))"
    then show ?thesis
      using set_interview_finalizes [OF dis assms(2,3) nul] by (simp add: moves_def)
  qed
qed

lemma handleSubmitAnswer_cases:
  assumes "interview (view w) = Some iv"
  shows "(interviews (store (handleSubmitAnswer rt r r' w)) = interviews (store w) \<and>
          location (handleSubmitAnswer rt r r' w) = location w \<and>
          interview (view (handleSubmitAnswer rt r r' w)) = interview (view w)) \<or>
         (\<exists>w1 h. interviews (store w1) = interviews (store w) \<and> location w1 = location w \<and>
                 interview (view w1) = interview (view w) \<and>
                 handleSubmitAnswer rt r r' w = generateFinalFeedback rt r' iv h w1)"
proof (cases "trim (userAnswer (view w)) = []")
  case True
  then show ?thesis using assms by (simp add: handleSubmitAnswer_def)
next
  case blank: False
  show ?thesis
  proof (cases "invoke r (evaluate_answer (job_role iv) (difficulty iv) (interview_type iv)
                   (currentQuestion (view w)) (userAnswer (view w)))")
    case Failed
    then show ?thesis using assms blank by (simp add: handleSubmitAnswer_def Let_def)
  next
    case (Ok result)
    obtain fb sc where ev: "evaluation rt result = (fb, sc)" by (cases "evaluation rt result")
    show ?thesis
    proof (cases "written r")
      case Failed
      then show ?thesis using assms blank Ok ev by (simp add: handleSubmitAnswer_def Let_def)
    next
      case wr: (Ok new_id)
      show ?thesis
      proof (cases "insert_answer rt (store w)
                      \<lparr>a_id = new_id, question_id = currentQuestionId (view w),
                       answer_text = userAnswer (view w), ai_feedback = fb, score = sc\<rparr>")
        case Failed
        then show ?thesis using assms blank Ok ev wr by (simp add: handleSubmitAnswer_def Let_def)
      next
        case ins: (Ok d)
        then have d: "interviews d = interviews (store w)"
          by (auto simp: insert_answer_def split: if_splits option.splits)
        define h where "h = qaHistory (view w) @
            [\<lparr>question = currentQuestion (view w), questionId = currentQuestionId (view w),
              answer = userAnswer (view w), answerId = Some new_id, feedback = fb,
              qa_score = sc\<rparr>]"
        define w1 where "w1 = w\<lparr>store := d,
            view := (view w)\<lparr>qaHistory := h, userAnswer := [], currentQuestion := [],
                              isSubmitting := False\<rparr>\<rparr>"
        have w1: "interviews (store w1) = interviews (store w)" "location w1 = location w"
          "interview (view w1) = interview (view w)"
          by (simp_all add: w1_def d)
        have eq: "handleSubmitAnswer rt r r' w =
            (if total_questions iv \<le> int (length h)
             then generateFinalFeedback rt r' iv h w1 else generateNextQuestion r' iv h w1)"
          using assms blank Ok ev wr ins
          by (simp add: handleSubmitAnswer_def Let_def h_def w1_def)
        show ?thesis
        proof (cases "total_questions iv \<le> int (length h)")
          case True
          then show ?thesis using eq w1 by auto
        next
          case False
          then show ?thesis using eq w1 by (simp add: generateNextQuestion_frame)
        qed
      qed
    qed
  qed
qed


lemma consistent_frame:
  assumes "consistent w" and "interviews (store w') = interviews (store w)"
    and "location w' = location w" and "interview (view w') = interview (view w)"
  shows "consistent w'"
  using assms by (simp add: consistent_def)

lemma handleSubmitAnswer_consistent:
  assumes "consistent w"
  shows "consistent (handleSubmitAnswer rt r r' w)"
proof (cases "interview (view w)")
  case None
  then show ?thesis using assms by (simp add: handleSubmitAnswer_def)
next
  case (Some iv)
  from handleSubmitAnswer_cases [OF Some, of rt r r'] show ?thesis
  proof (elim disjE exE conjE)
    assume "interviews (store (handleSubmitAnswer rt r r' w)) = interviews (store w)"
      "location (handleSubmitAnswer rt r r' w) = location w"
      "interview (view (handleSubmitAnswer rt r r' w)) = interview (view w)"
    with assms show ?thesis by (simp add: consistent_def)
  next
    fix w1 h
    assume "interviews (store w1) = interviews (store w)" "location w1 = location w"
      "interview (view w1) = interview (view w)"
      and eq: "handleSubmitAnswer rt r r' w = generateFinalFeedback rt r' iv h w1"
    with assms have "consistent w1" by (simp add: consistent_def)
    then show ?thesis unfolding eq by (rule generateFinalFeedback_consistent)
  qed
qed

lemma handleSubmitAnswer_moves:
  assumes "consistent w" and "answering w"
  shows "moves (interviews (store w)) (interviews (store (handleSubmitAnswer rt r r' w)))"
proof -
  from assms(2) obtain i iv where loc: "location w = InterviewRoute i"
    and iv: "interview (view w) = Some iv"
    by (auto simp: answering_def split: route.splits)
  with assms(1) have mem: "iv \<in> set (interviews (store w))" and st: "status iv = in_progress"
    by (auto simp: consistent_def)
  from handleSubmitAnswer_cases [OF iv, of rt r r'] show ?thesis
  proof (elim disjE exE conjE)
    assume "interviews (store (handleSubmitAnswer rt r r' w)) = interviews (store w)"
    then show ?thesis by (simp add: moves_def)
  next
    fix w1 h
    assume f: "interviews (store w1) = interviews (store w)" "location w1 = location w"
      "interview (view w1) = interview (view w)"
      and eq: "handleSubmitAnswer rt r r' w = generateFinalFeedback rt r' iv h w1"
    from f assms(1) have c1: "consistent w1" by (simp add: consistent_def)
    show ?thesis
      using generateFinalFeedback_moves [OF c1, of iv rt r' h] mem st f(1) eq by simp
  qed
qed

lemma fetchInterview_cases:
  "(interviews (store (fetchInterview rt e i w)) = interviews (store w) \<and>
    (location (fetchInterview rt e i w) = DashboardRoute \<or>
     location (fetchInterview rt e i w) = ResultsRoute i)) \<or>
   (\<exists>iv w1 h.
      select_interview (store w) i = Ok iv \<and> status iv \<noteq> completed \<and>
      interviews (store w1) = interviews (store w) \<and> location w1 = location w \<and>
      interview (view w1) = Some iv \<and>
      (fetchInterview rt e i w = w1 \<or>
       fetchInterview rt e i w = generateNextQuestion (follow e) iv h w1 \<or>
       fetchInterview rt e i w = generateFinalFeedback rt (follow e) iv h w1))"
proof (cases "if interview_read e then select_interview (store w) i else Failed")
  case Failed
  then show ?thesis by (simp add: fetchInterview_def Let_def)
next
  case (Ok iv)
  then have sel: "select_interview (store w) i = Ok iv" by (simp split: if_splits)
  show ?thesis
  proof (cases "status iv = completed")
    case True
    then show ?thesis using Ok by (simp add: fetchInterview_def Let_def)
  next
    case False
    define w1 where "w1 = w\<lparr>view := (view w)\<lparr>interview := Some iv, isLoading := False\<rparr>\<rparr>"
    define qs where "qs = select_questions (store w) i"
    define w2 where "w2 = w1\<lparr>view := (view w1)\<lparr>qaHistory := map existingQA qs,
                                                questionNumber := length qs + 1\<rparr>\<rparr>"
    define w3 where "w3 = w1\<lparr>view := (view w1)\<lparr>qaHistory := butlast (map existingQA qs),
                             currentQuestion := question_text (fst (last qs)),
                             currentQuestionId := q_id (fst (last qs)),
                             questionNumber := length qs\<rparr>\<rparr>"
    have f1: "interviews (store w1) = interviews (store w)" "location w1 = location w"
      "interview (view w1) = Some iv"
      by (simp_all add: w1_def)
    have f2: "interviews (store w2) = interviews (store w)" "location w2 = location w"
      "interview (view w2) = Some iv"
      by (simp_all add: w2_def w1_def)
    have f3: "interviews (store w3) = interviews (store w)" "location w3 = location w"
      "interview (view w3) = Some iv"
      by (simp_all add: w3_def w1_def)
    have "fetchInterview rt e i w = w3 \<or>
          fetchInterview rt e i w = generateNextQuestion (follow e) iv [] w1 \<or>
          fetchInterview rt e i w = generateNextQuestion (follow e) iv (map existingQA qs) w2 \<or>
          fetchInterview rt e i w = generateFinalFeedback rt (follow e) iv (map existingQA qs) w2"
      using Ok False
      by (simp add: fetchInterview_def Let_def w1_def w2_def w3_def qs_def)
    then show ?thesis
      using sel False f1 f2 f3 by blast
  qed
qed

lemma fetchInterview_consistent:
  assumes "consistent w"
  shows "consistent (fetchInterview rt e i w)"
proof -
  consider
    (away) "interviews (store (fetchInterview rt e i w)) = interviews (store w)"
      "location (fetchInterview rt e i w) = DashboardRoute \<or>
       location (fetchInterview rt e i w) = ResultsRoute i"
  | (loaded) iv w1 h where "select_interview (store w) i = Ok iv" "status iv \<noteq> completed"
      "interviews (store w1) = interviews (store w)" "location w1 = location w"
      "interview (view w1) = Some iv"
      "fetchInterview rt e i w = w1 \<or>
       fetchInterview rt e i w = generateNextQuestion (follow e) iv h w1 \<or>
       fetchInterview rt e i w = generateFinalFeedback rt (follow e) iv h w1"
    using fetchInterview_cases [of rt e i w] by blast
  then show ?thesis
  proof cases
    case away
    then show ?thesis using assms by (auto simp: consistent_def)
  next
    case loaded
    have mem: "iv \<in> set (interviews (store w))" using select_interview_id [OF loaded(1)] by simp
    then have "status iv = in_progress" using assms loaded(2) by (auto simp: consistent_def)
    then have c1: "consistent w1" using assms loaded(3,4,5) mem by (simp add: consistent_def)
    from loaded(6) show ?thesis
      using c1 generateNextQuestion_consistent generateFinalFeedback_consistent by auto
  qed
qed

lemma fetchInterview_moves:
  assumes "consistent w"
  shows "moves (interviews (store w)) (interviews (store (fetchInterview rt e i w)))"
proof -
  consider
    (away) "interviews (store (fetchInterview rt e i w)) = interviews (store w)"
  | (loaded) iv w1 h where "select_interview (store w) i = Ok iv" "status iv \<noteq> completed"
      "interviews (store w1) = interviews (store w)" "location w1 = location w"
      "interview (view w1) = Some iv"
      "fetchInterview rt e i w = w1 \<or>
       fetchInterview rt e i w = generateNextQuestion (follow e) iv h w1 \<or>
       fetchInterview rt e i w = generateFinalFeedback rt (follow e) iv h w1"
    using fetchInterview_cases [of rt e i w] by blast
  then show ?thesis
  proof cases
    case away
    then show ?thesis by (simp add: moves_def)
  next
    case loaded
    have mem: "iv \<in> set (interviews (store w))" using select_interview_id [OF loaded(1)] by simp
    then have st: "status iv = in_progress" using assms loaded(2) by (auto simp: consistent_def)
    then have c1: "consistent w1" using assms loaded(3,4,5) mem by (simp add: consistent_def)
    from loaded(6) show ?thesis
    proof (elim disjE)
      assume "fetchInterview rt e i w = w1"
      then show ?thesis using loaded(3) by (simp add: moves_def)
    next
      assume "fetchInterview rt e i w = generateNextQuestion (follow e) iv h w1"
      then show ?thesis using loaded(3) by (simp add: moves_def generateNextQuestion_frame)
    next
      assume "fetchInterview rt e i w = generateFinalFeedback rt (follow e) iv h w1"
      then show ?thesis
        using generateFinalFeedback_moves [OF c1, of iv rt "follow e" h] mem st loaded(3) by simp
    qed
  qed
qed

lemma handleStartInterview_cases:
  "(interviews (store (handleStartInterview r w)) = interviews (store w) \<and>
    location (handleStartInterview r w) = location w \<and>
    view (handleStartInterview r w) = view w) \<or>
   (\<exists>row. interviews (store (handleStartInterview r w)) = interviews (store w) @ [row] \<and>
          i_id row \<notin> set (map i_id (interviews (store w))) \<and>
          status row = in_progress \<and> aggregates_null row \<and>
          view (handleStartInterview r w) = initial_page)"
  by (auto simp: handleStartInterview_def Let_def insert_interview_def aggregates_null_def
      split: outcome.splits)

lemma handleStartInterview_consistent:
  assumes "consistent w"
  shows "consistent (handleStartInterview r w)"
proof -
  from handleStartInterview_cases [of r w] show ?thesis
  proof (elim disjE exE conjE)
    assume "interviews (store (handleStartInterview r w)) = interviews (store w)"
      "location (handleStartInterview r w) = location w"
      "view (handleStartInterview r w) = view w"
    then show ?thesis using assms by (simp add: consistent_def)
  next
    fix row
    assume "interviews (store (handleStartInterview r w)) = interviews (store w) @ [row]"
      "i_id row \<notin> set (map i_id (interviews (store w)))"
      "status row = in_progress" "aggregates_null row"
      "view (handleStartInterview r w) = initial_page"
    then show ?thesis using assms by (auto simp: consistent_def initial_page_def)
  qed
qed

lemma handleStartInterview_moves:
  "moves (interviews (store w)) (interviews (store (handleStartInterview r w)))"
  using handleStartInterview_cases [of r w] by (auto simp: moves_def created_from_def)

lemma step_consistent:
  assumes "consistent w"
  shows "consistent (step rt ev w)"
proof (cases ev)
  case (visit r)
  then show ?thesis using assms by (simp add: consistent_def initial_page_def)
next
  case (form_click c)
  then show ?thesis using assms by (simp add: consistent_def)
next
  case (start r)
  then show ?thesis using assms by (simp add: handleStartInterview_consistent)
next
  case (load e)
  then show ?thesis using assms by (simp add: fetchInterview_consistent split: route.splits)
next
  case (type_answer s)
  then show ?thesis using assms by (simp add: consistent_def)
next
  case (submit r r')
  then show ?thesis using assms by (simp add: handleSubmitAnswer_consistent)
qed

lemma step_moves:
  assumes "consistent w"
  shows "moves (interviews (store w)) (interviews (store (step rt ev w)))"
proof (cases ev)
  case (visit r)
  then show ?thesis by (simp add: moves_def)
next
  case (form_click c)
  then show ?thesis by (simp add: moves_def)
next
  case (start r)
  then show ?thesis using handleStartInterview_moves by (simp add: moves_def)
next
  case (load e)
  then show ?thesis using assms fetchInterview_moves
    by (simp add: moves_def split: route.splits)
next
  case (type_answer s)
  then show ?thesis by (simp add: moves_def)
next
  case (submit r r')
  then show ?thesis using assms handleSubmitAnswer_moves by (simp add: moves_def)
qed

lemma reachable_consistent: "reachable rt w \<Longrightarrow> consistent w"
proof (induction rule: reachable.induct)
  case (start_up u)
  then show ?case by (simp add: consistent_def initial_world_def initial_page_def)
next
  case (after w ev)
  then show ?case by (simp add: step_consistent)
qed

lemma reachable_foldl:
  "reachable rt w \<Longrightarrow> reachable rt (foldl (\<lambda>w ev. step rt ev w) w evs)"
proof (induction evs arbitrary: w)
  case Nil
  then show ?case by simp
next
  case (Cons ev evs)
  from Cons.prems have "reachable rt (step rt ev w)" by (rule reachable.after)
  then have "reachable rt (foldl (\<lambda>w ev. step rt ev w) (step rt ev w) evs)" by (rule Cons.IH)
  then show ?case by simp
qed

lemma reachable_run: "reachable rt (run rt u evs)"
  unfolding run_def by (rule reachable_foldl) (rule reachable.start_up)

lemma js_or_defined: "d \<noteq> JUndefined \<Longrightarrow> js_or v d \<noteq> JUndefined"
  by (cases v) (simp_all add: js_or_def)

lemma rounded_defined: "rounded v \<noteq> JUndefined"
  using is_number_rounded by (rule is_number_defined)

text \<open>No field of the update of the final feedback is \<^verbatim>\<open>undefined\<close>.\<close>

lemma final_feedback_defined:
  "fst (final_feedback rt result h) \<noteq> JUndefined \<and>
   fst (snd (final_feedback rt result h)) \<noteq> JUndefined \<and>
   snd (snd (final_feedback rt result h)) \<noteq> JUndefined"
  by (simp add: final_feedback_def js_or_defined rounded_defined split: option.splits sum.splits)

lemma generateFinalFeedback_store:
  "store (generateFinalFeedback rt r iv h w) = store w \<or>
   (\<exists>result sc st im.
      invoke r (generate_feedback (job_role iv) (difficulty iv) (interview_type iv)
        (map (\<lambda>qa. (question qa, answer qa, js_or (qa_score qa) (JNum 5))) h)) = Ok result \<and>
      decimal_3_1 rt (fst (final_feedback rt result h)) = Some sc \<and>
      text_array rt (fst (snd (final_feedback rt result h))) = Some st \<and>
      text_array rt (snd (snd (final_feedback rt result h))) = Some im \<and>
      store (generateFinalFeedback rt r iv h w) =
        (store w)\<lparr>interviews :=
          map (\<lambda>row. if i_id row = i_id iv
                      then row\<lparr>status := completed, overall_score := sc, strengths := st,
                               improvements := im, completed_at := JStr (now r)\<rparr>
                      else row)
            (interviews (store w))\<rparr>)"
proof (cases "invoke r (generate_feedback (job_role iv) (difficulty iv) (interview_type iv)
        (map (\<lambda>qa. (question qa, answer qa, js_or (qa_score qa) (JNum 5))) h))")
  case Failed
  then show ?thesis by (simp add: generateFinalFeedback_def Let_def)
next
  case (Ok result)
  obtain ov sts ims where ff: "final_feedback rt result h = (ov, sts, ims)"
    by (cases "final_feedback rt result h") auto
  with final_feedback_defined [of rt result h]
  have def: "ov \<noteq> JUndefined" "sts \<noteq> JUndefined" "ims \<noteq> JUndefined"
    by simp_all
  show ?thesis
  proof (cases "written r")
    case Failed
    then show ?thesis using Ok ff
      by (simp add: generateFinalFeedback_def Let_def)
  next
    case wr: (Ok u)
    show ?thesis
    proof (cases "decimal_3_1 rt ov")
      case None
      then show ?thesis using Ok ff wr def
        by (simp add: generateFinalFeedback_def Let_def update_interview_def field_def)
    next
      case sc: (Some sc)
      show ?thesis
      proof (cases "text_array rt sts")
        case None
        then show ?thesis using Ok ff wr def sc
          by (simp add: generateFinalFeedback_def Let_def update_interview_def field_def)
      next
        case st: (Some st)
        show ?thesis
        proof (cases "text_array rt ims")
          case None
          then show ?thesis using Ok ff wr def sc st
            by (simp add: generateFinalFeedback_def Let_def update_interview_def field_def)
        next
          case im: (Some im)
          have "store (generateFinalFeedback rt r iv h w) =
              (store w)\<lparr>interviews :=
                map (\<lambda>row. if i_id row = i_id iv
                            then row\<lparr>status := completed, overall_score := sc, strengths := st,
                                     improvements := im, completed_at := JStr (now r)\<rparr>
                            else row)
                  (interviews (store w))\<rparr>"
            using Ok ff wr def sc st im
            by (simp add: generateFinalFeedback_def Let_def update_interview_def field_def
                set_interview_def)
          then show ?thesis using Ok ff sc st im by simp
        qed
      qed
    qed
  qed
qed

text \<open>
  C6. The final feedback leaves the store as it is or changes it by one update, which sets
  the status \<^verbatim>\<open>completed\<close>, the overall score, the strengths, the improvements and the time
  of completion of the rows with the identifier of the interview and nothing else: no other
  column, no other row, no question and no answer. The three values are what the columns
  make of the values of the final feedback. In every world the workflow reaches, a row in
  progress has none of the four aggregate fields, and an event leaves the table of
  interviews as it is, adds one row in progress, or completes one row in progress by
  setting the five fields at once. A completed row is therefore never written again.
\<close>

theorem C6_completion_update:
  "(store (generateFinalFeedback rt r iv h w) = store w \<or>
    (\<exists>result sc st im.
       invoke r (generate_feedback (job_role iv) (difficulty iv) (interview_type iv)
         (map (\<lambda>qa. (question qa, answer qa, js_or (qa_score qa) (JNum 5))) h)) = Ok result \<and>
       decimal_3_1 rt (fst (final_feedback rt result h)) = Some sc \<and>
       text_array rt (fst (snd (final_feedback rt result h))) = Some st \<and>
       text_array rt (snd (snd (final_feedback rt result h))) = Some im \<and>
       store (generateFinalFeedback rt r iv h w) =
         (store w)\<lparr>interviews :=
           map (\<lambda>row. if i_id row = i_id iv
                       then row\<lparr>status := completed, overall_score := sc, strengths := st,
                                improvements := im, completed_at := JStr (now r)\<rparr>
                       else row)
             (interviews (store w))\<rparr>)) \<and>
   (reachable rt w \<longrightarrow>
      (\<forall>row\<in>set (interviews (store w)). status row = in_progress \<longrightarrow> aggregates_null row) \<and>
      (\<forall>ev. interviews (store (step rt ev w)) = interviews (store w) \<or>
            created_from (interviews (store w)) (interviews (store (step rt ev w))) \<or>
            finalized_from (interviews (store w)) (interviews (store (step rt ev w)))))"
proof (intro conjI impI)
  show "store (generateFinalFeedback rt r iv h w) = store w \<or>
    (\<exists>result sc st im.
       invoke r (generate_feedback (job_role iv) (difficulty iv) (interview_type iv)
         (map (\<lambda>qa. (question qa, answer qa, js_or (qa_score qa) (JNum 5))) h)) = Ok result \<and>
       decimal_3_1 rt (fst (final_feedback rt result h)) = Some sc \<and>
       text_array rt (fst (snd (final_feedback rt result h))) = Some st \<and>
       text_array rt (snd (snd (final_feedback rt result h))) = Some im \<and>
       store (generateFinalFeedback rt r iv h w) =
         (store w)\<lparr>interviews :=
           map (\<lambda>row. if i_id row = i_id iv
                       then row\<lparr>status := completed, overall_score := sc, strengths := st,
                                improvements := im, completed_at := JStr (now r)\<rparr>
                       else row)
             (interviews (store w))\<rparr>)"
    by (rule generateFinalFeedback_store)
next
  assume "reachable rt w"
  then have c: "consistent w" by (rule reachable_consistent)
  then show "\<forall>row\<in>set (interviews (store w)). status row = in_progress \<longrightarrow> aggregates_null row"
    by (auto simp: consistent_def)
  show "\<forall>ev. interviews (store (step rt ev w)) = interviews (store w) \<or>
            created_from (interviews (store w)) (interviews (store (step rt ev w))) \<or>
            finalized_from (interviews (store w)) (interviews (store (step rt ev w)))"
    using step_moves [OF c] by (simp add: moves_def)
qed

lemma five_turns_before:
  "interviews (store (run demo_runtime ''u1'' five_turns)) = [demo_interview]"
  by (simp add: model_defs)

lemma five_turns_after:
  "interviews (store (step demo_runtime (submit (says ''Good'' ''a5'') (says ''{}'' ''ok''))
                       (run demo_runtime ''u1'' five_turns))) =
     [demo_interview\<lparr>status := completed, overall_score := JNum 5, strengths := JArr [],
                      improvements := JArr [], completed_at := JStr ''T''\<rparr>]"
  by (simp add: model_defs)

theorem C6_completion_update_witness:
  "reachable demo_runtime (run demo_runtime ''u1'' five_turns) \<and>
   interviews (store (run demo_runtime ''u1'' five_turns)) = [demo_interview] \<and>
   aggregates_null demo_interview \<and>
   interviews (store (step demo_runtime (submit (says ''Good'' ''a5'') (says ''{}'' ''ok''))
                       (run demo_runtime ''u1'' five_turns))) =
     [demo_interview\<lparr>status := completed, overall_score := JNum 5, strengths := JArr [],
                      improvements := JArr [], completed_at := JStr ''T''\<rparr>] \<and>
   finalized_from [demo_interview]
     [demo_interview\<lparr>status := completed, overall_score := JNum 5, strengths := JArr [],
                      improvements := JArr [], completed_at := JStr ''T''\<rparr>]"
proof -
  have r: "reachable demo_runtime (run demo_runtime ''u1'' five_turns)"
    by (rule reachable_run)
  from C6_completion_update [of demo_runtime service_down demo_interview "[]"
      "run demo_runtime ''u1'' five_turns"] r
  have a: "\<forall>row\<in>set (interviews (store (run demo_runtime ''u1'' five_turns))).
             status row = in_progress \<longrightarrow> aggregates_null row"
    and b: "\<forall>ev. interviews (store (step demo_runtime ev (run demo_runtime ''u1'' five_turns))) =
               interviews (store (run demo_runtime ''u1'' five_turns)) \<or>
             created_from (interviews (store (run demo_runtime ''u1'' five_turns)))
               (interviews (store (step demo_runtime ev (run demo_runtime ''u1'' five_turns)))) \<or>
             finalized_from (interviews (store (run demo_runtime ''u1'' five_turns)))
               (interviews (store (step demo_runtime ev (run demo_runtime ''u1'' five_turns))))"
    by blast+
  from a have n: "aggregates_null demo_interview" by (simp add: five_turns_before)
  from b [rule_format, of "submit (says ''Good'' ''a5'') (says ''{}'' ''ok'')"]
  have f: "finalized_from [demo_interview]
     [demo_interview\<lparr>status := completed, overall_score := JNum 5, strengths := JArr [],
                      improvements := JArr [], completed_at := JStr ''T''\<rparr>]"
    unfolding five_turns_before five_turns_after by (simp add: created_from_def)
  show ?thesis using r n f five_turns_before five_turns_after by simp
qed

subsection \<open>Runs in which every read of the questions succeeds\<close>

lemma select_questions_orderly:
  assumes "map question_order (qs_of d i) = [1..int (length (qs_of d i))]"
  shows "select_questions d i = map (\<lambda>q. (q, as_of d (q_id q))) (qs_of d i)"
proof -
  have "sorted (map question_order (qs_of d i))"
    unfolding assms by simp
  then have "sort_key question_order (qs_of d i) = qs_of d i"
    by (rule sort_key_id_if_sorted)
  then show ?thesis
    by (simp add: select_questions_def qs_of_def as_of_def)
qed


lemma upto_next: "[1..int n + 1] = [1..int n] @ [int n + 1]"
  using upto_rec2 [of 1 "int n + 1"] by simp

lemma insert_question_Ok:
  assumes "insert_question d q = Ok d'"
  shows "questions d' = questions d @ [q]" "interviews d' = interviews d" "answers d' = answers d"
    "q_id q \<notin> set (map q_id (questions d))" "interview_id q \<in> set (map i_id (interviews d))"
  using assms by (auto simp: insert_question_def split: if_splits)

lemma insert_answer_Ok:
  assumes "insert_answer rt d a = Ok d'"
  shows "\<exists>a'. answers d' = answers d @ [a'] \<and> question_id a' = question_id a"
    "interviews d' = interviews d" "questions d' = questions d"
    "question_id a \<in> set (map q_id (questions d))"
  using assms by (auto simp: insert_answer_def split: if_splits option.splits)

text \<open>A new question for the interview of the row \<open>r\<close>, all of whose questions are answered.\<close>

lemma orderly_store_question:
  assumes o: "orderly_store d" and ins: "insert_question d q = Ok d'"
    and r: "r \<in> set (interviews d)" and i: "interview_id q = i_id r"
    and dis: "distinct (map i_id (interviews d))"
    and ord: "question_order q = int (length (qs_of d (i_id r))) + 1"
    and room: "int (length (qs_of d (i_id r))) < total_questions r"
    and answered: "\<forall>p\<in>set (qs_of d (i_id r)). as_of d (q_id p) \<noteq> []"
    and st: "status r \<noteq> completed"
  shows "orderly_store d'"
proof -
  note e = insert_question_Ok [OF ins]
  have fresh: "as_of d (q_id q) = []"
  proof -
    have "\<forall>a\<in>set (answers d). question_id a \<in> set (map q_id (questions d))"
      using o by (simp add: orderly_store_def)
    with e(4) have "\<forall>a\<in>set (answers d). question_id a \<noteq> q_id q"
      by metis
    then show ?thesis by (simp add: as_of_def)
  qed
  have as: "\<And>c. as_of d' c = as_of d c" by (simp add: as_of_def e)
  have qs_r: "qs_of d' (i_id r) = qs_of d (i_id r) @ [q]" by (simp add: qs_of_def e i)
  have qs_other: "\<And>j. j \<noteq> i_id r \<Longrightarrow> qs_of d' j = qs_of d j" by (simp add: qs_of_def e i)
  have rows: "orderly_row d' r'" if mem: "r' \<in> set (interviews d)" for r'
  proof (cases "r' = r")
    case True
    from o r have old: "orderly_row d r" by (simp add: orderly_store_def)
    have "[1..int (length (qs_of d (i_id r))) + 1] = [1..int (length (qs_of d (i_id r)))] @ [int (length (qs_of d (i_id r))) + 1]"
      by (rule upto_next)
    then have "map question_order (qs_of d' (i_id r)) = [1..int (length (qs_of d' (i_id r)))]"
      using old ord by (simp add: qs_r orderly_row_def add.commute)
    moreover have "\<forall>p\<in>set (qs_of d' (i_id r)). length (as_of d' (q_id p)) \<le> 1"
      using old fresh by (auto simp: qs_r as orderly_row_def)
    moreover have "\<forall>p\<in>set (butlast (qs_of d' (i_id r))). as_of d' (q_id p) \<noteq> []"
      using answered by (simp add: qs_r as)
    moreover have "0 < total_questions r" "int (length (qs_of d' (i_id r))) \<le> total_questions r"
      using old room by (simp_all add: qs_r orderly_row_def)
    ultimately show ?thesis using st True by (simp add: orderly_row_def)
  next
    case False
    with dis r mem have "i_id r' \<noteq> i_id r" by (metis distinct_map inj_onD)
    then have "qs_of d' (i_id r') = qs_of d (i_id r')" by (rule qs_other)
    moreover from o mem have "orderly_row d r'" by (simp add: orderly_store_def)
    ultimately show ?thesis by (simp add: orderly_row_def as)
  qed
  have "distinct (map q_id (questions d'))" using o e by (simp add: orderly_store_def)
  moreover have "\<forall>p\<in>set (questions d'). interview_id p \<in> set (map i_id (interviews d'))"
    using o e by (auto simp: orderly_store_def)
  moreover have "\<forall>a\<in>set (answers d'). question_id a \<in> set (map q_id (questions d'))"
    using o e by (auto simp: orderly_store_def)
  ultimately show ?thesis using rows by (simp add: orderly_store_def e)
qed


text \<open>An answer to a question that has none.\<close>

lemma orderly_store_answer:
  assumes o: "orderly_store d" and ins: "insert_answer rt d a = Ok d'"
    and un: "as_of d (question_id a) = []"
  shows "orderly_store d'"
proof -
  note e = insert_answer_Ok [OF ins]
  from e(1) obtain a' where a': "answers d' = answers d @ [a']" "question_id a' = question_id a"
    by blast
  have qs: "\<And>j. qs_of d' j = qs_of d j" by (simp add: qs_of_def e)
  have as: "\<And>c. as_of d' c = (if c = question_id a then [a'] else as_of d c)"
    using un by (simp add: as_of_def a')
  have rows: "orderly_row d' r" if "r \<in> set (interviews d)" for r
  proof -
    from o that have old: "orderly_row d r" by (simp add: orderly_store_def)
    then show ?thesis by (simp add: orderly_row_def qs as)
  qed
  have "\<forall>b\<in>set (answers d'). question_id b \<in> set (map q_id (questions d'))"
    using o e(3,4) a' by (auto simp: orderly_store_def)
  then show ?thesis using o rows by (simp add: orderly_store_def e(2,3))
qed

text \<open>The completion of an interview whose questions are all there and answered.\<close>

lemma orderly_store_complete:
  assumes o: "orderly_store d"
    and full: "\<forall>r\<in>set (interviews d). i_id r = i \<longrightarrow>
                 qs_of d i \<noteq> [] \<and> as_of d (q_id (last (qs_of d i))) \<noteq> [] \<and>
                 int (length (qs_of d i)) = total_questions r"
  shows "orderly_store (set_interview d i completed sc st im ts)"
proof -
  let ?d = "set_interview d i completed sc st im ts"
  have qs: "\<And>j. qs_of ?d j = qs_of d j" by (simp add: qs_of_def set_interview_def)
  have as: "\<And>c. as_of ?d c = as_of d c" by (simp add: as_of_def set_interview_def)
  have rows: "orderly_row ?d r'" if "r' \<in> set (interviews ?d)" for r'
  proof -
    from that obtain r where r: "r \<in> set (interviews d)"
      and r': "r' = (if i_id r = i
                     then r\<lparr>status := completed,
                            overall_score := (case sc of None \<Rightarrow> overall_score r | Some v \<Rightarrow> v),
                            strengths := (case st of None \<Rightarrow> strengths r | Some v \<Rightarrow> v),
                            improvements := (case im of None \<Rightarrow> improvements r | Some v \<Rightarrow> v),
                            completed_at := ts\<rparr>
                     else r)"
      by (auto simp: set_interview_def)
    from o r have old: "orderly_row d r" by (simp add: orderly_store_def)
    show ?thesis
    proof (cases "i_id r = i")
      case True
      with full r have "qs_of d i \<noteq> []" "as_of d (q_id (last (qs_of d i))) \<noteq> []"
        "int (length (qs_of d i)) = total_questions r"
        by auto
      then show ?thesis using old True r' by (simp add: orderly_row_def qs as)
    next
      case False
      then show ?thesis using old r' by (simp add: orderly_row_def qs as)
    qed
  qed
  have "set (map i_id (interviews ?d)) = set (map i_id (interviews d))"
    by (simp add: set_interview_ids)
  then have "\<forall>q\<in>set (questions ?d). interview_id q \<in> set (map i_id (interviews ?d))"
    using o by (simp add: orderly_store_def set_interview_def)
  moreover have "distinct (map q_id (questions ?d))"
    "\<forall>a\<in>set (answers ?d). question_id a \<in> set (map q_id (questions ?d))"
    using o by (simp_all add: orderly_store_def set_interview_def)
  ultimately show ?thesis using rows by (simp add: orderly_store_def)
qed

text \<open>A new interview.\<close>

lemma orderly_store_interview:
  assumes o: "orderly_store d" and ins: "insert_interview d r = Ok d'"
    and pos: "0 < total_questions r" and st: "status r = in_progress"
  shows "orderly_store d'"
proof -
  from ins have e: "interviews d' = interviews d @ [r]" "questions d' = questions d"
    "answers d' = answers d" "i_id r \<notin> set (map i_id (interviews d))"
    by (auto simp: insert_interview_def split: if_splits)
  have qs: "\<And>j. qs_of d' j = qs_of d j" by (simp add: qs_of_def e)
  have as: "\<And>c. as_of d' c = as_of d c" by (simp add: as_of_def e)
  have "\<forall>q\<in>set (questions d). interview_id q \<noteq> i_id r"
    using o e(4) by (metis orderly_store_def)
  then have none: "qs_of d (i_id r) = []" by (simp add: qs_of_def)
  have new: "orderly_row d' r"
    using pos st by (simp add: orderly_row_def qs none)
  have old: "\<forall>r'\<in>set (interviews d). orderly_row d' r'"
    using o by (simp add: orderly_store_def orderly_row_def qs as)
  have "\<forall>q\<in>set (questions d'). interview_id q \<in> set (map i_id (interviews d'))"
    using o e by (auto simp: orderly_store_def)
  then show ?thesis using o new old by (simp add: orderly_store_def e)
qed

lemma generateNextQuestion_orderly:
  assumes c: "consistent w" and o: "orderly_store (store w)"
    and f: "questionCount (form w) \<in> {5, 10, 15}"
    and iv: "iv \<in> set (interviews (store w))" "status iv = in_progress"
    and page: "interview (view w) = Some iv" "currentQuestion (view w) = []"
      "\<not> isLoading (view w)" "location w = InterviewRoute (i_id iv)"
    and h: "length h = length (qs_of (store w) (i_id iv))" "length (qaHistory (view w)) = length h"
    and answered: "\<forall>p\<in>set (qs_of (store w) (i_id iv)). as_of (store w) (q_id p) \<noteq> []"
    and room: "int (length h) < total_questions iv"
  shows "orderly (generateNextQuestion r iv h w)"
proof -
  let ?failed = "w\<lparr>toast := Some ''Failed to generate question. Please try again.'',
                   view := (view w)\<lparr>isGenerating := False\<rparr>\<rparr>"
  have failed: "orderly ?failed"
    using c o f page by (simp add: orderly_def consistent_def)
  show ?thesis
  proof (cases "invoke r (generate_question (job_role iv) (difficulty iv) (interview_type iv)
                  (length h + 1) (total_questions iv) (map question h))")
    case Failed
    then show ?thesis using failed by (simp add: generateNextQuestion_def Let_def)
  next
    case (Ok result)
    show ?thesis
    proof (cases "written r")
      case Failed
      then show ?thesis using failed Ok by (simp add: generateNextQuestion_def Let_def)
    next
      case wr: (Ok new_id)
      let ?q = "\<lparr>q_id = new_id, interview_id = i_id iv, question_text = trim result,
                 question_order = int (length h) + 1\<rparr>"
      show ?thesis
      proof (cases "insert_question (store w) ?q")
        case Failed
        then show ?thesis using failed Ok wr by (simp add: generateNextQuestion_def Let_def)
      next
        case ins: (Ok d)
        note e = insert_question_Ok [OF ins]
        have eq: "generateNextQuestion r iv h w =
            w\<lparr>store := d,
              view := (view w)\<lparr>currentQuestion := trim result, currentQuestionId := new_id,
                               questionNumber := length h + 1, isGenerating := False\<rparr>\<rparr>"
          using Ok wr ins by (simp add: generateNextQuestion_def Let_def)
        have dis: "distinct (map i_id (interviews (store w)))" using c by (simp add: consistent_def)
        have od: "orderly_store d"
          using orderly_store_question [OF o ins iv(1) _ dis _ _ answered] iv(2) h room by simp
        have cd: "consistent (w\<lparr>store := d,
              view := (view w)\<lparr>currentQuestion := trim result, currentQuestionId := new_id,
                               questionNumber := length h + 1, isGenerating := False\<rparr>\<rparr>)"
          using c e(2) by (simp add: consistent_def)
        have qs: "qs_of d (i_id iv) = qs_of (store w) (i_id iv) @ [?q]"
          by (simp add: qs_of_def e)
        have "\<forall>a\<in>set (answers (store w)). question_id a \<in> set (map q_id (questions (store w)))"
          using o by (simp add: orderly_store_def)
        with e(4) have "\<forall>a\<in>set (answers (store w)). question_id a \<noteq> new_id"
          by (metis question_row.select_convs(1))
        then have fresh: "as_of d new_id = []" by (simp add: as_of_def e)
        show ?thesis
          unfolding eq orderly_def using cd od f page qs fresh h by simp
      qed
    qed
  qed
qed

lemma generateFinalFeedback_orderly:
  assumes c: "consistent w" and o: "orderly_store (store w)"
    and f: "questionCount (form w) \<in> {5, 10, 15}"
    and iv: "iv \<in> set (interviews (store w))"
    and page: "currentQuestion (view w) = []" "\<not> isLoading (view w)"
      "interview (view w) = Some iv" "location w = InterviewRoute (i_id iv)"
    and full: "qs_of (store w) (i_id iv) \<noteq> []"
      "as_of (store w) (q_id (last (qs_of (store w) (i_id iv)))) \<noteq> []"
      "int (length (qs_of (store w) (i_id iv))) = total_questions iv"
  shows "orderly (generateFinalFeedback rt r iv h w)"
proof -
  have c': "consistent (generateFinalFeedback rt r iv h w)"
    using c by (rule generateFinalFeedback_consistent)
  have dis: "distinct (map i_id (interviews (store w)))" using c by (simp add: consistent_def)
  have only: "\<forall>r\<in>set (interviews (store w)). i_id r = i_id iv \<longrightarrow> r = iv"
    using dis iv by (metis distinct_map inj_onD)
  have rest: "form (generateFinalFeedback rt r iv h w) = form w"
    "currentQuestion (view (generateFinalFeedback rt r iv h w)) = []"
    "\<not> isLoading (view (generateFinalFeedback rt r iv h w))"
    using page by (simp_all add: generateFinalFeedback_def Let_def split: outcome.splits prod.splits)
  from generateFinalFeedback_cases [of rt r iv h w]
  have "orderly_store (store (generateFinalFeedback rt r iv h w))"
  proof (elim disjE exE conjE)
    assume "interviews (store (generateFinalFeedback rt r iv h w)) = interviews (store w)"
    moreover have "questions (store (generateFinalFeedback rt r iv h w)) = questions (store w)"
      "answers (store (generateFinalFeedback rt r iv h w)) = answers (store w)"
      by (auto simp: generateFinalFeedback_def Let_def set_interview_def
          split: outcome.splits prod.splits dest!: update_interview_Ok)
    ultimately have "store (generateFinalFeedback rt r iv h w) = store w"
      by (simp add: db.equality)
    then show ?thesis using o by simp
  next
    fix sc st im
    assume up: "store (generateFinalFeedback rt r iv h w) =
        set_interview (store w) (i_id iv) completed sc st im (JStr (now r))"
    moreover have "orderly_store (set_interview (store w) (i_id iv) completed sc st im
        (JStr (now r)))"
      using o only full by (intro orderly_store_complete) auto
    ultimately show ?thesis by simp
  qed
  moreover have "\<forall>i iva. location (generateFinalFeedback rt r iv h w) = InterviewRoute i \<and>
      interview (view (generateFinalFeedback rt r iv h w)) = Some iva \<longrightarrow> i_id iva = i"
    using generateFinalFeedback_cases [of rt r iv h w] page(3,4) by auto
  ultimately show ?thesis
    unfolding orderly_def using c' f rest by simp
qed


lemma orderly_same:
  assumes "orderly w" and "store w' = store w" and "form w' = form w"
    and "location w' = location w" and "interview (view w') = interview (view w)"
    and "currentQuestion (view w') = currentQuestion (view w)"
    and "currentQuestionId (view w') = currentQuestionId (view w)"
    and "qaHistory (view w') = qaHistory (view w)" and "\<not> isLoading (view w')"
  shows "orderly w'"
  using assms(1,9) unfolding orderly_def consistent_def assms(2-8) by blast

lemma orderly_page:
  assumes "orderly w" and "location w = InterviewRoute i" and "interview (view w) = Some iv"
  shows "i_id iv = i"
    and "currentQuestion (view w) \<noteq> [] \<Longrightarrow> qs_of (store w) i \<noteq> []"
    and "currentQuestion (view w) \<noteq> [] \<Longrightarrow>
           as_of (store w) (q_id (last (qs_of (store w) i))) = []"
    and "currentQuestion (view w) \<noteq> [] \<Longrightarrow>
           q_id (last (qs_of (store w) i)) = currentQuestionId (view w)"
    and "currentQuestion (view w) \<noteq> [] \<Longrightarrow>
           Suc (length (qaHistory (view w))) = length (qs_of (store w) i)"
proof -
  from assms have p: "i_id iv = i \<and>
         (currentQuestion (view w) \<noteq> [] \<longrightarrow>
            qs_of (store w) i \<noteq> [] \<and>
            as_of (store w) (q_id (last (qs_of (store w) i))) = [] \<and>
            q_id (last (qs_of (store w) i)) = currentQuestionId (view w) \<and>
            Suc (length (qaHistory (view w))) = length (qs_of (store w) i))"
    unfolding orderly_def by (elim conjE allE [of _ i] allE [of _ iv]) blast
  from p show "i_id iv = i" by (rule conjunct1)
  from p show "currentQuestion (view w) \<noteq> [] \<Longrightarrow> qs_of (store w) i \<noteq> []" by blast
  from p show "currentQuestion (view w) \<noteq> [] \<Longrightarrow>
           as_of (store w) (q_id (last (qs_of (store w) i))) = []" by blast
  from p show "currentQuestion (view w) \<noteq> [] \<Longrightarrow>
           q_id (last (qs_of (store w) i)) = currentQuestionId (view w)" by blast
  from p show "currentQuestion (view w) \<noteq> [] \<Longrightarrow>
           Suc (length (qaHistory (view w))) = length (qs_of (store w) i)" by blast
qed

lemma consistent_page:
  assumes "consistent w" and "location w = InterviewRoute i" and "interview (view w) = Some iv"
  shows "iv \<in> set (interviews (store w))" and "status iv = in_progress"
  using assms unfolding consistent_def by blast+

lemma all_answered:
  assumes "\<forall>p\<in>set (butlast Q). P p" and "Q \<noteq> []" and "P (last Q)"
  shows "\<forall>p\<in>set Q. P p"
proof -
  have "Q = butlast Q @ [last Q]" using assms(2) by simp
  then have "set Q = set (butlast Q @ [last Q])" by simp
  then have "set Q = set (butlast Q) \<union> {last Q}" by (simp del: append_butlast_last_id)
  then show ?thesis using assms(1,3) by auto
qed

lemma handleSubmitAnswer_orderly:
  assumes ow: "orderly w" and an: "answering w"
  shows "orderly (handleSubmitAnswer rt r r' w)"
proof -
  from an obtain i iv where loc: "location w = InterviewRoute i"
    and iv: "interview (view w) = Some iv" and cq: "currentQuestion (view w) \<noteq> []"
    and nl: "\<not> isLoading (view w)"
    by (auto simp: answering_def split: route.splits)
  from ow have c: "consistent w" and o: "orderly_store (store w)"
    and f: "questionCount (form w) \<in> {5, 10, 15}"
    by (simp_all add: orderly_def)
  note id = orderly_page(1) [OF ow loc iv]
  note Q = orderly_page(2) [OF ow loc iv cq] orderly_page(3) [OF ow loc iv cq]
    orderly_page(4) [OF ow loc iv cq] orderly_page(5) [OF ow loc iv cq]
  note mem = consistent_page(1) [OF c loc iv] and st = consistent_page(2) [OF c loc iv]
  from o mem have row: "orderly_row (store w) iv" by (simp add: orderly_store_def)
  let ?failed = "w\<lparr>toast := Some ''Failed to submit answer. Please try again.'',
                   view := (view w)\<lparr>isSubmitting := False\<rparr>\<rparr>"
  have failed: "orderly ?failed"
    using nl by (intro orderly_same [OF ow]) simp_all
  show ?thesis
  proof (cases "trim (userAnswer (view w)) = []")
    case True
    then show ?thesis using ow iv by (simp add: handleSubmitAnswer_def)
  next
    case blank: False
    show ?thesis
    proof (cases "invoke r (evaluate_answer (job_role iv) (difficulty iv) (interview_type iv)
                     (currentQuestion (view w)) (userAnswer (view w)))")
      case Failed
      then show ?thesis using failed iv blank by (simp add: handleSubmitAnswer_def Let_def)
    next
      case (Ok result)
      obtain fb sc where ev: "evaluation rt result = (fb, sc)" by (cases "evaluation rt result")
      show ?thesis
      proof (cases "written r")
        case Failed
        then show ?thesis using failed iv blank Ok ev by (simp add: handleSubmitAnswer_def Let_def)
      next
        case wr: (Ok new_id)
        let ?a = "\<lparr>a_id = new_id, question_id = currentQuestionId (view w),
                   answer_text = userAnswer (view w), ai_feedback = fb, score = sc\<rparr>"
        show ?thesis
        proof (cases "insert_answer rt (store w) ?a")
          case Failed
          then show ?thesis using failed iv blank Ok ev wr
            by (simp add: handleSubmitAnswer_def Let_def)
        next
          case ins: (Ok d)
          note e = insert_answer_Ok [OF ins]
          from e(1) obtain a' where a': "answers d = answers (store w) @ [a']"
            "question_id a' = currentQuestionId (view w)"
            by auto
          define h where "h = qaHistory (view w) @
              [\<lparr>question = currentQuestion (view w), questionId = currentQuestionId (view w),
                answer = userAnswer (view w), answerId = Some new_id, feedback = fb,
                qa_score = sc\<rparr>]"
          define w1 where "w1 = w\<lparr>store := d,
              view := (view w)\<lparr>qaHistory := h, userAnswer := [], currentQuestion := [],
                                isSubmitting := False\<rparr>\<rparr>"
          have eq: "handleSubmitAnswer rt r r' w =
              (if total_questions iv \<le> int (length h)
               then generateFinalFeedback rt r' iv h w1 else generateNextQuestion r' iv h w1)"
            using iv blank Ok ev wr ins
            by (simp add: handleSubmitAnswer_def Let_def h_def w1_def)
          have od: "orderly_store d"
            using orderly_store_answer [OF o ins] Q(2,3) by simp
          have c1: "consistent w1" using c e(2) by (simp add: consistent_def w1_def)
          have qs: "qs_of d i = qs_of (store w) i" by (simp add: qs_of_def e)
          have as: "\<And>c. as_of d c = (if c = currentQuestionId (view w) then [a'] else as_of (store w) c)"
            using Q(2,3) by (simp add: as_of_def a')
          have lastq: "as_of d (q_id (last (qs_of d i))) \<noteq> []" by (simp add: qs as Q(3))
          have "\<forall>p\<in>set (butlast (qs_of d i)). as_of d (q_id p) \<noteq> []"
            using row id by (simp add: orderly_row_def qs as)
          moreover have "qs_of d i \<noteq> []" using Q(1) by (simp add: qs)
          ultimately have answered: "\<forall>p\<in>set (qs_of d i). as_of d (q_id p) \<noteq> []"
            using lastq by (rule all_answered)
          have len: "length h = length (qs_of d i)" using Q(4) by (simp add: h_def qs)
          have bound: "int (length (qs_of d i)) \<le> total_questions iv"
            using row id by (simp add: orderly_row_def qs)
          have sw: "store w1 = d" by (simp add: w1_def)
          have p_o: "orderly_store (store w1)" unfolding sw by (rule od)
          have p_f: "questionCount (form w1) \<in> {5, 10, 15}" using f by (simp add: w1_def)
          have p_iv: "iv \<in> set (interviews (store w1))" unfolding sw e(2) by (rule mem)
          have p_cq: "currentQuestion (view w1) = []" by (simp add: w1_def)
          have p_nl: "\<not> isLoading (view w1)" using nl by (simp add: w1_def)
          have p_int: "interview (view w1) = Some iv" using iv by (simp add: w1_def)
          have p_loc: "location w1 = InterviewRoute (i_id iv)" using loc id by (simp add: w1_def)
          have p_len: "length h = length (qs_of (store w1) (i_id iv))" unfolding sw id by (rule len)
          have p_hist: "length (qaHistory (view w1)) = length h" by (simp add: w1_def)
          have p_ans: "\<forall>p\<in>set (qs_of (store w1) (i_id iv)). as_of (store w1) (q_id p) \<noteq> []"
            unfolding sw id by (rule answered)
          have p_q1: "qs_of (store w1) (i_id iv) \<noteq> []" unfolding sw id qs by (rule Q(1))
          have p_q2: "as_of (store w1) (q_id (last (qs_of (store w1) (i_id iv)))) \<noteq> []"
            unfolding sw id by (rule lastq)
          show ?thesis
          proof (cases "total_questions iv \<le> int (length h)")
            case True
            with bound len have p_q3: "int (length (qs_of (store w1) (i_id iv))) = total_questions iv"
              unfolding sw id by simp
            have "orderly (generateFinalFeedback rt r' iv h w1)"
              by (rule generateFinalFeedback_orderly
                  [OF c1 p_o p_f p_iv p_cq p_nl p_int p_loc p_q1 p_q2 p_q3])
            then show ?thesis using eq True by simp
          next
            case False
            then have p_room: "int (length h) < total_questions iv" by simp
            have "orderly (generateNextQuestion r' iv h w1)"
              by (rule generateNextQuestion_orderly
                  [OF c1 p_o p_f p_iv st p_int p_cq p_nl p_loc p_len p_hist p_ans p_room])
            then show ?thesis using eq False by simp
          qed
        qed
      qed
    qed
  qed
qed


lemma orderly_away:
  assumes "orderly w" and "store w' = store w" and "form w' = form w"
    and "\<forall>i. location w' \<noteq> InterviewRoute i" and "\<not> isLoading (view w')"
  shows "orderly w'"
  using assms(1,4,5) unfolding orderly_def consistent_def assms(2,3) by blast

lemma fetchInterview_orderly:
  assumes ow: "orderly w" and loc: "location w = InterviewRoute i"
    and ld: "isLoading (view w)" and rd: "questions_read e"
  shows "orderly (fetchInterview rt e i w)"
proof -
  from ow have c: "consistent w" and o: "orderly_store (store w)"
    and f: "questionCount (form w) \<in> {5, 10, 15}"
    by (simp_all add: orderly_def)
  from ow ld have vw: "view w = initial_page" by (simp add: orderly_def)
  show ?thesis
  proof (cases "if interview_read e then select_interview (store w) i else Failed")
    case Failed
    then have "fetchInterview rt e i w =
        w\<lparr>toast := Some ''Failed to load interview'', location := DashboardRoute,
          view := (view w)\<lparr>isLoading := False\<rparr>\<rparr>"
      by (simp add: fetchInterview_def Let_def)
    moreover have "orderly (w\<lparr>toast := Some ''Failed to load interview'', location := DashboardRoute,
          view := (view w)\<lparr>isLoading := False\<rparr>\<rparr>)"
      by (rule orderly_away [OF ow]) simp_all
    ultimately show ?thesis by simp
  next
    case (Ok iv)
    then have sel: "select_interview (store w) i = Ok iv" by (simp split: if_splits)
    note id = select_interview_id [OF sel, THEN conjunct1]
    note mem = select_interview_id [OF sel, THEN conjunct2]
    show ?thesis
    proof (cases "status iv = completed")
      case True
      then have "fetchInterview rt e i w =
          w\<lparr>location := ResultsRoute i, view := (view w)\<lparr>isLoading := False\<rparr>\<rparr>"
        using Ok by (simp add: fetchInterview_def Let_def)
      moreover have "orderly (w\<lparr>location := ResultsRoute i, view := (view w)\<lparr>isLoading := False\<rparr>\<rparr>)"
        by (rule orderly_away [OF ow]) simp_all
      ultimately show ?thesis by simp
    next
      case False
      with c mem have st: "status iv = in_progress" by (auto simp: consistent_def)
      from o mem have row: "orderly_row (store w) iv" by (simp add: orderly_store_def)
      define Q where "Q = qs_of (store w) i"
      define qs where "qs = select_questions (store w) i"
      have ord: "map question_order Q = [1..int (length Q)]"
        and one: "\<forall>q\<in>set (butlast Q). as_of (store w) (q_id q) \<noteq> []"
        and pos: "0 < total_questions iv" and bound: "int (length Q) \<le> total_questions iv"
        using row unfolding orderly_row_def id Q_def by blast+
      have qs_eq: "qs = map (\<lambda>q. (q, as_of (store w) (q_id q))) Q"
        unfolding qs_def Q_def by (rule select_questions_orderly) (rule ord [unfolded Q_def])
      have len: "length qs = length Q" by (simp add: qs_eq)
      define w1 where "w1 = w\<lparr>view := (view w)\<lparr>interview := Some iv, isLoading := False\<rparr>\<rparr>"
      have c1: "consistent w1" using c mem st by (simp add: consistent_def w1_def)
      show ?thesis
      proof (cases "Q = []")
        case True
        then have eq: "fetchInterview rt e i w = generateNextQuestion (follow e) iv [] w1"
          using Ok False rd qs_eq by (simp add: fetchInterview_def Let_def w1_def qs_def)
        have "orderly (generateNextQuestion (follow e) iv [] w1)"
        proof (rule generateNextQuestion_orderly [OF c1 _ _ _ st])
          show "orderly_store (store w1)" using o by (simp add: w1_def)
          show "questionCount (form w1) \<in> {5, 10, 15}" using f by (simp add: w1_def)
          show "iv \<in> set (interviews (store w1))" using mem by (simp add: w1_def)
          show "interview (view w1) = Some iv" by (simp add: w1_def)
          show "currentQuestion (view w1) = []" by (simp add: w1_def vw initial_page_def)
          show "\<not> isLoading (view w1)" by (simp add: w1_def)
          show "location w1 = InterviewRoute (i_id iv)" using loc id by (simp add: w1_def)
          show "length [] = length (qs_of (store w1) (i_id iv))"
            using True by (simp add: w1_def id Q_def)
          show "length (qaHistory (view w1)) = length []" by (simp add: w1_def vw initial_page_def)
          show "\<forall>p\<in>set (qs_of (store w1) (i_id iv)). as_of (store w1) (q_id p) \<noteq> []"
            using True by (simp add: w1_def id Q_def)
          show "int (length []) < total_questions iv" using pos by simp
        qed
        then show ?thesis using eq by simp
      next
        case ne: False
        have lastq: "last qs = (last Q, as_of (store w) (q_id (last Q)))"
          using ne by (simp add: qs_eq last_map)
        have qne: "qs \<noteq> []" using ne by (simp add: qs_eq)
        show ?thesis
        proof (cases "as_of (store w) (q_id (last Q)) = []")
          case True
          define w3 where "w3 = w1\<lparr>view := (view w1)\<lparr>qaHistory := butlast (map existingQA qs),
                             currentQuestion := question_text (last Q),
                             currentQuestionId := q_id (last Q),
                             questionNumber := length qs\<rparr>\<rparr>"
          have eq: "fetchInterview rt e i w = w3"
            using Ok False rd qne len lastq True
            by (simp add: fetchInterview_def Let_def w1_def w3_def qs_def [symmetric])
          have "consistent w3" using c1 by (simp add: consistent_def w3_def w1_def)
          moreover have "orderly_store (store w3)" using o by (simp add: w3_def w1_def)
          moreover have "questionCount (form w3) \<in> {5, 10, 15}" using f by (simp add: w3_def w1_def)
          moreover have "\<not> isLoading (view w3)" by (simp add: w3_def w1_def)
          moreover have "location w3 = InterviewRoute i" "interview (view w3) = Some iv"
            "qs_of (store w3) i = Q" "currentQuestionId (view w3) = q_id (last Q)"
            "Suc (length (qaHistory (view w3))) = length Q"
            "as_of (store w3) (q_id (last Q)) = []"
            using loc ne len True by (simp_all add: w3_def w1_def Q_def as_of_def)
          ultimately have "orderly w3"
            unfolding orderly_def using id ne True by simp
          then show ?thesis using eq by simp
        next
          case ans: False
          define h where "h = map existingQA qs"
          define w2 where "w2 = w1\<lparr>view := (view w1)\<lparr>qaHistory := h,
                                                     questionNumber := length qs + 1\<rparr>\<rparr>"
          have eq: "fetchInterview rt e i w =
              (if int (length Q) < total_questions iv
               then generateNextQuestion (follow e) iv h w2
               else generateFinalFeedback rt (follow e) iv h w2)"
            using Ok False rd qne len lastq ans
            by (simp add: fetchInterview_def Let_def w1_def w2_def h_def qs_def [symmetric])
          have c2: "consistent w2" using c1 by (simp add: consistent_def w2_def w1_def)
          have p_o: "orderly_store (store w2)" using o by (simp add: w2_def w1_def)
          have p_f: "questionCount (form w2) \<in> {5, 10, 15}" using f by (simp add: w2_def w1_def)
          have p_iv: "iv \<in> set (interviews (store w2))" using mem by (simp add: w2_def w1_def)
          have p_cq: "currentQuestion (view w2) = []"
            by (simp add: w2_def w1_def vw initial_page_def)
          have p_nl: "\<not> isLoading (view w2)" by (simp add: w2_def w1_def)
          have p_int: "interview (view w2) = Some iv" by (simp add: w2_def w1_def)
          have p_loc: "location w2 = InterviewRoute (i_id iv)" using loc id by (simp add: w2_def w1_def)
          have sq: "qs_of (store w2) (i_id iv) = Q" by (simp add: w2_def w1_def id Q_def)
          have sa: "\<And>c. as_of (store w2) c = as_of (store w) c" by (simp add: w2_def w1_def as_of_def)
          have p_len: "length h = length (qs_of (store w2) (i_id iv))" by (simp add: sq h_def len)
          have p_hist: "length (qaHistory (view w2)) = length h" by (simp add: w2_def)
          have "\<forall>p\<in>set Q. as_of (store w) (q_id p) \<noteq> []"
            using one ne ans by (rule all_answered)
          then have p_ans: "\<forall>p\<in>set (qs_of (store w2) (i_id iv)). as_of (store w2) (q_id p) \<noteq> []"
            by (simp add: sq sa)
          have p_q1: "qs_of (store w2) (i_id iv) \<noteq> []" using ne by (simp add: sq)
          have p_q2: "as_of (store w2) (q_id (last (qs_of (store w2) (i_id iv)))) \<noteq> []"
            using ans by (simp add: sq sa)
          show ?thesis
          proof (cases "int (length Q) < total_questions iv")
            case True
            then have p_room: "int (length h) < total_questions iv" by (simp add: h_def len)
            have "orderly (generateNextQuestion (follow e) iv h w2)"
              by (rule generateNextQuestion_orderly
                  [OF c2 p_o p_f p_iv st p_int p_cq p_nl p_loc p_len p_hist p_ans p_room])
            then show ?thesis using eq True by simp
          next
            case False
            with bound have p_q3: "int (length (qs_of (store w2) (i_id iv))) = total_questions iv"
              by (simp add: sq)
            have "orderly (generateFinalFeedback rt (follow e) iv h w2)"
              by (rule generateFinalFeedback_orderly
                  [OF c2 p_o p_f p_iv p_cq p_nl p_int p_loc p_q1 p_q2 p_q3])
            then show ?thesis using eq False by simp
          qed
        qed
      qed
    qed
  qed
qed

lemma orderly_eq:
  assumes "orderly w" and "store w' = store w" and "questionCount (form w') \<in> {5, 10, 15}"
    and "location w' = location w" and "view w' = view w"
  shows "orderly w'"
  using assms(1,3) unfolding orderly_def consistent_def assms(2,4,5) by blast

lemma orderly_toast:
  assumes "orderly w"
  shows "orderly (w\<lparr>toast := t\<rparr>)"
proof -
  from assms have "questionCount (form w) \<in> {5, 10, 15}" by (simp add: orderly_def)
  then show ?thesis by (intro orderly_eq [OF assms]) simp_all
qed

lemma orderly_form:
  assumes "orderly w" and "questionCount f \<in> {5, 10, 15}"
  shows "orderly (w\<lparr>form := f\<rparr>)"
  using assms(2) by (intro orderly_eq [OF assms(1)]) simp_all

lemma handleStartInterview_orderly:
  assumes ow: "orderly w"
  shows "orderly (handleStartInterview r w)"
proof -
  define role where "role = (if jobRole (form w) = ''custom'' then customRole (form w) else jobRole (form w))"
  define row where "row = (\<lambda>new_id.
      \<lparr>i_id = new_id, user_id = user w, job_role = role,
       difficulty = difficulty_state (form w), interview_type = interviewType (form w),
       total_questions = questionCount (form w), status = in_progress,
       overall_score = JNull, strengths = JNull, improvements = JNull,
       created_at = now r, completed_at = JNull\<rparr>)"
  from ow have o: "orderly_store (store w)" and f: "questionCount (form w) \<in> {5, 10, 15}"
    by (simp_all add: orderly_def)
  have c': "consistent (handleStartInterview r w)"
    using ow by (simp add: orderly_def handleStartInterview_consistent)
  show ?thesis
  proof (cases "trim role = []")
    case True
    then show ?thesis using ow by (simp add: handleStartInterview_def Let_def role_def orderly_toast)
  next
    case blank: False
    show ?thesis
    proof (cases "written r")
      case Failed
      then show ?thesis using ow blank
        by (simp add: handleStartInterview_def Let_def role_def orderly_toast)
    next
      case wr: (Ok new_id)
      show ?thesis
      proof (cases "insert_interview (store w) (row new_id)")
        case Failed
        then show ?thesis using ow blank wr
          by (simp add: handleStartInterview_def Let_def role_def row_def orderly_toast)
      next
        case ins: (Ok d)
        then have eq: "handleStartInterview r w =
            w\<lparr>store := d, toast := Some ''Get ready for your mock interview.'',
              location := InterviewRoute new_id, view := initial_page\<rparr>"
          using blank wr by (simp add: handleStartInterview_def Let_def role_def row_def)
        have "0 < total_questions (row new_id)" "status (row new_id) = in_progress"
          using f by (auto simp: row_def)
        with o ins have od: "orderly_store d" by (rule orderly_store_interview)
        show ?thesis
          using c' od f unfolding eq orderly_def by (simp add: initial_page_def)
      qed
    qed
  qed
qed

lemma step_orderly:
  assumes ow: "orderly w" and rd: "reads ev"
  shows "orderly (step rt ev w)"
proof (cases ev)
  case (visit r)
  have "consistent (step rt ev w)" using ow by (simp add: orderly_def step_consistent)
  then show ?thesis using ow visit
    by (simp add: orderly_def initial_form_def initial_page_def)
next
  case (form_click c)
  have "questionCount (click c (form w)) \<in> {5, 10, 15}"
    using ow by (intro click_questionCount) (simp add: orderly_def)
  with ow have "orderly (w\<lparr>form := click c (form w)\<rparr>)" by (rule orderly_form)
  then show ?thesis using ow form_click by simp
next
  case (start r)
  then show ?thesis using ow by (simp add: handleStartInterview_orderly)
next
  case (load e)
  then show ?thesis using ow rd
    by (simp add: fetchInterview_orderly split: route.splits)
next
  case (type_answer s)
  show ?thesis
  proof (cases "answering w")
    case True
    then have "\<not> isLoading (view w)" by (simp add: answering_def)
    then have "orderly (w\<lparr>view := (view w)\<lparr>userAnswer := s\<rparr>\<rparr>)"
      by (intro orderly_same [OF ow]) simp_all
    then show ?thesis using type_answer True by simp
  next
    case False
    then show ?thesis using type_answer ow by simp
  qed
next
  case (submit r r')
  then show ?thesis using ow by (simp add: handleSubmitAnswer_orderly)
qed

lemma reading_orderly: "reading rt w \<Longrightarrow> orderly w"
proof (induction rule: reading.induct)
  case (reading_start u)
  show ?case
    by (simp add: orderly_def consistent_def orderly_store_def initial_world_def
        initial_form_def initial_page_def)
next
  case (reading_after w ev)
  then show ?case by (simp add: step_orderly)
qed

lemma orderly_orders:
  assumes "orderly w" and "r \<in> set (interviews (store w))"
  shows "question_orders (store w) (i_id r) =
           [1..int (length (question_orders (store w) (i_id r)))]"
proof -
  from assms have row: "orderly_row (store w) r" by (simp add: orderly_def orderly_store_def)
  then have ord: "map question_order (qs_of (store w) (i_id r)) =
      [1..int (length (qs_of (store w) (i_id r)))]"
    unfolding orderly_row_def by (rule conjunct1)
  have "question_orders (store w) (i_id r) = map question_order (qs_of (store w) (i_id r))"
    by (simp add: question_orders_def select_questions_orderly [OF ord] comp_def)
  then show ?thesis using ord by simp
qed

lemma orderly_counts:
  assumes "orderly w" and "r \<in> set (interviews (store w))"
  shows "int (answered_count (store w) (i_id r)) \<le> total_questions r \<and>
         (status r = completed \<longrightarrow> int (answered_count (store w) (i_id r)) = total_questions r)"
proof -
  define Q where "Q = qs_of (store w) (i_id r)"
  from assms have row: "orderly_row (store w) r" by (simp add: orderly_def orderly_store_def)
  then have ord: "map question_order Q = [1..int (length Q)]"
    and one: "\<forall>q\<in>set (butlast Q). as_of (store w) (q_id q) \<noteq> []"
    and bound: "int (length Q) \<le> total_questions r"
    and fin: "status r = completed \<longrightarrow>
         Q \<noteq> [] \<and> as_of (store w) (q_id (last Q)) \<noteq> [] \<and> int (length Q) = total_questions r"
    unfolding orderly_row_def Q_def by blast+
  have cnt: "answered_count (store w) (i_id r) =
      length (filter (\<lambda>q. as_of (store w) (q_id q) \<noteq> []) Q)"
    by (simp add: answered_count_def select_questions_orderly [OF ord [unfolded Q_def]]
        Q_def filter_map comp_def)
  have le: "answered_count (store w) (i_id r) \<le> length Q"
    unfolding cnt by (rule length_filter_le)
  have "int (answered_count (store w) (i_id r)) = total_questions r" if "status r = completed"
  proof -
    from fin that have ne: "Q \<noteq> []" and la: "as_of (store w) (q_id (last Q)) \<noteq> []"
      and full: "int (length Q) = total_questions r"
      by simp_all
    from one ne la have "\<forall>q\<in>set Q. as_of (store w) (q_id q) \<noteq> []" by (rule all_answered)
    then have "filter (\<lambda>q. as_of (store w) (q_id q) \<noteq> []) Q = Q" by simp
    then show ?thesis using full by (simp add: cnt)
  qed
  then show ?thesis using le bound by auto
qed

text \<open>
  On these runs the order indices of every interview are \<open>1, \<dots>, N\<close>, its answered
  questions are at most \<^verbatim>\<open>total_questions\<close>, and a completed interview has exactly that
  many.
\<close>

lemma reading_counts:
  assumes "reading rt w" and "r \<in> set (interviews (store w))"
  shows "question_orders (store w) (i_id r) =
           [1..int (length (question_orders (store w) (i_id r)))] \<and>
         int (answered_count (store w) (i_id r)) \<le> total_questions r \<and>
         (status r = completed \<longrightarrow> int (answered_count (store w) (i_id r)) = total_questions r)"
  using orderly_orders [OF reading_orderly [OF assms(1)] assms(2)]
    orderly_counts [OF reading_orderly [OF assms(1)] assms(2)]
  by simp

subsection \<open>A reload during which the questions cannot be read\<close>

text \<open>
  \<^verbatim>\<open>fetchInterview\<close> throws the error of its first read and drops the error of the second:
  after a failed read of the questions it asks for question 1 with an empty history,
  whatever the store holds.
\<close>

text \<open>
  C5 does not hold of the code. An interview has its first question, of order 1. The page
  is reloaded, the read of the questions fails, and the generation and the insert succeed:
  the interview now has two questions of order 1.
\<close>

theorem C5_duplicate_order:
  "question_orders (store (run demo_runtime ''u1'' reload_unread)) ''i1'' = [1, 1]"
  by (simp add: model_defs question_orders_def)

text \<open>
  C2 does not hold of the code. One turn of an interview of five questions is answered.
  The page is reloaded, the read of the questions fails, and five more turns are answered
  in the new session, which then completes the interview: it has six answered questions,
  more than its \<^verbatim>\<open>total_questions\<close>, and it is completed.
\<close>

theorem C2_answered_exceeds_total:
  "answered_count (store (run demo_runtime ''u1'' six_turns)) ''i1'' = 6 \<and>
   map total_questions (interviews (store (run demo_runtime ''u1'' six_turns))) = [5] \<and>
   map status (interviews (store (run demo_runtime ''u1'' six_turns))) = [completed]"
  by (simp add: model_defs answered_count_def)

end
